theory Spec2Isabelle
  imports Complex_Main "HOL-Library.Word"
begin

section \<open>Errors and text formatting\<close>

text \<open>
  Every exception the two source files can raise is a value of \<open>error\<close>:
  \<^item> \<open>runtime_error\<close>: \<^verbatim>\<open>std::runtime_error\<close> and \<^verbatim>\<open>uhd::runtime_error\<close>, with the message;
  \<^item> \<open>invalid_argument\<close>: \<^verbatim>\<open>std::invalid_argument\<close>, with the message;
  \<^item> \<open>out_of_range\<close>: what \<^verbatim>\<open>std::vector::at\<close> throws on an index past the end;
  \<^item> \<open>lookup_error\<close>: what the device's property tree raises for a named
    property it does not have, with the name.
\<close>

datatype error =
    runtime_error string
  | invalid_argument string
  | out_of_range
  | lookup_error string

definition digit_char :: "nat \<Rightarrow> char" where
  "digit_char n = ''0123456789abcdef'' ! (n mod 16)"

function show_hex :: "nat \<Rightarrow> string" where
  "show_hex n = (if n < 16 then [digit_char n] else show_hex (n div 16) @ [digit_char (n mod 16)])"
  by pat_completeness auto
termination
  by (relation "measure (\<lambda>n. n)") auto

declare show_hex.simps [simp del]

function show_dec :: "nat \<Rightarrow> string" where
  "show_dec n = (if n < 10 then [digit_char n] else show_dec (n div 10) @ [digit_char (n mod 10)])"
  by pat_completeness auto
termination
  by (relation "measure (\<lambda>n. n)") auto

declare show_dec.simps [simp del]

text \<open>The conversion \<^verbatim>\<open>%04x\<close>: hexadecimal, padded with zeros to four digits.\<close>

definition fmt_04x :: "nat \<Rightarrow> string" where
  "fmt_04x n = replicate (4 - length (show_hex n)) (CHR ''0'') @ show_hex n"

section \<open>The daughterboard registry and manager (dboard/manager.cpp)\<close>

subsection \<open>Data\<close>

text \<open>
  Modelled from the spec: \<^verbatim>\<open>uhd::dict\<close>, whose header is not among the sources. It is
  a list of key-value pairs in insertion order. Assigning through \<^verbatim>\<open>d[k] = v\<close>
  overwrites the value of the first pair with key \<open>k\<close> in place and appends a pair when
  there is none; reading through the non-const \<^verbatim>\<open>d[k]\<close> appends a pair with a
  default value when there is none.
\<close>

type_synonym ('k, 'v) dict = "('k \<times> 'v) list"

definition has_key :: "('k, 'v) dict \<Rightarrow> 'k \<Rightarrow> bool" where
  "has_key d k = (k \<in> set (map fst d))"

definition get_keys :: "('k, 'v) dict \<Rightarrow> 'k list" where
  "get_keys d = map fst d"

fun dict_assign :: "('k, 'v) dict \<Rightarrow> 'k \<Rightarrow> 'v \<Rightarrow> ('k, 'v) dict" where
  "dict_assign [] k v = [(k, v)]"
| "dict_assign ((k', v') # d) k v =
     (if k' = k then (k', v) # d else (k', v') # dict_assign d k v)"

definition dict_index :: "('k, 'v) dict \<Rightarrow> 'k \<Rightarrow> 'v \<Rightarrow> 'v \<times> ('k, 'v) dict" where
  "dict_index d k dflt =
     (case map_of d k of Some v \<Rightarrow> (v, d) | None \<Rightarrow> (dflt, d @ [(k, dflt)]))"

lemma map_of_dict_assign_same: "map_of (dict_assign d k v) k = Some v"
  by (induction d) auto

lemma map_of_dict_assign_other: "k' \<noteq> k \<Longrightarrow> map_of (dict_assign d k v) k' = map_of d k'"
  by (induction d) auto

lemma keys_dict_assign:
  "map fst (dict_assign d k v) = (if k \<in> set (map fst d) then map fst d else map fst d @ [k])"
  by (induction d) force+

lemma distinct_keys_dict_assign:
  "distinct (map fst d) \<Longrightarrow> distinct (map fst (dict_assign d k v))"
  by (simp add: keys_dict_assign)

text \<open>
  Modelled from the spec: the enumerators \<^verbatim>\<open>ID_NONE\<close>, \<^verbatim>\<open>ID_BASIC_TX\<close> and
  \<^verbatim>\<open>ID_BASIC_RX\<close> of \<^verbatim>\<open>dboard_id_t\<close> are declared in a header that is not among the
  sources. An identity code is an opaque integer; the three built-in codes are three
  different integers, and nothing below depends on which.
\<close>

type_synonym dboard_id_t = nat

definition ID_NONE :: dboard_id_t where "ID_NONE = 0xffff"
definition ID_BASIC_TX :: dboard_id_t where "ID_BASIC_TX = 0x0000"
definition ID_BASIC_RX :: dboard_id_t where "ID_BASIC_RX = 0x0001"

text \<open>
  A \<^verbatim>\<open>dboard_ctor_t\<close> is a pointer to a factory function and is compared by address:
  \<open>basic_tx_make\<close> and \<open>basic_rx_make\<close> are \<^verbatim>\<open>&basic_tx::make\<close> and
  \<^verbatim>\<open>&basic_rx::make\<close>, and \<open>extern_make n\<close> stands for the factory of an externally
  supplied driver.
\<close>

datatype dboard_ctor_t = basic_tx_make | basic_rx_make | extern_make nat

type_synonym prop_names_t = "string list"

text \<open>
  The static storage of the file: the latch of \<^verbatim>\<open>register_internal_dboards\<close> and the
  two maps.
\<close>

record registry =
  called :: bool
  id_to_ctor_map :: "(dboard_id_t, dboard_ctor_t) dict"
  ctor_to_names_map :: "(dboard_ctor_t, prop_names_t) dict"

definition fresh_registry :: registry where
  "fresh_registry = \<lparr>called = False, id_to_ctor_map = [], ctor_to_names_map = []\<rparr>"

subsection \<open>Registration\<close>

text \<open>
  The two functions call each other as in the source: \<^verbatim>\<open>register_subdevs\<close> always
  calls \<^verbatim>\<open>register_internal_dboards\<close> first, which returns at once when its latch
  is set and otherwise sets it and registers the four built-in entries.
\<close>

function register_internal_dboards :: "registry \<Rightarrow> registry"
  and register_subdevs ::
    "dboard_id_t \<Rightarrow> dboard_ctor_t \<Rightarrow> prop_names_t \<Rightarrow> registry \<Rightarrow> registry"
where
  "register_internal_dboards r =
     (if called r then r
      else register_subdevs ID_BASIC_RX basic_rx_make [''a'', ''b'', ''ab'']
            (register_subdevs ID_BASIC_TX basic_tx_make ['''']
              (register_subdevs ID_NONE basic_rx_make [''ab'']
                (register_subdevs ID_NONE basic_tx_make [''''] (r\<lparr>called := True\<rparr>)))))"
| "register_subdevs dboard_id dboard_ctor subdev_names r =
     (let r' = register_internal_dboards r
      in r'\<lparr>id_to_ctor_map := dict_assign (id_to_ctor_map r') dboard_id dboard_ctor,
            ctor_to_names_map := dict_assign (ctor_to_names_map r') dboard_ctor subdev_names\<rparr>)"
  by pat_completeness auto

lemma called_after_registering:
  "register_internal_dboards_register_subdevs_dom (Inl r) \<Longrightarrow>
     called (register_internal_dboards r) = True"
  "register_internal_dboards_register_subdevs_dom (Inr (i, c, n, r)) \<Longrightarrow>
     called (register_subdevs i c n r) = True"
  by (induction r and i c n r rule: register_internal_dboards_register_subdevs.pinduct)
     (auto simp: register_internal_dboards.psimps register_subdevs.psimps Let_def)

termination register_internal_dboards
  by (relation "measure (\<lambda>x. case x of
          Inl r \<Rightarrow> (if called r then 0 else 10)
        | Inr (i, c, n, r) \<Rightarrow> (if called r then 1 else 11))")
     (auto simp: called_after_registering)

declare register_internal_dboards.simps [simp del]
declare register_subdevs.simps [simp del]

text \<open>
  \<^verbatim>\<open>get_dboard_ctor\<close>: the \<^verbatim>\<open>has_key\<close> test and the lookup that follows it are one
  \<open>case\<close> on the lookup.
\<close>

definition get_dboard_ctor :: "registry \<Rightarrow> dboard_id_t \<Rightarrow> string \<Rightarrow> error + dboard_ctor_t" where
  "get_dboard_ctor r dboard_id xx_type =
     (case map_of (id_to_ctor_map r) dboard_id of
        None \<Rightarrow> Inl (runtime_error
                  (''Unknown '' @ xx_type @ '' dboard id: 0x'' @ fmt_04x dboard_id))
      | Some ctor \<Rightarrow> Inr ctor)"

subsection \<open>Driver instances, proxies and the manager\<close>

text \<open>
  Modelled from the spec: the driver class \<^verbatim>\<open>base\<close> with its handlers \<^verbatim>\<open>rx_get\<close>,
  \<^verbatim>\<open>rx_set\<close>, \<^verbatim>\<open>tx_get\<close> and \<^verbatim>\<open>tx_set\<close>, and the concrete drivers, are not among
  the sources. A driver instance is one object holding the state of one board: it
  remembers the factory that made it and the subdevice name it was made for, and it
  keeps one property store that all four handlers read and write, so that both
  directions observe and mutate the same board state. Keys and values are type-erased
  in the source and are type parameters here.
\<close>

record ('k, 'v) driver =
  made_by :: dboard_ctor_t
  made_for :: string
  board_state :: "'k \<Rightarrow> 'v option"

definition rx_get :: "('k, 'v) driver \<Rightarrow> 'k \<Rightarrow> 'v option" where
  "rx_get d key = board_state d key"

definition tx_get :: "('k, 'v) driver \<Rightarrow> 'k \<Rightarrow> 'v option" where
  "tx_get d key = board_state d key"

definition rx_set :: "('k, 'v) driver \<Rightarrow> 'k \<Rightarrow> 'v \<Rightarrow> ('k, 'v) driver" where
  "rx_set d key val = d\<lparr>board_state := (board_state d)(key \<mapsto> val)\<rparr>"

definition tx_set :: "('k, 'v) driver \<Rightarrow> 'k \<Rightarrow> 'v \<Rightarrow> ('k, 'v) driver" where
  "tx_set d key val = d\<lparr>board_state := (board_state d)(key \<mapsto> val)\<rparr>"

text \<open>
  Driver instances live in a heap, a list indexed by address; a \<^verbatim>\<open>base::sptr\<close> is an
  address. Calling a factory allocates a new instance at the end of the heap.
\<close>

type_synonym ('k, 'v) heap = "('k, 'v) driver list"

definition new_driver :: "dboard_ctor_t \<Rightarrow> string \<Rightarrow> ('k, 'v) driver" where
  "new_driver ctor name = \<lparr>made_by = ctor, made_for = name, board_state = (\<lambda>k. None)\<rparr>"

definition call_ctor :: "dboard_ctor_t \<Rightarrow> string \<Rightarrow> ('k, 'v) heap \<Rightarrow> nat \<times> ('k, 'v) heap" where
  "call_ctor ctor name h = (length h, h @ [new_driver ctor name])"

datatype type_t = RX_TYPE | TX_TYPE

record subdev_proxy =
  proxy_subdev :: nat
  proxy_type :: type_t

text \<open>
  \<^verbatim>\<open>subdev_proxy::get\<close> and \<^verbatim>\<open>subdev_proxy::set\<close> forward to the handler the tag
  selects. A shared pointer always refers to a live instance; an address outside the
  heap reads nothing and writes nothing.
\<close>

definition proxy_get :: "('k, 'v) heap \<Rightarrow> subdev_proxy \<Rightarrow> 'k \<Rightarrow> 'v option" where
  "proxy_get h p key =
     (if proxy_subdev p < length h
      then (case proxy_type p of
              RX_TYPE \<Rightarrow> rx_get (h ! proxy_subdev p) key
            | TX_TYPE \<Rightarrow> tx_get (h ! proxy_subdev p) key)
      else None)"

definition proxy_set :: "('k, 'v) heap \<Rightarrow> subdev_proxy \<Rightarrow> 'k \<Rightarrow> 'v \<Rightarrow> ('k, 'v) heap" where
  "proxy_set h p key val =
     (if proxy_subdev p < length h
      then (case proxy_type p of
              RX_TYPE \<Rightarrow> h[proxy_subdev p := rx_set (h ! proxy_subdev p) key val]
            | TX_TYPE \<Rightarrow> h[proxy_subdev p := tx_set (h ! proxy_subdev p) key val])
      else h)"

text \<open>
  The calls the constructor makes on the hardware interface are recorded in order.
\<close>

datatype gpio_bank_t = GPIO_RX_BANK | GPIO_TX_BANK

datatype iface_call =
    set_gpio_ddr gpio_bank_t nat nat
  | write_gpio gpio_bank_t nat nat
  | set_atr_reg gpio_bank_t nat nat nat

record manager =
  rx_dboards :: "(string, subdev_proxy) dict"
  tx_dboards :: "(string, subdev_proxy) dict"

record ('k, 'v) world =
  statics :: registry
  instances :: "('k, 'v) heap"
  iface_calls :: "iface_call list"

text \<open>The three \<^verbatim>\<open>BOOST_FOREACH\<close> loops of the constructor.\<close>

fun make_xcvr_subdevs ::
  "dboard_ctor_t \<Rightarrow> string list \<Rightarrow> manager \<Rightarrow> ('k, 'v) heap \<Rightarrow> manager \<times> ('k, 'v) heap" where
  "make_xcvr_subdevs ctor [] m h = (m, h)"
| "make_xcvr_subdevs ctor (name # names) m h =
     (let (xcvr_dboard, h') = call_ctor ctor name h;
          m1 = m\<lparr>rx_dboards := dict_assign (rx_dboards m) name
                  \<lparr>proxy_subdev = xcvr_dboard, proxy_type = RX_TYPE\<rparr>\<rparr>;
          m2 = m1\<lparr>tx_dboards := dict_assign (tx_dboards m1) name
                  \<lparr>proxy_subdev = xcvr_dboard, proxy_type = TX_TYPE\<rparr>\<rparr>
      in make_xcvr_subdevs ctor names m2 h')"

fun make_rx_subdevs ::
  "dboard_ctor_t \<Rightarrow> string list \<Rightarrow> manager \<Rightarrow> ('k, 'v) heap \<Rightarrow> manager \<times> ('k, 'v) heap" where
  "make_rx_subdevs ctor [] m h = (m, h)"
| "make_rx_subdevs ctor (name # names) m h =
     (let (rx_dboard, h') = call_ctor ctor name h;
          m1 = m\<lparr>rx_dboards := dict_assign (rx_dboards m) name
                  \<lparr>proxy_subdev = rx_dboard, proxy_type = RX_TYPE\<rparr>\<rparr>
      in make_rx_subdevs ctor names m1 h')"

fun make_tx_subdevs ::
  "dboard_ctor_t \<Rightarrow> string list \<Rightarrow> manager \<Rightarrow> ('k, 'v) heap \<Rightarrow> manager \<times> ('k, 'v) heap" where
  "make_tx_subdevs ctor [] m h = (m, h)"
| "make_tx_subdevs ctor (name # names) m h =
     (let (tx_dboard, h') = call_ctor ctor name h;
          m1 = m\<lparr>tx_dboards := dict_assign (tx_dboards m) name
                  \<lparr>proxy_subdev = tx_dboard, proxy_type = TX_TYPE\<rparr>\<rparr>
      in make_tx_subdevs ctor names m1 h')"

definition gpio_init :: "iface_call list" where
  "gpio_init =
     [set_gpio_ddr GPIO_RX_BANK 0x0000 0xffff, set_gpio_ddr GPIO_TX_BANK 0x0000 0xffff,
      write_gpio GPIO_RX_BANK 0x0000 0xffff, write_gpio GPIO_TX_BANK 0x0000 0xffff,
      set_atr_reg GPIO_RX_BANK 0x0000 0x0000 0x0000,
      set_atr_reg GPIO_TX_BANK 0x0000 0x0000 0x0000]"

text \<open>
  The constructor \<^verbatim>\<open>manager::manager\<close>. An exception leaves the world as it was when
  it was thrown, so the result pairs the outcome with the world.
\<close>

definition manager_make ::
  "dboard_id_t \<Rightarrow> dboard_id_t \<Rightarrow> ('k, 'v) world \<Rightarrow> (error + manager) \<times> ('k, 'v) world" where
  "manager_make rx_dboard_id tx_dboard_id w =
     (let r = register_internal_dboards (statics w);
          w0 = w\<lparr>statics := r\<rparr>
      in case get_dboard_ctor r rx_dboard_id ''rx'' of
           Inl e \<Rightarrow> (Inl e, w0)
         | Inr rx_dboard_ctor \<Rightarrow>
        (case get_dboard_ctor r tx_dboard_id ''tx'' of
           Inl e \<Rightarrow> (Inl e, w0)
         | Inr tx_dboard_ctor \<Rightarrow>
        (let calls = iface_calls w0 @ gpio_init;
             m0 = \<lparr>rx_dboards = [], tx_dboards = []\<rparr>
         in if rx_dboard_ctor = tx_dboard_ctor
            then
              (let (names, cn) = dict_index (ctor_to_names_map r) rx_dboard_ctor [];
                   (m, h) = make_xcvr_subdevs rx_dboard_ctor names m0 (instances w0)
               in (Inr m, \<lparr>statics = r\<lparr>ctor_to_names_map := cn\<rparr>,
                            instances = h, iface_calls = calls\<rparr>))
            else
              (let (rx_names, cn1) = dict_index (ctor_to_names_map r) rx_dboard_ctor [];
                   (m1, h1) = make_rx_subdevs rx_dboard_ctor rx_names m0 (instances w0);
                   (tx_names, cn2) = dict_index cn1 tx_dboard_ctor [];
                   (m2, h2) = make_tx_subdevs tx_dboard_ctor tx_names m1 h1
               in (Inr m2, \<lparr>statics = r\<lparr>ctor_to_names_map := cn2\<rparr>,
                             instances = h2, iface_calls = calls\<rparr>)))))"

definition get_rx_subdev_names :: "manager \<Rightarrow> prop_names_t" where
  "get_rx_subdev_names m = get_keys (rx_dboards m)"

definition get_tx_subdev_names :: "manager \<Rightarrow> prop_names_t" where
  "get_tx_subdev_names m = get_keys (tx_dboards m)"

definition get_rx_subdev :: "manager \<Rightarrow> string \<Rightarrow> error + subdev_proxy" where
  "get_rx_subdev m subdev_name =
     (case map_of (rx_dboards m) subdev_name of
        None \<Rightarrow> Inl (invalid_argument (''Unknown rx subdev name '' @ subdev_name))
      | Some p \<Rightarrow> Inr p)"

definition get_tx_subdev :: "manager \<Rightarrow> string \<Rightarrow> error + subdev_proxy" where
  "get_tx_subdev m subdev_name =
     (case map_of (tx_dboards m) subdev_name of
        None \<Rightarrow> Inl (invalid_argument (''Unknown tx subdev name '' @ subdev_name))
      | Some p \<Rightarrow> Inr p)"

definition fresh_world :: "('k, 'v) world" where
  "fresh_world = \<lparr>statics = fresh_registry, instances = [], iface_calls = []\<rparr>"

section \<open>The multi-board facade (multi_usrp.cpp)\<close>

subsection \<open>Values\<close>

text \<open>
  A \<^verbatim>\<open>double\<close> is its 64-bit pattern. The facade stores and copies doubles; the one
  place where it computes with them is the tolerance test of the rate warning, which is
  a parameter of the functions that make it (see \<open>do_samp_rate_warning_message\<close>).
\<close>

type_synonym double = "64 word"

text \<open>
  Modelled from the spec: \<^verbatim>\<open>time_spec_t\<close>, declared in a header that is not among the
  sources, is an arbitrary-precision instant (whole seconds and fractional seconds); here
  it is a rational number of seconds, with the comparisons and the difference of the
  rationals. \<^verbatim>\<open>time_spec_t(1.1)\<close> is 11/10 and \<^verbatim>\<open>time_spec_t(0.01)\<close> is 1/100.
\<close>

type_synonym time_spec_t = rat

text \<open>
  \<^verbatim>\<open>size_t\<close> values (board and channel indices, vector sizes) are natural numbers: the
  sizes are those of vectors held in memory, and the arithmetic the facade does on them
  (a guarded subtraction, increments below a size, sums and products of sizes) stays far
  below the largest \<^verbatim>\<open>size_t\<close>.

  Modelled from the spec: the sentinels \<^verbatim>\<open>ALL_MBOARDS\<close> and \<^verbatim>\<open>ALL_CHANS\<close> are declared
  in a header that is not among the sources. Each is one value of the index type that
  means all boards, or all channels; here it is the largest 64-bit \<^verbatim>\<open>size_t\<close>.
\<close>

definition ALL_MBOARDS :: nat where "ALL_MBOARDS = 2 ^ 64 - 1"
definition ALL_CHANS :: nat where "ALL_CHANS = 2 ^ 64 - 1"

record subdev_spec_pair_t =
  db_name :: string
  sd_name :: string

type_synonym subdev_spec_t = "subdev_spec_pair_t list"

text \<open>
  What \<^verbatim>\<open>UHD_MSG\<close> prints. A status is the text written, with the end of line of
  \<^verbatim>\<open>std::endl\<close>. A warning keeps the values its text is formatted from: the direction
  and the two rates, or the board and the two times.
\<close>

datatype msg =
    status string
  | warning_samp_rate string double double
  | warning_time_deviation nat time_spec_t time_spec_t

subsection \<open>The device's property tree\<close>

text \<open>
  Modelled from the spec: the device behind \<^verbatim>\<open>device::make\<close> and its property tree
  are not among the sources. The tree is modelled with the properties the facade reads
  and writes. A family of named properties (the boards of a device, the DSPs and the
  daughterboards of a board, the subdevices of a daughterboard) is a table of pairs of
  a name and a node, in the order of the corresponding name list; a name is looked up
  from the front, and a write replaces the node of the first pair with that name.

  The payloads of a stream command and of a clock configuration are only copied, and
  are the type parameters \<open>'cmd\<close> and \<open>'clk\<close>.

  A DSP answers a write of its host rate with the rate it can achieve
  (\<open>host_rate_achieved\<close>), and keeps the stream commands issued to it.

  The two time registers of a board are owned by its firmware: what a read of them
  returns is given by \<open>time_now_at\<close> and \<open>time_pps_at\<close>, functions of the number of
  time-register reads the device has served so far, and a read advances that number.
  Writes to the registers are kept in \<open>time_now_writes\<close> and \<open>time_next_pps_writes\<close>.
\<close>

record 'cmd dsp_t =
  DSP_PROP_NAME :: string
  DSP_PROP_HOST_RATE :: double
  host_rate_achieved :: "double \<Rightarrow> double"
  DSP_PROP_STREAM_CMD :: "'cmd list"

record subdev_t =
  SUBDEV_PROP_NAME :: string

record dboard_t =
  DBOARD_PROP_NAME :: string
  DBOARD_PROP_SUBDEV :: "(string, subdev_t) dict"

record ('cmd, 'clk) mboard_t =
  MBOARD_PROP_NAME :: string
  MBOARD_PROP_CLOCK_RATE :: double
  MBOARD_PROP_CLOCK_CONFIG :: 'clk
  MBOARD_PROP_RX_SUBDEV_SPEC :: subdev_spec_t
  MBOARD_PROP_TX_SUBDEV_SPEC :: subdev_spec_t
  MBOARD_PROP_RX_DSP :: "(string, 'cmd dsp_t) dict"
  MBOARD_PROP_TX_DSP :: "(string, 'cmd dsp_t) dict"
  MBOARD_PROP_RX_DBOARD :: "(string, dboard_t) dict"
  MBOARD_PROP_TX_DBOARD :: "(string, dboard_t) dict"
  time_now_at :: "nat \<Rightarrow> time_spec_t"
  time_pps_at :: "nat \<Rightarrow> time_spec_t"
  time_now_writes :: "time_spec_t list"
  time_next_pps_writes :: "time_spec_t list"

text \<open>
  The state a call of the facade runs in: the device (\<^verbatim>\<open>_dev\<close>), the number of
  time-register reads served, and the messages printed.
\<close>

record ('cmd, 'clk) usrp =
  DEVICE_PROP_NAME :: string
  DEVICE_PROP_MBOARD :: "(string, ('cmd, 'clk) mboard_t) dict"
  reads :: nat
  msgs :: "msg list"

text \<open>
  A call returns a value or throws, and leaves a state either way: its result is a pair
  of the outcome and the state. Functions that only read the tree return the outcome.
\<close>

type_synonym ('a, 's) result = "(error + 'a) \<times> 's"

subsection \<open>Boards\<close>

definition get_num_mboards :: "('cmd, 'clk) usrp \<Rightarrow> nat" where
  "get_num_mboards u = length (map fst (DEVICE_PROP_MBOARD u))"

text \<open>
  \<^verbatim>\<open>_mboard\<close>: the name at the index, by \<^verbatim>\<open>at\<close>, and the node of that name.
\<close>

definition mboard_obj :: "('cmd, 'clk) usrp \<Rightarrow> nat \<Rightarrow> error + string" where
  "mboard_obj u mboard =
     (if mboard < length (map fst (DEVICE_PROP_MBOARD u))
      then Inr (map fst (DEVICE_PROP_MBOARD u) ! mboard)
      else Inl out_of_range)"

definition mboard_props :: "('cmd, 'clk) usrp \<Rightarrow> string \<Rightarrow> error + ('cmd, 'clk) mboard_t" where
  "mboard_props u mb_name =
     (case map_of (DEVICE_PROP_MBOARD u) mb_name of
        None \<Rightarrow> Inl (lookup_error mb_name)
      | Some b \<Rightarrow> Inr b)"

text \<open>Reading a property of the board at an index, and writing one.\<close>

definition mboard_get ::
  "('cmd, 'clk) usrp \<Rightarrow> nat \<Rightarrow> (('cmd, 'clk) mboard_t \<Rightarrow> 'a) \<Rightarrow> error + 'a" where
  "mboard_get u mboard prop =
     (case mboard_obj u mboard of
        Inl e \<Rightarrow> Inl e
      | Inr mb_name \<Rightarrow>
          (case mboard_props u mb_name of Inl e \<Rightarrow> Inl e | Inr b \<Rightarrow> Inr (prop b)))"

definition mboard_set ::
  "nat \<Rightarrow> (('cmd, 'clk) mboard_t \<Rightarrow> ('cmd, 'clk) mboard_t) \<Rightarrow> ('cmd, 'clk) usrp
     \<Rightarrow> (unit, ('cmd, 'clk) usrp) result" where
  "mboard_set mboard upd u =
     (case mboard_obj u mboard of
        Inl e \<Rightarrow> (Inl e, u)
      | Inr mb_name \<Rightarrow>
          (case mboard_props u mb_name of
             Inl e \<Rightarrow> (Inl e, u)
           | Inr b \<Rightarrow>
               (Inr (), u\<lparr>DEVICE_PROP_MBOARD :=
                           dict_assign (DEVICE_PROP_MBOARD u) mb_name (upd b)\<rparr>)))"

definition get_rx_subdev_spec :: "('cmd, 'clk) usrp \<Rightarrow> nat \<Rightarrow> error + subdev_spec_t" where
  "get_rx_subdev_spec u mboard = mboard_get u mboard MBOARD_PROP_RX_SUBDEV_SPEC"

definition get_tx_subdev_spec :: "('cmd, 'clk) usrp \<Rightarrow> nat \<Rightarrow> error + subdev_spec_t" where
  "get_tx_subdev_spec u mboard = mboard_get u mboard MBOARD_PROP_TX_SUBDEV_SPEC"

definition get_mboard_name :: "('cmd, 'clk) usrp \<Rightarrow> nat \<Rightarrow> error + string" where
  "get_mboard_name u mboard = mboard_get u mboard MBOARD_PROP_NAME"

definition get_master_clock_rate :: "('cmd, 'clk) usrp \<Rightarrow> nat \<Rightarrow> error + double" where
  "get_master_clock_rate u mboard = mboard_get u mboard MBOARD_PROP_CLOCK_RATE"

subsection \<open>The channel resolver\<close>

record mboard_chan_pair =
  mboard :: nat
  chan :: nat

text \<open>
  The loop of \<^verbatim>\<open>rx_chan_to_mcp\<close>, from the values of \<^verbatim>\<open>mcp.mboard\<close> and \<^verbatim>\<open>mcp.chan\<close>
  at the test of an iteration.
\<close>

function rx_chan_to_mcp_loop ::
  "('cmd, 'clk) usrp \<Rightarrow> nat \<Rightarrow> nat \<Rightarrow> error + mboard_chan_pair" where
  "rx_chan_to_mcp_loop u mb ch =
     (if mb < get_num_mboards u
      then (case get_rx_subdev_spec u mb of
              Inl e \<Rightarrow> Inl e
            | Inr spec \<Rightarrow>
                (let sss = length spec
                 in if ch < sss then Inr \<lparr>mboard = mb, chan = ch\<rparr>
                    else rx_chan_to_mcp_loop u (mb + 1) (ch - sss)))
      else Inr \<lparr>mboard = mb, chan = ch\<rparr>)"
  by pat_completeness auto
termination
  by (relation "measure (\<lambda>(u, mb, ch). get_num_mboards u - mb)") auto

declare rx_chan_to_mcp_loop.simps [simp del]

definition rx_chan_to_mcp :: "('cmd, 'clk) usrp \<Rightarrow> nat \<Rightarrow> error + mboard_chan_pair" where
  "rx_chan_to_mcp u ch = rx_chan_to_mcp_loop u 0 ch"

function tx_chan_to_mcp_loop ::
  "('cmd, 'clk) usrp \<Rightarrow> nat \<Rightarrow> nat \<Rightarrow> error + mboard_chan_pair" where
  "tx_chan_to_mcp_loop u mb ch =
     (if mb < get_num_mboards u
      then (case get_tx_subdev_spec u mb of
              Inl e \<Rightarrow> Inl e
            | Inr spec \<Rightarrow>
                (let sss = length spec
                 in if ch < sss then Inr \<lparr>mboard = mb, chan = ch\<rparr>
                    else tx_chan_to_mcp_loop u (mb + 1) (ch - sss)))
      else Inr \<lparr>mboard = mb, chan = ch\<rparr>)"
  by pat_completeness auto
termination
  by (relation "measure (\<lambda>(u, mb, ch). get_num_mboards u - mb)") auto

declare tx_chan_to_mcp_loop.simps [simp del]

definition tx_chan_to_mcp :: "('cmd, 'clk) usrp \<Rightarrow> nat \<Rightarrow> error + mboard_chan_pair" where
  "tx_chan_to_mcp u ch = tx_chan_to_mcp_loop u 0 ch"

text \<open>\<^verbatim>\<open>get_rx_num_channels\<close> and \<^verbatim>\<open>get_tx_num_channels\<close>: the loops that sum the sizes (\<open>acc\<close> is the variable \<^verbatim>\<open>sum\<close>).\<close>

function rx_num_channels_loop :: "('cmd, 'clk) usrp \<Rightarrow> nat \<Rightarrow> nat \<Rightarrow> error + nat" where
  "rx_num_channels_loop u m acc =
     (if m < get_num_mboards u
      then (case get_rx_subdev_spec u m of
              Inl e \<Rightarrow> Inl e
            | Inr spec \<Rightarrow> rx_num_channels_loop u (m + 1) (acc + length spec))
      else Inr acc)"
  by pat_completeness auto
termination
  by (relation "measure (\<lambda>(u, m, acc). get_num_mboards u - m)") auto

declare rx_num_channels_loop.simps [simp del]

definition get_rx_num_channels :: "('cmd, 'clk) usrp \<Rightarrow> error + nat" where
  "get_rx_num_channels u = rx_num_channels_loop u 0 0"

function tx_num_channels_loop :: "('cmd, 'clk) usrp \<Rightarrow> nat \<Rightarrow> nat \<Rightarrow> error + nat" where
  "tx_num_channels_loop u m acc =
     (if m < get_num_mboards u
      then (case get_tx_subdev_spec u m of
              Inl e \<Rightarrow> Inl e
            | Inr spec \<Rightarrow> tx_num_channels_loop u (m + 1) (acc + length spec))
      else Inr acc)"
  by pat_completeness auto
termination
  by (relation "measure (\<lambda>(u, m, acc). get_num_mboards u - m)") auto

declare tx_num_channels_loop.simps [simp del]

definition get_tx_num_channels :: "('cmd, 'clk) usrp \<Rightarrow> error + nat" where
  "get_tx_num_channels u = tx_num_channels_loop u 0 0"

text \<open>
  The resolver over a list of sizes: what the loop of \<^verbatim>\<open>rx_chan_to_mcp\<close> does with the
  sizes of the boards it has not visited yet.
\<close>

definition rx_spec_sizes :: "('cmd, 'clk) usrp \<Rightarrow> nat list" where
  "rx_spec_sizes u =
     map (\<lambda>m. case get_rx_subdev_spec u m of Inl e \<Rightarrow> 0 | Inr spec \<Rightarrow> length spec)
       [0..<get_num_mboards u]"

definition tx_spec_sizes :: "('cmd, 'clk) usrp \<Rightarrow> nat list" where
  "tx_spec_sizes u =
     map (\<lambda>m. case get_tx_subdev_spec u m of Inl e \<Rightarrow> 0 | Inr spec \<Rightarrow> length spec)
       [0..<get_num_mboards u]"

fun resolve :: "nat list \<Rightarrow> nat \<Rightarrow> nat \<Rightarrow> mboard_chan_pair" where
  "resolve [] mb ch = \<lparr>mboard = mb, chan = ch\<rparr>"
| "resolve (s # ss) mb ch =
     (if ch < s then \<lparr>mboard = mb, chan = ch\<rparr> else resolve ss (mb + 1) (ch - s))"

subsection \<open>What a write leaves unchanged\<close>

text \<open>
  The loops of the facade test their bound again at every iteration; they end because
  the writes in their bodies change neither the list of board names nor, for the loops
  over channels, the subdevice specs. The shape of a device is what these bounds are
  computed from.
\<close>

definition shape :: "('cmd, 'clk) usrp \<Rightarrow> (string \<times> subdev_spec_t \<times> subdev_spec_t) list" where
  "shape u =
     map (\<lambda>(n, b). (n, MBOARD_PROP_RX_SUBDEV_SPEC b, MBOARD_PROP_TX_SUBDEV_SPEC b))
       (DEVICE_PROP_MBOARD u)"

lemma dict_assign_present_keys:
  "map_of d k = Some v0 \<Longrightarrow> map fst (dict_assign d k v) = map fst d"
  by (auto simp: keys_dict_assign dest: map_of_SomeD intro: rev_image_eqI)

lemma dict_assign_present_map:
  "map_of d k = Some v0 \<Longrightarrow> f v = f v0 \<Longrightarrow>
     map (\<lambda>(n, b). (n, f b)) (dict_assign d k v) = map (\<lambda>(n, b). (n, f b)) d"
  by (induction d) (auto split: if_splits)

lemma mboard_set_names:
  "mboard_set m upd u = (r, u') \<Longrightarrow>
     map fst (DEVICE_PROP_MBOARD u') = map fst (DEVICE_PROP_MBOARD u)"
  by (auto simp: mboard_set_def mboard_props_def dict_assign_present_keys
      split: sum.splits option.splits)

lemma mboard_set_num_mboards:
  "mboard_set m upd u = (r, u') \<Longrightarrow> get_num_mboards u' = get_num_mboards u"
  using mboard_set_names [of m upd u r u'] by (simp add: get_num_mboards_def)

lemma get_num_mboards_shape: "get_num_mboards u = length (shape u)"
  by (simp add: get_num_mboards_def shape_def)

lemma map_of_shape:
  "map_of (shape u) n =
     map_option (\<lambda>b. (MBOARD_PROP_RX_SUBDEV_SPEC b, MBOARD_PROP_TX_SUBDEV_SPEC b))
       (map_of (DEVICE_PROP_MBOARD u) n)"
  unfolding shape_def by (induction "DEVICE_PROP_MBOARD u" arbitrary: u) (auto simp: map_of_map)

lemma names_shape: "map fst (shape u) = map fst (DEVICE_PROP_MBOARD u)"
  by (simp add: shape_def case_prod_beta comp_def)

lemma get_rx_subdev_spec_via_shape:
  "get_rx_subdev_spec u m =
     (if m < length (shape u)
      then (case map_of (shape u) (map fst (shape u) ! m) of
              None \<Rightarrow> Inl (lookup_error (map fst (shape u) ! m))
            | Some (r, t) \<Rightarrow> Inr r)
      else Inl out_of_range)"
  by (simp add: get_rx_subdev_spec_def mboard_get_def mboard_obj_def mboard_props_def
      map_of_shape names_shape split: option.splits)
     (simp add: shape_def)

lemma get_tx_subdev_spec_via_shape:
  "get_tx_subdev_spec u m =
     (if m < length (shape u)
      then (case map_of (shape u) (map fst (shape u) ! m) of
              None \<Rightarrow> Inl (lookup_error (map fst (shape u) ! m))
            | Some (r, t) \<Rightarrow> Inr t)
      else Inl out_of_range)"
  by (simp add: get_tx_subdev_spec_def mboard_get_def mboard_obj_def mboard_props_def
      map_of_shape names_shape split: option.splits)
     (simp add: shape_def)

lemma rx_num_channels_loop_shape:
  "shape u = shape u' \<Longrightarrow> rx_num_channels_loop u m acc = rx_num_channels_loop u' m acc"
proof (induction u m acc rule: rx_num_channels_loop.induct)
  case (1 u m acc)
  have n: "get_num_mboards u' = get_num_mboards u"
    using "1.prems" by (simp add: get_num_mboards_shape)
  have s: "get_rx_subdev_spec u' m = get_rx_subdev_spec u m"
    by (simp only: get_rx_subdev_spec_via_shape "1.prems")
  show ?case
  proof (cases "m < get_num_mboards u")
    case False
    then show ?thesis
      by (subst rx_num_channels_loop.simps, subst (2) rx_num_channels_loop.simps)
         (simp add: n)
  next
    case True
    show ?thesis
    proof (cases "get_rx_subdev_spec u m")
      case (Inl e)
      then show ?thesis
        using True
        by (subst rx_num_channels_loop.simps, subst (2) rx_num_channels_loop.simps)
           (simp add: n s)
    next
      case (Inr spec)
      from "1.IH" [OF True Inr "1.prems"] show ?thesis
        using True Inr
        by (subst rx_num_channels_loop.simps, subst (2) rx_num_channels_loop.simps)
           (simp add: n s)
    qed
  qed
qed

lemma tx_num_channels_loop_shape:
  "shape u = shape u' \<Longrightarrow> tx_num_channels_loop u m acc = tx_num_channels_loop u' m acc"
proof (induction u m acc rule: tx_num_channels_loop.induct)
  case (1 u m acc)
  have n: "get_num_mboards u' = get_num_mboards u"
    using "1.prems" by (simp add: get_num_mboards_shape)
  have s: "get_tx_subdev_spec u' m = get_tx_subdev_spec u m"
    by (simp only: get_tx_subdev_spec_via_shape "1.prems")
  show ?case
  proof (cases "m < get_num_mboards u")
    case False
    then show ?thesis
      by (subst tx_num_channels_loop.simps, subst (2) tx_num_channels_loop.simps)
         (simp add: n)
  next
    case True
    show ?thesis
    proof (cases "get_tx_subdev_spec u m")
      case (Inl e)
      then show ?thesis
        using True
        by (subst tx_num_channels_loop.simps, subst (2) tx_num_channels_loop.simps)
           (simp add: n s)
    next
      case (Inr spec)
      from "1.IH" [OF True Inr "1.prems"] show ?thesis
        using True Inr
        by (subst tx_num_channels_loop.simps, subst (2) tx_num_channels_loop.simps)
           (simp add: n s)
    qed
  qed
qed

lemma get_rx_num_channels_shape:
  "shape u' = shape u \<Longrightarrow> get_rx_num_channels u' = get_rx_num_channels u"
  by (simp add: get_rx_num_channels_def rx_num_channels_loop_shape [of u' u])

lemma get_tx_num_channels_shape:
  "shape u' = shape u \<Longrightarrow> get_tx_num_channels u' = get_tx_num_channels u"
  by (simp add: get_tx_num_channels_def tx_num_channels_loop_shape [of u' u])

subsection \<open>DSPs, daughterboards and subdevices of a channel\<close>

text \<open>
  \<^verbatim>\<open>_rx_dsp\<close> and \<^verbatim>\<open>_tx_dsp\<close> return a link to a DSP node: the name of the board and the
  name of the DSP. A read or a write through the link looks both names up.
\<close>

definition rx_dsp_obj :: "('cmd, 'clk) usrp \<Rightarrow> nat \<Rightarrow> error + string \<times> string" where
  "rx_dsp_obj u ch =
     (case rx_chan_to_mcp u ch of
        Inl e \<Rightarrow> Inl e
      | Inr mcp \<Rightarrow>
     (case mboard_get u (mboard mcp) (\<lambda>b. map fst (MBOARD_PROP_RX_DSP b)) of
        Inl e \<Rightarrow> Inl e
      | Inr dsp_names \<Rightarrow>
     (case mboard_obj u (mboard mcp) of
        Inl e \<Rightarrow> Inl e
      | Inr mb_name \<Rightarrow>
          if chan mcp < length dsp_names then Inr (mb_name, dsp_names ! chan mcp)
          else Inl out_of_range)))"

definition tx_dsp_obj :: "('cmd, 'clk) usrp \<Rightarrow> nat \<Rightarrow> error + string \<times> string" where
  "tx_dsp_obj u ch =
     (case tx_chan_to_mcp u ch of
        Inl e \<Rightarrow> Inl e
      | Inr mcp \<Rightarrow>
     (case mboard_get u (mboard mcp) (\<lambda>b. map fst (MBOARD_PROP_TX_DSP b)) of
        Inl e \<Rightarrow> Inl e
      | Inr dsp_names \<Rightarrow>
     (case mboard_obj u (mboard mcp) of
        Inl e \<Rightarrow> Inl e
      | Inr mb_name \<Rightarrow>
          if chan mcp < length dsp_names then Inr (mb_name, dsp_names ! chan mcp)
          else Inl out_of_range)))"

definition rx_dsp_get ::
  "('cmd, 'clk) usrp \<Rightarrow> nat \<Rightarrow> ('cmd dsp_t \<Rightarrow> 'a) \<Rightarrow> error + 'a" where
  "rx_dsp_get u ch prop =
     (case rx_dsp_obj u ch of
        Inl e \<Rightarrow> Inl e
      | Inr (mb_name, dsp_name) \<Rightarrow>
     (case mboard_props u mb_name of
        Inl e \<Rightarrow> Inl e
      | Inr b \<Rightarrow>
     (case map_of (MBOARD_PROP_RX_DSP b) dsp_name of
        None \<Rightarrow> Inl (lookup_error dsp_name)
      | Some d \<Rightarrow> Inr (prop d))))"

definition tx_dsp_get ::
  "('cmd, 'clk) usrp \<Rightarrow> nat \<Rightarrow> ('cmd dsp_t \<Rightarrow> 'a) \<Rightarrow> error + 'a" where
  "tx_dsp_get u ch prop =
     (case tx_dsp_obj u ch of
        Inl e \<Rightarrow> Inl e
      | Inr (mb_name, dsp_name) \<Rightarrow>
     (case mboard_props u mb_name of
        Inl e \<Rightarrow> Inl e
      | Inr b \<Rightarrow>
     (case map_of (MBOARD_PROP_TX_DSP b) dsp_name of
        None \<Rightarrow> Inl (lookup_error dsp_name)
      | Some d \<Rightarrow> Inr (prop d))))"

definition rx_dsp_set ::
  "nat \<Rightarrow> ('cmd dsp_t \<Rightarrow> 'cmd dsp_t) \<Rightarrow> ('cmd, 'clk) usrp \<Rightarrow> (unit, ('cmd, 'clk) usrp) result" where
  "rx_dsp_set ch upd u =
     (case rx_dsp_obj u ch of
        Inl e \<Rightarrow> (Inl e, u)
      | Inr (mb_name, dsp_name) \<Rightarrow>
     (case mboard_props u mb_name of
        Inl e \<Rightarrow> (Inl e, u)
      | Inr b \<Rightarrow>
     (case map_of (MBOARD_PROP_RX_DSP b) dsp_name of
        None \<Rightarrow> (Inl (lookup_error dsp_name), u)
      | Some d \<Rightarrow>
          (Inr (), u\<lparr>DEVICE_PROP_MBOARD :=
             dict_assign (DEVICE_PROP_MBOARD u) mb_name
               (b\<lparr>MBOARD_PROP_RX_DSP :=
                    dict_assign (MBOARD_PROP_RX_DSP b) dsp_name (upd d)\<rparr>)\<rparr>))))"

definition tx_dsp_set ::
  "nat \<Rightarrow> ('cmd dsp_t \<Rightarrow> 'cmd dsp_t) \<Rightarrow> ('cmd, 'clk) usrp \<Rightarrow> (unit, ('cmd, 'clk) usrp) result" where
  "tx_dsp_set ch upd u =
     (case tx_dsp_obj u ch of
        Inl e \<Rightarrow> (Inl e, u)
      | Inr (mb_name, dsp_name) \<Rightarrow>
     (case mboard_props u mb_name of
        Inl e \<Rightarrow> (Inl e, u)
      | Inr b \<Rightarrow>
     (case map_of (MBOARD_PROP_TX_DSP b) dsp_name of
        None \<Rightarrow> (Inl (lookup_error dsp_name), u)
      | Some d \<Rightarrow>
          (Inr (), u\<lparr>DEVICE_PROP_MBOARD :=
             dict_assign (DEVICE_PROP_MBOARD u) mb_name
               (b\<lparr>MBOARD_PROP_TX_DSP :=
                    dict_assign (MBOARD_PROP_TX_DSP b) dsp_name (upd d)\<rparr>)\<rparr>))))"

lemma rx_dsp_set_shape: "rx_dsp_set ch upd u = (r, u') \<Longrightarrow> shape u' = shape u"
  by (auto simp: rx_dsp_set_def mboard_props_def shape_def
      intro!: dict_assign_present_map [where f = "\<lambda>b. (MBOARD_PROP_RX_SUBDEV_SPEC b, MBOARD_PROP_TX_SUBDEV_SPEC b)"]
      split: sum.splits option.splits prod.splits)

lemma tx_dsp_set_shape: "tx_dsp_set ch upd u = (r, u') \<Longrightarrow> shape u' = shape u"
  by (auto simp: tx_dsp_set_def mboard_props_def shape_def
      intro!: dict_assign_present_map [where f = "\<lambda>b. (MBOARD_PROP_RX_SUBDEV_SPEC b, MBOARD_PROP_TX_SUBDEV_SPEC b)"]
      split: sum.splits option.splits prod.splits)

text \<open>
  \<^verbatim>\<open>_rx_dboard\<close> and \<^verbatim>\<open>_rx_subdev\<close>, and their TX twins: links made of the board name,
  the daughterboard name and the subdevice name of the channel's spec entry.
\<close>

definition rx_dboard_obj :: "('cmd, 'clk) usrp \<Rightarrow> nat \<Rightarrow> error + string \<times> string" where
  "rx_dboard_obj u ch =
     (case rx_chan_to_mcp u ch of
        Inl e \<Rightarrow> Inl e
      | Inr mcp \<Rightarrow>
     (case get_rx_subdev_spec u (mboard mcp) of
        Inl e \<Rightarrow> Inl e
      | Inr spec \<Rightarrow>
          if chan mcp < length spec
          then (case mboard_obj u (mboard mcp) of
                  Inl e \<Rightarrow> Inl e
                | Inr mb_name \<Rightarrow> Inr (mb_name, db_name (spec ! chan mcp)))
          else Inl out_of_range))"

definition tx_dboard_obj :: "('cmd, 'clk) usrp \<Rightarrow> nat \<Rightarrow> error + string \<times> string" where
  "tx_dboard_obj u ch =
     (case tx_chan_to_mcp u ch of
        Inl e \<Rightarrow> Inl e
      | Inr mcp \<Rightarrow>
     (case get_tx_subdev_spec u (mboard mcp) of
        Inl e \<Rightarrow> Inl e
      | Inr spec \<Rightarrow>
          if chan mcp < length spec
          then (case mboard_obj u (mboard mcp) of
                  Inl e \<Rightarrow> Inl e
                | Inr mb_name \<Rightarrow> Inr (mb_name, db_name (spec ! chan mcp)))
          else Inl out_of_range))"

definition rx_dboard_props :: "('cmd, 'clk) usrp \<Rightarrow> string \<times> string \<Rightarrow> error + dboard_t" where
  "rx_dboard_props u link =
     (case mboard_props u (fst link) of
        Inl e \<Rightarrow> Inl e
      | Inr b \<Rightarrow>
          (case map_of (MBOARD_PROP_RX_DBOARD b) (snd link) of
             None \<Rightarrow> Inl (lookup_error (snd link))
           | Some d \<Rightarrow> Inr d))"

definition tx_dboard_props :: "('cmd, 'clk) usrp \<Rightarrow> string \<times> string \<Rightarrow> error + dboard_t" where
  "tx_dboard_props u link =
     (case mboard_props u (fst link) of
        Inl e \<Rightarrow> Inl e
      | Inr b \<Rightarrow>
          (case map_of (MBOARD_PROP_TX_DBOARD b) (snd link) of
             None \<Rightarrow> Inl (lookup_error (snd link))
           | Some d \<Rightarrow> Inr d))"

definition rx_dboard_get :: "('cmd, 'clk) usrp \<Rightarrow> nat \<Rightarrow> (dboard_t \<Rightarrow> 'a) \<Rightarrow> error + 'a" where
  "rx_dboard_get u ch prop =
     (case rx_dboard_obj u ch of
        Inl e \<Rightarrow> Inl e
      | Inr link \<Rightarrow>
          (case rx_dboard_props u link of Inl e \<Rightarrow> Inl e | Inr d \<Rightarrow> Inr (prop d)))"

definition tx_dboard_get :: "('cmd, 'clk) usrp \<Rightarrow> nat \<Rightarrow> (dboard_t \<Rightarrow> 'a) \<Rightarrow> error + 'a" where
  "tx_dboard_get u ch prop =
     (case tx_dboard_obj u ch of
        Inl e \<Rightarrow> Inl e
      | Inr link \<Rightarrow>
          (case tx_dboard_props u link of Inl e \<Rightarrow> Inl e | Inr d \<Rightarrow> Inr (prop d)))"

definition rx_subdev_get :: "('cmd, 'clk) usrp \<Rightarrow> nat \<Rightarrow> (subdev_t \<Rightarrow> 'a) \<Rightarrow> error + 'a" where
  "rx_subdev_get u ch prop =
     (case rx_chan_to_mcp u ch of
        Inl e \<Rightarrow> Inl e
      | Inr mcp \<Rightarrow>
     (case get_rx_subdev_spec u (mboard mcp) of
        Inl e \<Rightarrow> Inl e
      | Inr spec \<Rightarrow>
          if chan mcp < length spec
          then (case rx_dboard_obj u ch of
                  Inl e \<Rightarrow> Inl e
                | Inr link \<Rightarrow>
               (case rx_dboard_props u link of
                  Inl e \<Rightarrow> Inl e
                | Inr d \<Rightarrow>
               (case map_of (DBOARD_PROP_SUBDEV d) (sd_name (spec ! chan mcp)) of
                  None \<Rightarrow> Inl (lookup_error (sd_name (spec ! chan mcp)))
                | Some sd \<Rightarrow> Inr (prop sd))))
          else Inl out_of_range))"

definition tx_subdev_get :: "('cmd, 'clk) usrp \<Rightarrow> nat \<Rightarrow> (subdev_t \<Rightarrow> 'a) \<Rightarrow> error + 'a" where
  "tx_subdev_get u ch prop =
     (case tx_chan_to_mcp u ch of
        Inl e \<Rightarrow> Inl e
      | Inr mcp \<Rightarrow>
     (case get_tx_subdev_spec u (mboard mcp) of
        Inl e \<Rightarrow> Inl e
      | Inr spec \<Rightarrow>
          if chan mcp < length spec
          then (case tx_dboard_obj u ch of
                  Inl e \<Rightarrow> Inl e
                | Inr link \<Rightarrow>
               (case tx_dboard_props u link of
                  Inl e \<Rightarrow> Inl e
                | Inr d \<Rightarrow>
               (case map_of (DBOARD_PROP_SUBDEV d) (sd_name (spec ! chan mcp)) of
                  None \<Rightarrow> Inl (lookup_error (sd_name (spec ! chan mcp)))
                | Some sd \<Rightarrow> Inr (prop sd))))
          else Inl out_of_range))"

subsection \<open>Setters with a sentinel\<close>

text \<open>
  Every setter of a board property has the same two parts: the branch for one board,
  which is one write through \<^verbatim>\<open>_mboard(mboard)\<close> (\<open>mboard_set\<close>), and the loop
  \<^verbatim>\<open>for (m = 0; m < get_num_mboards(); m++) set(value, m)\<close>. The call in the body of the
  loop passes an index below the number of boards, which is not the sentinel, so it is
  the branch for one board; \<open>mboards_loop\<close> is that loop, for the write \<open>upd\<close>. An
  exception thrown by a call in the body leaves the loop with the state of that moment.
\<close>

function mboards_loop ::
  "(('cmd, 'clk) mboard_t \<Rightarrow> ('cmd, 'clk) mboard_t) \<Rightarrow> nat \<Rightarrow> ('cmd, 'clk) usrp
     \<Rightarrow> (unit, ('cmd, 'clk) usrp) result" where
  "mboards_loop upd m u =
     (if m < get_num_mboards u
      then (case mboard_set m upd u of
              (Inl e, u') \<Rightarrow> (Inl e, u')
            | (Inr _, u') \<Rightarrow> mboards_loop upd (Suc m) u')
      else (Inr (), u))"
  by pat_completeness auto
termination
  by (relation "measure (\<lambda>(upd, m, u). get_num_mboards u - m)")
     (auto dest!: mboard_set_num_mboards [OF sym])

declare mboards_loop.simps [simp del]

definition set_master_clock_rate ::
  "double \<Rightarrow> nat \<Rightarrow> ('cmd, 'clk) usrp \<Rightarrow> (unit, ('cmd, 'clk) usrp) result" where
  "set_master_clock_rate rate mb u =
     (if mb \<noteq> ALL_MBOARDS
      then mboard_set mb (\<lambda>b. b\<lparr>MBOARD_PROP_CLOCK_RATE := rate\<rparr>) u
      else mboards_loop (\<lambda>b. b\<lparr>MBOARD_PROP_CLOCK_RATE := rate\<rparr>) 0 u)"

definition set_time_now ::
  "time_spec_t \<Rightarrow> nat \<Rightarrow> ('cmd, 'clk) usrp \<Rightarrow> (unit, ('cmd, 'clk) usrp) result" where
  "set_time_now time_spec mb u =
     (if mb \<noteq> ALL_MBOARDS
      then mboard_set mb (\<lambda>b. b\<lparr>time_now_writes := time_now_writes b @ [time_spec]\<rparr>) u
      else mboards_loop (\<lambda>b. b\<lparr>time_now_writes := time_now_writes b @ [time_spec]\<rparr>) 0 u)"

definition set_clock_config ::
  "'clk \<Rightarrow> nat \<Rightarrow> ('cmd, 'clk) usrp \<Rightarrow> (unit, ('cmd, 'clk) usrp) result" where
  "set_clock_config clock_config mb u =
     (if mb \<noteq> ALL_MBOARDS
      then mboard_set mb (\<lambda>b. b\<lparr>MBOARD_PROP_CLOCK_CONFIG := clock_config\<rparr>) u
      else mboards_loop (\<lambda>b. b\<lparr>MBOARD_PROP_CLOCK_CONFIG := clock_config\<rparr>) 0 u)"

definition set_rx_subdev_spec ::
  "subdev_spec_t \<Rightarrow> nat \<Rightarrow> ('cmd, 'clk) usrp \<Rightarrow> (unit, ('cmd, 'clk) usrp) result" where
  "set_rx_subdev_spec spec mb u =
     (if mb \<noteq> ALL_MBOARDS
      then mboard_set mb (\<lambda>b. b\<lparr>MBOARD_PROP_RX_SUBDEV_SPEC := spec\<rparr>) u
      else mboards_loop (\<lambda>b. b\<lparr>MBOARD_PROP_RX_SUBDEV_SPEC := spec\<rparr>) 0 u)"

definition set_tx_subdev_spec ::
  "subdev_spec_t \<Rightarrow> nat \<Rightarrow> ('cmd, 'clk) usrp \<Rightarrow> (unit, ('cmd, 'clk) usrp) result" where
  "set_tx_subdev_spec spec mb u =
     (if mb \<noteq> ALL_MBOARDS
      then mboard_set mb (\<lambda>b. b\<lparr>MBOARD_PROP_TX_SUBDEV_SPEC := spec\<rparr>) u
      else mboards_loop (\<lambda>b. b\<lparr>MBOARD_PROP_TX_SUBDEV_SPEC := spec\<rparr>) 0 u)"

text \<open>\<^verbatim>\<open>set_time_next_pps\<close> has the loop only.\<close>

definition set_time_next_pps ::
  "time_spec_t \<Rightarrow> ('cmd, 'clk) usrp \<Rightarrow> (unit, ('cmd, 'clk) usrp) result" where
  "set_time_next_pps time_spec u =
     mboards_loop (\<lambda>b. b\<lparr>time_next_pps_writes := time_next_pps_writes b @ [time_spec]\<rparr>) 0 u"

text \<open>
  \<^verbatim>\<open>issue_stream_cmd\<close>: the branch for one channel and the loop over the RX channels,
  whose body is again the branch for one channel.
\<close>

definition issue_stream_cmd_chan ::
  "'cmd \<Rightarrow> nat \<Rightarrow> ('cmd, 'clk) usrp \<Rightarrow> (unit, ('cmd, 'clk) usrp) result" where
  "issue_stream_cmd_chan stream_cmd ch u =
     rx_dsp_set ch (\<lambda>d. d\<lparr>DSP_PROP_STREAM_CMD := DSP_PROP_STREAM_CMD d @ [stream_cmd]\<rparr>) u"

function issue_stream_cmd_loop ::
  "'cmd \<Rightarrow> nat \<Rightarrow> ('cmd, 'clk) usrp \<Rightarrow> (unit, ('cmd, 'clk) usrp) result" where
  "issue_stream_cmd_loop stream_cmd c u =
     (case get_rx_num_channels u of
        Inl e \<Rightarrow> (Inl e, u)
      | Inr n \<Rightarrow>
          if c < n
          then (case issue_stream_cmd_chan stream_cmd c u of
                  (Inl e, u') \<Rightarrow> (Inl e, u')
                | (Inr _, u') \<Rightarrow> issue_stream_cmd_loop stream_cmd (Suc c) u')
          else (Inr (), u))"
  by pat_completeness auto
termination
  by (relation "measure (\<lambda>(stream_cmd, c, u).
        case get_rx_num_channels u of Inl e \<Rightarrow> 0 | Inr n \<Rightarrow> n - c)")
     (auto simp: issue_stream_cmd_chan_def dest!: rx_dsp_set_shape [OF sym] get_rx_num_channels_shape)

declare issue_stream_cmd_loop.simps [simp del]

definition issue_stream_cmd ::
  "'cmd \<Rightarrow> nat \<Rightarrow> ('cmd, 'clk) usrp \<Rightarrow> (unit, ('cmd, 'clk) usrp) result" where
  "issue_stream_cmd stream_cmd ch u =
     (if ch \<noteq> ALL_CHANS then issue_stream_cmd_chan stream_cmd ch u
      else issue_stream_cmd_loop stream_cmd 0 u)"

subsection \<open>Binary64 arithmetic\<close>

text \<open>
  A \<^verbatim>\<open>double\<close> is an IEEE 754 binary64 number and its arithmetic rounds to nearest, ties
  to even, as on the platforms the library is built for. A decoded number is
  not-a-number, an infinity with its sign bit, or \<open>Finite m e\<close>, which stands for
  \<open>m * 2 ^ e\<close>. The sign of a zero is not kept: no operation below depends on it.
\<close>

datatype fp = NaN | Infinity bool | Finite int int

definition decode :: "double \<Rightarrow> fp" where
  "decode w =
     (let n = unat w;
          negative = (n div 2 ^ 63 = 1);
          biased = (n div 2 ^ 52) mod 2 ^ 11;
          fraction = int (n mod 2 ^ 52);
          sign = (if negative then - 1 else 1)
      in if biased = 2047 then (if fraction = 0 then Infinity negative else NaN)
         else if biased = 0 then Finite (sign * fraction) (- 1074)
         else Finite (sign * (2 ^ 52 + fraction)) (int biased - 1075))"

text \<open>The number of binary digits of a natural number.\<close>

function bit_length :: "nat \<Rightarrow> nat" where
  "bit_length n = (if n = 0 then 0 else Suc (bit_length (n div 2)))"
  by pat_completeness auto
termination
  by (relation "measure (\<lambda>n. n)") auto

declare bit_length.simps [simp del]

text \<open>
  Rounding \<open>m * 2 ^ e\<close> to binary64: the \<open>s\<close> low digits that do not fit into 53
  digits, or that lie below the smallest exponent, are dropped, and the rest is
  incremented when the dropped part is more than half a unit, or exactly half a unit
  with an odd rest. A result of \<open>2 ^ 1024\<close> or more is an infinity.
\<close>

definition fp_round :: "int \<Rightarrow> int \<Rightarrow> fp" where
  "fp_round m e =
     (let a = nat \<bar>m\<bar>;
          s = nat (max (int (bit_length a) - 53) (- 1074 - e));
          q = a div 2 ^ s;
          r = a mod 2 ^ s;
          q' = (if s = 0 then q
                else if 2 ^ s < 2 * r \<or> (2 * r = 2 ^ s \<and> odd q) then q + 1 else q)
      in if 1024 < int (bit_length q') + (e + int s) then Infinity (m < 0)
         else Finite ((if m < 0 then - 1 else 1) * int q') (e + int s))"

fun fp_sub :: "fp \<Rightarrow> fp \<Rightarrow> fp" where
  "fp_sub NaN y = NaN"
| "fp_sub x NaN = NaN"
| "fp_sub (Infinity s) (Infinity t) = (if s = t then NaN else Infinity s)"
| "fp_sub (Infinity s) (Finite m e) = Infinity s"
| "fp_sub (Finite m e) (Infinity t) = Infinity (\<not> t)"
| "fp_sub (Finite m1 e1) (Finite m2 e2) =
     (let e = min e1 e2
      in fp_round (m1 * 2 ^ nat (e1 - e) - m2 * 2 ^ nat (e2 - e)) e)"

fun fp_abs :: "fp \<Rightarrow> fp" where
  "fp_abs NaN = NaN"
| "fp_abs (Infinity s) = Infinity False"
| "fp_abs (Finite m e) = Finite \<bar>m\<bar> e"

fun fp_gt :: "fp \<Rightarrow> fp \<Rightarrow> bool" where
  "fp_gt NaN y = False"
| "fp_gt x NaN = False"
| "fp_gt (Infinity s) (Infinity t) = (\<not> s \<and> t)"
| "fp_gt (Infinity s) (Finite m e) = (\<not> s)"
| "fp_gt (Finite m e) (Infinity t) = t"
| "fp_gt (Finite m1 e1) (Finite m2 e2) =
     (let e = min e1 e2
      in m2 * 2 ^ nat (e2 - e) < m1 * 2 ^ nat (e1 - e))"

text \<open>
  The test of \<^verbatim>\<open>do_samp_rate_warning_message\<close>,
  \<^verbatim>\<open>std::abs(target_rate - actual_rate) > max_allowed_error\<close>, with
  \<^verbatim>\<open>max_allowed_error = 1.0\<close>. The functions below that take a test \<open>exceeds\<close> are the code when the test is this
  one.
\<close>

definition max_allowed_error :: double where
  "max_allowed_error = 0x3FF0000000000000"

definition samp_rate_deviates :: "double \<Rightarrow> double \<Rightarrow> bool" where
  "samp_rate_deviates target_rate actual_rate =
     fp_gt (fp_abs (fp_sub (decode target_rate) (decode actual_rate))) (decode max_allowed_error)"

text \<open>The rational number a finite binary64 number stands for.\<close>

definition finite_value :: "int \<Rightarrow> int \<Rightarrow> rat" where
  "finite_value m e = (if 0 \<le> e then of_int (m * 2 ^ nat e) else of_int m / 2 ^ nat (- e))"

subsection \<open>Sample rates\<close>

text \<open>
  \<^verbatim>\<open>do_samp_rate_warning_message\<close> prints a warning when
  \<^verbatim>\<open>std::abs(target_rate - actual_rate) > max_allowed_error\<close>. The test is the
  argument \<open>exceeds\<close>; in the code it is \<open>samp_rate_deviates\<close>.
\<close>

definition do_samp_rate_warning_message ::
  "(double \<Rightarrow> double \<Rightarrow> bool) \<Rightarrow> double \<Rightarrow> double \<Rightarrow> string \<Rightarrow> ('cmd, 'clk) usrp
     \<Rightarrow> ('cmd, 'clk) usrp" where
  "do_samp_rate_warning_message exceeds target_rate actual_rate xx u =
     (if exceeds target_rate actual_rate
      then u\<lparr>msgs := msgs u @ [warning_samp_rate xx target_rate actual_rate]\<rparr>
      else u)"

definition get_rx_rate :: "('cmd, 'clk) usrp \<Rightarrow> nat \<Rightarrow> error + double" where
  "get_rx_rate u ch = rx_dsp_get u ch DSP_PROP_HOST_RATE"

definition get_tx_rate :: "('cmd, 'clk) usrp \<Rightarrow> nat \<Rightarrow> error + double" where
  "get_tx_rate u ch = tx_dsp_get u ch DSP_PROP_HOST_RATE"

definition set_rx_rate_chan ::
  "(double \<Rightarrow> double \<Rightarrow> bool) \<Rightarrow> double \<Rightarrow> nat \<Rightarrow> ('cmd, 'clk) usrp
     \<Rightarrow> (unit, ('cmd, 'clk) usrp) result" where
  "set_rx_rate_chan exceeds rate ch u =
     (case rx_dsp_set ch (\<lambda>d. d\<lparr>DSP_PROP_HOST_RATE := host_rate_achieved d rate\<rparr>) u of
        (Inl e, u') \<Rightarrow> (Inl e, u')
      | (Inr _, u') \<Rightarrow>
          (case get_rx_rate u' ch of
             Inl e \<Rightarrow> (Inl e, u')
           | Inr actual \<Rightarrow> (Inr (), do_samp_rate_warning_message exceeds rate actual ''RX'' u')))"

definition set_tx_rate_chan ::
  "(double \<Rightarrow> double \<Rightarrow> bool) \<Rightarrow> double \<Rightarrow> nat \<Rightarrow> ('cmd, 'clk) usrp
     \<Rightarrow> (unit, ('cmd, 'clk) usrp) result" where
  "set_tx_rate_chan exceeds rate ch u =
     (case tx_dsp_set ch (\<lambda>d. d\<lparr>DSP_PROP_HOST_RATE := host_rate_achieved d rate\<rparr>) u of
        (Inl e, u') \<Rightarrow> (Inl e, u')
      | (Inr _, u') \<Rightarrow>
          (case get_tx_rate u' ch of
             Inl e \<Rightarrow> (Inl e, u')
           | Inr actual \<Rightarrow> (Inr (), do_samp_rate_warning_message exceeds rate actual ''TX'' u')))"

lemma set_rx_rate_chan_shape:
  "set_rx_rate_chan exceeds rate ch u = (r, u') \<Longrightarrow> shape u' = shape u"
  by (auto simp: set_rx_rate_chan_def do_samp_rate_warning_message_def
      split: prod.splits sum.splits if_splits dest!: rx_dsp_set_shape)
     (simp_all add: shape_def)

lemma set_tx_rate_chan_shape:
  "set_tx_rate_chan exceeds rate ch u = (r, u') \<Longrightarrow> shape u' = shape u"
  by (auto simp: set_tx_rate_chan_def do_samp_rate_warning_message_def
      split: prod.splits sum.splits if_splits dest!: tx_dsp_set_shape)
     (simp_all add: shape_def)

function set_rx_rate_loop ::
  "(double \<Rightarrow> double \<Rightarrow> bool) \<Rightarrow> double \<Rightarrow> nat \<Rightarrow> ('cmd, 'clk) usrp
     \<Rightarrow> (unit, ('cmd, 'clk) usrp) result" where
  "set_rx_rate_loop exceeds rate c u =
     (case get_rx_num_channels u of
        Inl e \<Rightarrow> (Inl e, u)
      | Inr n \<Rightarrow>
          if c < n
          then (case set_rx_rate_chan exceeds rate c u of
                  (Inl e, u') \<Rightarrow> (Inl e, u')
                | (Inr _, u') \<Rightarrow> set_rx_rate_loop exceeds rate (Suc c) u')
          else (Inr (), u))"
  by pat_completeness auto
termination
  by (relation "measure (\<lambda>(exceeds, rate, c, u).
        case get_rx_num_channels u of Inl e \<Rightarrow> 0 | Inr n \<Rightarrow> n - c)")
     (auto dest!: set_rx_rate_chan_shape [OF sym] get_rx_num_channels_shape)

declare set_rx_rate_loop.simps [simp del]

function set_tx_rate_loop ::
  "(double \<Rightarrow> double \<Rightarrow> bool) \<Rightarrow> double \<Rightarrow> nat \<Rightarrow> ('cmd, 'clk) usrp
     \<Rightarrow> (unit, ('cmd, 'clk) usrp) result" where
  "set_tx_rate_loop exceeds rate c u =
     (case get_tx_num_channels u of
        Inl e \<Rightarrow> (Inl e, u)
      | Inr n \<Rightarrow>
          if c < n
          then (case set_tx_rate_chan exceeds rate c u of
                  (Inl e, u') \<Rightarrow> (Inl e, u')
                | (Inr _, u') \<Rightarrow> set_tx_rate_loop exceeds rate (Suc c) u')
          else (Inr (), u))"
  by pat_completeness auto
termination
  by (relation "measure (\<lambda>(exceeds, rate, c, u).
        case get_tx_num_channels u of Inl e \<Rightarrow> 0 | Inr n \<Rightarrow> n - c)")
     (auto dest!: set_tx_rate_chan_shape [OF sym] get_tx_num_channels_shape)

declare set_tx_rate_loop.simps [simp del]

definition set_rx_rate ::
  "(double \<Rightarrow> double \<Rightarrow> bool) \<Rightarrow> double \<Rightarrow> nat \<Rightarrow> ('cmd, 'clk) usrp
     \<Rightarrow> (unit, ('cmd, 'clk) usrp) result" where
  "set_rx_rate exceeds rate ch u =
     (if ch \<noteq> ALL_CHANS then set_rx_rate_chan exceeds rate ch u
      else set_rx_rate_loop exceeds rate 0 u)"

definition set_tx_rate ::
  "(double \<Rightarrow> double \<Rightarrow> bool) \<Rightarrow> double \<Rightarrow> nat \<Rightarrow> ('cmd, 'clk) usrp
     \<Rightarrow> (unit, ('cmd, 'clk) usrp) result" where
  "set_tx_rate exceeds rate ch u =
     (if ch \<noteq> ALL_CHANS then set_tx_rate_chan exceeds rate ch u
      else set_tx_rate_loop exceeds rate 0 u)"

subsection \<open>Time\<close>

definition get_time_now ::
  "nat \<Rightarrow> ('cmd, 'clk) usrp \<Rightarrow> (time_spec_t, ('cmd, 'clk) usrp) result" where
  "get_time_now mb u =
     (case mboard_get u mb time_now_at of
        Inl e \<Rightarrow> (Inl e, u)
      | Inr register \<Rightarrow> (Inr (register (reads u)), u\<lparr>reads := Suc (reads u)\<rparr>))"

definition get_time_last_pps ::
  "nat \<Rightarrow> ('cmd, 'clk) usrp \<Rightarrow> (time_spec_t, ('cmd, 'clk) usrp) result" where
  "get_time_last_pps mb u =
     (case mboard_get u mb time_pps_at of
        Inl e \<Rightarrow> (Inl e, u)
      | Inr register \<Rightarrow> (Inr (register (reads u)), u\<lparr>reads := Suc (reads u)\<rparr>))"

lemma get_time_now_mboards:
  "get_time_now m u = (r, u') \<Longrightarrow>
     DEVICE_PROP_MBOARD u' = DEVICE_PROP_MBOARD u \<and> msgs u' = msgs u"
  by (auto simp: get_time_now_def split: sum.splits)

lemma get_time_last_pps_mboards:
  "get_time_last_pps m u = (r, u') \<Longrightarrow>
     DEVICE_PROP_MBOARD u' = DEVICE_PROP_MBOARD u \<and> msgs u' = msgs u"
  by (auto simp: get_time_last_pps_def split: sum.splits)

definition no_pps_message :: string where
  "no_pps_message =
     ''Board 0 may not be getting a PPS signal!'' @ [CHR 0x0A] @
     ''No PPS detected within the time interval.'' @ [CHR 0x0A] @
     ''See the application notes for your device.'' @ [CHR 0x0A]"

text \<open>
  The \<^verbatim>\<open>while(true)\<close> loop of \<^verbatim>\<open>set_time_unknown_pps\<close>. It may run forever: its
  result is an option, and \<open>None\<close> is the call that never returns.
\<close>

partial_function (option) wait_for_pps ::
  "time_spec_t \<Rightarrow> time_spec_t \<Rightarrow> ('cmd, 'clk) usrp
     \<Rightarrow> (unit, ('cmd, 'clk) usrp) result option" where
  "wait_for_pps time_start time_start_last_pps u =
     (case get_time_last_pps 0 u of
        (Inl e, u1) \<Rightarrow> Some (Inl e, u1)
      | (Inr last_pps, u1) \<Rightarrow>
          if last_pps \<noteq> time_start_last_pps then Some (Inr (), u1)
          else (case get_time_now 0 u1 of
                  (Inl e, u2) \<Rightarrow> Some (Inl e, u2)
                | (Inr now, u2) \<Rightarrow>
                    if now - time_start > 11 / 10
                    then Some (Inl (runtime_error no_pps_message), u2)
                    else wait_for_pps time_start time_start_last_pps u2))"

text \<open>
  The test both \<^verbatim>\<open>set_time_unknown_pps\<close> and \<^verbatim>\<open>get_time_synchronized\<close> make on the
  times read from board 0 and from board \<open>m\<close>.
\<close>

definition time_deviates :: "time_spec_t \<Rightarrow> time_spec_t \<Rightarrow> bool" where
  "time_deviates time_0 time_i = (time_i < time_0 \<or> time_i - time_0 > 1 / 100)"

function verify_times_loop ::
  "nat \<Rightarrow> ('cmd, 'clk) usrp \<Rightarrow> (unit, ('cmd, 'clk) usrp) result" where
  "verify_times_loop m u =
     (if m < get_num_mboards u
      then (case get_time_now 0 u of
              (Inl e, u1) \<Rightarrow> (Inl e, u1)
            | (Inr time_0, u1) \<Rightarrow>
          (case get_time_now m u1 of
              (Inl e, u2) \<Rightarrow> (Inl e, u2)
            | (Inr time_i, u2) \<Rightarrow>
                verify_times_loop (Suc m)
                  (if time_deviates time_0 time_i
                   then u2\<lparr>msgs := msgs u2 @ [warning_time_deviation m time_0 time_i]\<rparr>
                   else u2)))
      else (Inr (), u))"
  by pat_completeness auto
termination
  by (relation "measure (\<lambda>(m, u). get_num_mboards u - m)")
     (auto simp: get_num_mboards_def dest!: get_time_now_mboards [OF sym])

declare verify_times_loop.simps [simp del]

text \<open>
  \<^verbatim>\<open>set_time_unknown_pps\<close>. The sleep of one second between arming and verifying
  changes nothing in the state: what the registers show after it is part of
  \<open>time_now_at\<close>.
\<close>

definition set_time_unknown_pps ::
  "time_spec_t \<Rightarrow> ('cmd, 'clk) usrp \<Rightarrow> (unit, ('cmd, 'clk) usrp) result option" where
  "set_time_unknown_pps time_spec u =
     (let u0 = u\<lparr>msgs := msgs u @ [status ''    1) catch time transition at pps edge\<newline>'']\<rparr>
      in case get_time_now 0 u0 of
           (Inl e, u1) \<Rightarrow> Some (Inl e, u1)
         | (Inr time_start, u1) \<Rightarrow>
        (case get_time_last_pps 0 u1 of
           (Inl e, u2) \<Rightarrow> Some (Inl e, u2)
         | (Inr time_start_last_pps, u2) \<Rightarrow>
        (case wait_for_pps time_start time_start_last_pps u2 of
           None \<Rightarrow> None
         | Some (Inl e, u3) \<Rightarrow> Some (Inl e, u3)
         | Some (Inr _, u3) \<Rightarrow>
        (let u4 = u3\<lparr>msgs := msgs u3 @ [status ''    2) set times next pps (synchronously)\<newline>'']\<rparr>
         in case set_time_next_pps time_spec u4 of
              (Inl e, u5) \<Rightarrow> Some (Inl e, u5)
            | (Inr _, u5) \<Rightarrow> Some (verify_times_loop 1 u5)))))"

function get_time_synchronized_loop ::
  "nat \<Rightarrow> ('cmd, 'clk) usrp \<Rightarrow> (bool, ('cmd, 'clk) usrp) result" where
  "get_time_synchronized_loop m u =
     (if m < get_num_mboards u
      then (case get_time_now 0 u of
              (Inl e, u1) \<Rightarrow> (Inl e, u1)
            | (Inr time_0, u1) \<Rightarrow>
          (case get_time_now m u1 of
              (Inl e, u2) \<Rightarrow> (Inl e, u2)
            | (Inr time_i, u2) \<Rightarrow>
                if time_deviates time_0 time_i then (Inr False, u2)
                else get_time_synchronized_loop (Suc m) u2))
      else (Inr True, u))"
  by pat_completeness auto
termination
  by (relation "measure (\<lambda>(m, u). get_num_mboards u - m)")
     (auto simp: get_num_mboards_def dest!: get_time_now_mboards [OF sym])

declare get_time_synchronized_loop.simps [simp del]

definition get_time_synchronized ::
  "('cmd, 'clk) usrp \<Rightarrow> (bool, ('cmd, 'clk) usrp) result" where
  "get_time_synchronized u = get_time_synchronized_loop 1 u"

subsection \<open>The description of the device\<close>

text \<open>
  The text of one channel. The three reads are operands of one \<^verbatim>\<open>boost::format\<close>
  expression, and the language does not fix the order in which such operands are
  evaluated; here they are read in the order in which they are written. The order
  decides only which exception is thrown when more than one of the reads throws.
\<close>

definition rx_channel_text :: "('cmd, 'clk) usrp \<Rightarrow> nat \<Rightarrow> error + string" where
  "rx_channel_text u ch =
     (case rx_dsp_get u ch DSP_PROP_NAME of
        Inl e \<Rightarrow> Inl e
      | Inr dsp \<Rightarrow>
     (case rx_dboard_get u ch DBOARD_PROP_NAME of
        Inl e \<Rightarrow> Inl e
      | Inr dboard \<Rightarrow>
     (case rx_subdev_get u ch SUBDEV_PROP_NAME of
        Inl e \<Rightarrow> Inl e
      | Inr subdev \<Rightarrow>
          Inr (''  RX Channel: '' @ show_dec ch @ [CHR 0x0A] @
               ''    RX DSP: '' @ dsp @ [CHR 0x0A] @
               ''    RX Dboard: '' @ dboard @ [CHR 0x0A] @
               ''    RX Subdev: '' @ subdev @ [CHR 0x0A]))))"

definition tx_channel_text :: "('cmd, 'clk) usrp \<Rightarrow> nat \<Rightarrow> error + string" where
  "tx_channel_text u ch =
     (case tx_dsp_get u ch DSP_PROP_NAME of
        Inl e \<Rightarrow> Inl e
      | Inr dsp \<Rightarrow>
     (case tx_dboard_get u ch DBOARD_PROP_NAME of
        Inl e \<Rightarrow> Inl e
      | Inr dboard \<Rightarrow>
     (case tx_subdev_get u ch SUBDEV_PROP_NAME of
        Inl e \<Rightarrow> Inl e
      | Inr subdev \<Rightarrow>
          Inr (''  TX Channel: '' @ show_dec ch @ [CHR 0x0A] @
               ''    TX DSP: '' @ dsp @ [CHR 0x0A] @
               ''    TX Dboard: '' @ dboard @ [CHR 0x0A] @
               ''    TX Subdev: '' @ subdev @ [CHR 0x0A]))))"

text \<open>The three loops of \<^verbatim>\<open>get_pp_string\<close>, each appending to \<^verbatim>\<open>buff\<close>.\<close>

function pp_mboards :: "('cmd, 'clk) usrp \<Rightarrow> nat \<Rightarrow> string \<Rightarrow> error + string" where
  "pp_mboards u m buff =
     (if m < get_num_mboards u
      then (case get_mboard_name u m of
              Inl e \<Rightarrow> Inl e
            | Inr name \<Rightarrow>
                pp_mboards u (m + 1)
                  (buff @ ''  Mboard '' @ show_dec m @ '': '' @ name @ [CHR 0x0A]))
      else Inr buff)"
  by pat_completeness auto
termination
  by (relation "measure (\<lambda>(u, m, buff). get_num_mboards u - m)") auto

declare pp_mboards.simps [simp del]

function pp_rx_channels ::
  "('cmd, 'clk) usrp \<Rightarrow> nat \<Rightarrow> nat \<Rightarrow> string \<Rightarrow> error + string" where
  "pp_rx_channels u m ch buff =
     (if m < get_num_mboards u
      then (case get_rx_subdev_spec u m of
              Inl e \<Rightarrow> Inl e
            | Inr spec \<Rightarrow>
                if ch < (m + 1) * length spec
                then (case rx_channel_text u ch of
                        Inl e \<Rightarrow> Inl e
                      | Inr text \<Rightarrow> pp_rx_channels u m (ch + 1) (buff @ text))
                else pp_rx_channels u (m + 1) ch buff)
      else Inr buff)"
  by pat_completeness auto
termination
  by (relation "measures
        [\<lambda>(u, m, ch, buff). get_num_mboards u - m,
         \<lambda>(u, m, ch, buff).
            (case get_rx_subdev_spec u m of Inl e \<Rightarrow> 0 | Inr spec \<Rightarrow> (m + 1) * length spec) - ch]")
     auto

declare pp_rx_channels.simps [simp del]

function pp_tx_channels ::
  "('cmd, 'clk) usrp \<Rightarrow> nat \<Rightarrow> nat \<Rightarrow> string \<Rightarrow> error + string" where
  "pp_tx_channels u m ch buff =
     (if m < get_num_mboards u
      then (case get_tx_subdev_spec u m of
              Inl e \<Rightarrow> Inl e
            | Inr spec \<Rightarrow>
                if ch < (m + 1) * length spec
                then (case tx_channel_text u ch of
                        Inl e \<Rightarrow> Inl e
                      | Inr text \<Rightarrow> pp_tx_channels u m (ch + 1) (buff @ text))
                else pp_tx_channels u (m + 1) ch buff)
      else Inr buff)"
  by pat_completeness auto
termination
  by (relation "measures
        [\<lambda>(u, m, ch, buff). get_num_mboards u - m,
         \<lambda>(u, m, ch, buff).
            (case get_tx_subdev_spec u m of Inl e \<Rightarrow> 0 | Inr spec \<Rightarrow> (m + 1) * length spec) - ch]")
     auto

declare pp_tx_channels.simps [simp del]

definition get_pp_string :: "('cmd, 'clk) usrp \<Rightarrow> error + string" where
  "get_pp_string u =
     (let buff = (if get_num_mboards u > 1 then ''Multi'' else ''Single'') @ '' USRP:''
                   @ [CHR 0x0A] @ ''  Device: '' @ DEVICE_PROP_NAME u @ [CHR 0x0A]
      in case pp_mboards u 0 buff of
           Inl e \<Rightarrow> Inl e
         | Inr buff1 \<Rightarrow>
             (case pp_rx_channels u 0 0 buff1 of
                Inl e \<Rightarrow> Inl e
              | Inr buff2 \<Rightarrow> pp_tx_channels u 0 0 buff2))"

subsection \<open>Sequences of calls\<close>

text \<open>
  Calling \<open>f\<close> for each index of a list in turn, from a state: the first call that throws
  ends the sequence with its exception and its state, and the calls for the indices
  after it are not made.
\<close>

fun each_index ::
  "(nat \<Rightarrow> 's \<Rightarrow> (unit, 's) result) \<Rightarrow> nat list \<Rightarrow> 's \<Rightarrow> (unit, 's) result" where
  "each_index f [] s = (Inr (), s)"
| "each_index f (i # is) s =
     (case f i s of (Inl e, s') \<Rightarrow> (Inl e, s') | (Inr _, s') \<Rightarrow> each_index f is s')"

text \<open>
  Appending the text \<open>f\<close> gives for each index of a list in turn; the first index for
  which \<open>f\<close> throws ends the sequence with its exception.
\<close>

fun append_texts :: "(nat \<Rightarrow> error + string) \<Rightarrow> nat list \<Rightarrow> string \<Rightarrow> error + string" where
  "append_texts f [] buff = Inr buff"
| "append_texts f (c # cs) buff =
     (case f c of Inl e \<Rightarrow> Inl e | Inr text \<Rightarrow> append_texts f cs (buff @ text))"

section \<open>Properties of the registry\<close>

text \<open>Once the latch is set, seeding is over: both functions reduce to their last lines.\<close>

lemma register_internal_dboards_latched: "called r \<Longrightarrow> register_internal_dboards r = r"
  by (subst register_internal_dboards.simps) simp

lemma register_subdevs_latched:
  "called r \<Longrightarrow> register_subdevs i c n r =
     r\<lparr>id_to_ctor_map := dict_assign (id_to_ctor_map r) i c,
       ctor_to_names_map := dict_assign (ctor_to_names_map r) c n\<rparr>"
  by (subst register_subdevs.simps) (simp add: register_internal_dboards_latched)

lemma register_internal_dboards_unlatched:
  "\<not> called r \<Longrightarrow> register_internal_dboards r =
     r\<lparr>called := True,
       id_to_ctor_map :=
         dict_assign (dict_assign (dict_assign (dict_assign (id_to_ctor_map r)
           ID_NONE basic_tx_make) ID_NONE basic_rx_make)
           ID_BASIC_TX basic_tx_make) ID_BASIC_RX basic_rx_make,
       ctor_to_names_map :=
         dict_assign (dict_assign (dict_assign (dict_assign (ctor_to_names_map r)
           basic_tx_make ['''']) basic_rx_make [''ab''])
           basic_tx_make ['''']) basic_rx_make [''a'', ''b'', ''ab'']\<rparr>"
  by (subst register_internal_dboards.simps) (simp add: register_subdevs_latched)

lemma called_register_internal_dboards: "called (register_internal_dboards r)"
  by (cases "called r")
     (simp_all add: register_internal_dboards_latched register_internal_dboards_unlatched)

lemma register_subdevs_unfold:
  "register_subdevs i c n r =
     (register_internal_dboards r)\<lparr>
        id_to_ctor_map := dict_assign (id_to_ctor_map (register_internal_dboards r)) i c,
        ctor_to_names_map := dict_assign (ctor_to_names_map (register_internal_dboards r)) c n\<rparr>"
  by (subst register_subdevs.simps) (simp add: Let_def)

lemma called_register_subdevs: "called (register_subdevs i c n r)"
  by (simp add: register_subdevs_unfold called_register_internal_dboards)

lemma keys_register_internal_dboards:
  "set (map fst (id_to_ctor_map r))
     \<subseteq> set (map fst (id_to_ctor_map (register_internal_dboards r)))"
  by (cases "called r")
     (auto simp: register_internal_dboards_latched register_internal_dboards_unlatched
        keys_dict_assign)

lemma distinct_register_internal_dboards:
  "distinct (map fst (id_to_ctor_map r)) \<Longrightarrow>
     distinct (map fst (id_to_ctor_map (register_internal_dboards r)))"
  by (cases "called r")
     (simp_all add: register_internal_dboards_latched register_internal_dboards_unlatched
        distinct_keys_dict_assign)

lemma seeded_fresh_world:
  "register_internal_dboards (statics (fresh_world :: ('k, 'v) world)) =
     \<lparr>called = True,
      id_to_ctor_map =
        [(ID_NONE, basic_rx_make), (ID_BASIC_TX, basic_tx_make), (ID_BASIC_RX, basic_rx_make)],
      ctor_to_names_map = [(basic_tx_make, ['''']), (basic_rx_make, [''a'', ''b'', ''ab''])]\<rparr>"
  by (simp add: fresh_world_def fresh_registry_def register_internal_dboards_unlatched
      ID_NONE_def ID_BASIC_TX_def ID_BASIC_RX_def)

section \<open>Properties of the manager\<close>

lemma make_xcvr_subdevs_heap:
  "snd (make_xcvr_subdevs ctor names m h) = h @ map (new_driver ctor) names"
  by (induction names arbitrary: m h) (simp_all add: call_ctor_def)

lemma make_rx_subdevs_heap:
  "snd (make_rx_subdevs ctor names m h) = h @ map (new_driver ctor) names"
  by (induction names arbitrary: m h) (simp_all add: call_ctor_def)

lemma make_tx_subdevs_heap:
  "snd (make_tx_subdevs ctor names m h) = h @ map (new_driver ctor) names"
  by (induction names arbitrary: m h) (simp_all add: call_ctor_def)

text \<open>
  The invariant of the transceiver loop: under \<open>name\<close> the two maps hold an RX-tagged
  and a TX-tagged proxy of one address, and the instance there was made for \<open>name\<close>.
\<close>

definition paired :: "dboard_ctor_t \<Rightarrow> nat \<Rightarrow> manager \<Rightarrow> ('k, 'v) heap \<Rightarrow> string \<Rightarrow> bool" where
  "paired ctor base m h name =
     (\<exists>a. map_of (rx_dboards m) name = Some \<lparr>proxy_subdev = a, proxy_type = RX_TYPE\<rparr>
        \<and> map_of (tx_dboards m) name = Some \<lparr>proxy_subdev = a, proxy_type = TX_TYPE\<rparr>
        \<and> base \<le> a \<and> a < length h \<and> h ! a = new_driver ctor name)"

lemma make_xcvr_subdevs_paired:
  "paired ctor base m h name \<or> name \<in> set names \<Longrightarrow> base \<le> length h \<Longrightarrow>
     paired ctor base (fst (make_xcvr_subdevs ctor names m h))
       (snd (make_xcvr_subdevs ctor names m h)) name"
proof (induction names arbitrary: m h)
  case Nil
  then show ?case by simp
next
  case (Cons n names)
  let ?h' = "h @ [new_driver ctor n]"
  let ?m' = "m\<lparr>rx_dboards := dict_assign (rx_dboards m) n
                  \<lparr>proxy_subdev = length h, proxy_type = RX_TYPE\<rparr>,
               tx_dboards := dict_assign (tx_dboards m) n
                  \<lparr>proxy_subdev = length h, proxy_type = TX_TYPE\<rparr>\<rparr>"
  have step: "make_xcvr_subdevs ctor (n # names) m h = make_xcvr_subdevs ctor names ?m' ?h'"
    by (simp add: call_ctor_def)
  have "paired ctor base ?m' ?h' name \<or> name \<in> set names"
  proof (cases "name = n")
    case True
    then have "paired ctor base ?m' ?h' name"
      using Cons.prems(2) by (simp add: paired_def map_of_dict_assign_same)
    then show ?thesis ..
  next
    case False
    with Cons.prems(1) have "paired ctor base m h name \<or> name \<in> set names" by simp
    then show ?thesis
    proof
      assume "paired ctor base m h name"
      then have "paired ctor base ?m' ?h' name"
        using False by (auto simp: paired_def map_of_dict_assign_other nth_append)
      then show ?thesis ..
    next
      assume "name \<in> set names"
      then show ?thesis ..
    qed
  qed
  moreover have "base \<le> length ?h'" using Cons.prems(2) by simp
  ultimately show ?case
    unfolding step by (rule Cons.IH)
qed

text \<open>
  The invariants of the two separate loops: every proxy of a map points into a range of
  addresses.
\<close>

definition rx_within :: "nat \<Rightarrow> nat \<Rightarrow> manager \<Rightarrow> bool" where
  "rx_within lo hi m =
     (\<forall>n p. map_of (rx_dboards m) n = Some p \<longrightarrow> lo \<le> proxy_subdev p \<and> proxy_subdev p < hi)"

definition tx_within :: "nat \<Rightarrow> nat \<Rightarrow> manager \<Rightarrow> bool" where
  "tx_within lo hi m =
     (\<forall>n p. map_of (tx_dboards m) n = Some p \<longrightarrow> lo \<le> proxy_subdev p \<and> proxy_subdev p < hi)"

lemma make_rx_subdevs_within:
  "rx_within lo (length h) m \<Longrightarrow> lo \<le> length h \<Longrightarrow>
     rx_within lo (length h + length names) (fst (make_rx_subdevs ctor names m h))
     \<and> tx_dboards (fst (make_rx_subdevs ctor names m h)) = tx_dboards m"
proof (induction names arbitrary: m h)
  case Nil
  then show ?case by simp
next
  case (Cons n names)
  let ?h' = "h @ [new_driver ctor n]"
  let ?m' = "m\<lparr>rx_dboards := dict_assign (rx_dboards m) n
                  \<lparr>proxy_subdev = length h, proxy_type = RX_TYPE\<rparr>\<rparr>"
  have step: "make_rx_subdevs ctor (n # names) m h = make_rx_subdevs ctor names ?m' ?h'"
    by (simp add: call_ctor_def)
  have "rx_within lo (length ?h') ?m'"
    unfolding rx_within_def
  proof (intro allI impI)
    fix k p assume *: "map_of (rx_dboards ?m') k = Some p"
    show "lo \<le> proxy_subdev p \<and> proxy_subdev p < length ?h'"
    proof (cases "k = n")
      case True
      with * show ?thesis using Cons.prems(2) by (auto simp: map_of_dict_assign_same)
    next
      case False
      with * have "map_of (rx_dboards m) k = Some p" by (simp add: map_of_dict_assign_other)
      with Cons.prems(1) show ?thesis by (fastforce simp: rx_within_def)
    qed
  qed
  moreover have "lo \<le> length ?h'" using Cons.prems(2) by simp
  ultimately have
    "rx_within lo (length ?h' + length names) (fst (make_rx_subdevs ctor names ?m' ?h'))
     \<and> tx_dboards (fst (make_rx_subdevs ctor names ?m' ?h')) = tx_dboards ?m'"
    by (rule Cons.IH)
  then show ?case unfolding step by simp
qed

lemma make_tx_subdevs_within:
  "tx_within lo (length h) m \<Longrightarrow> lo \<le> length h \<Longrightarrow>
     tx_within lo (length h + length names) (fst (make_tx_subdevs ctor names m h))
     \<and> rx_dboards (fst (make_tx_subdevs ctor names m h)) = rx_dboards m"
proof (induction names arbitrary: m h)
  case Nil
  then show ?case by simp
next
  case (Cons n names)
  let ?h' = "h @ [new_driver ctor n]"
  let ?m' = "m\<lparr>tx_dboards := dict_assign (tx_dboards m) n
                  \<lparr>proxy_subdev = length h, proxy_type = TX_TYPE\<rparr>\<rparr>"
  have step: "make_tx_subdevs ctor (n # names) m h = make_tx_subdevs ctor names ?m' ?h'"
    by (simp add: call_ctor_def)
  have "tx_within lo (length ?h') ?m'"
    unfolding tx_within_def
  proof (intro allI impI)
    fix k p assume *: "map_of (tx_dboards ?m') k = Some p"
    show "lo \<le> proxy_subdev p \<and> proxy_subdev p < length ?h'"
    proof (cases "k = n")
      case True
      with * show ?thesis using Cons.prems(2) by (auto simp: map_of_dict_assign_same)
    next
      case False
      with * have "map_of (tx_dboards m) k = Some p" by (simp add: map_of_dict_assign_other)
      with Cons.prems(1) show ?thesis by (fastforce simp: tx_within_def)
    qed
  qed
  moreover have "lo \<le> length ?h'" using Cons.prems(2) by simp
  ultimately have
    "tx_within lo (length ?h' + length names) (fst (make_tx_subdevs ctor names ?m' ?h'))
     \<and> rx_dboards (fst (make_tx_subdevs ctor names ?m' ?h')) = rx_dboards ?m'"
    by (rule Cons.IH)
  then show ?case unfolding step by simp
qed

lemma proxy_set_get_same_address:
  "proxy_subdev p = proxy_subdev q \<Longrightarrow> proxy_subdev p < length h \<Longrightarrow>
     proxy_get (proxy_set h p key val) q key = Some val"
  by (cases "proxy_type p"; cases "proxy_type q")
     (simp_all add: proxy_get_def proxy_set_def rx_get_def tx_get_def rx_set_def tx_set_def)

lemma proxy_set_get_other_address:
  "proxy_subdev p \<noteq> proxy_subdev q \<Longrightarrow>
     proxy_get (proxy_set h p key val) q key' = proxy_get h q key'"
  by (cases "proxy_type p"; cases "proxy_type q")
     (simp_all add: proxy_get_def proxy_set_def)

text \<open>The constructor in its two branches.\<close>

lemma manager_make_xcvr:
  assumes "get_dboard_ctor (register_internal_dboards (statics w)) rx_id ''rx'' = Inr ctor"
      and "get_dboard_ctor (register_internal_dboards (statics w)) tx_id ''tx'' = Inr ctor"
      and "map_of (ctor_to_names_map (register_internal_dboards (statics w))) ctor = Some names"
  shows "manager_make rx_id tx_id w =
     (Inr (fst (make_xcvr_subdevs ctor names \<lparr>rx_dboards = [], tx_dboards = []\<rparr> (instances w))),
      \<lparr>statics = register_internal_dboards (statics w),
       instances =
         snd (make_xcvr_subdevs ctor names \<lparr>rx_dboards = [], tx_dboards = []\<rparr> (instances w)),
       iface_calls = iface_calls w @ gpio_init\<rparr>)"
  using assms by (simp add: manager_make_def Let_def dict_index_def split_beta)

lemma manager_make_separate:
  assumes "get_dboard_ctor (register_internal_dboards (statics w)) rx_id ''rx'' = Inr rx_ctor"
      and "get_dboard_ctor (register_internal_dboards (statics w)) tx_id ''tx'' = Inr tx_ctor"
      and "rx_ctor \<noteq> tx_ctor"
  shows "manager_make rx_id tx_id w =
     (let r = register_internal_dboards (statics w);
          rxn = dict_index (ctor_to_names_map r) rx_ctor [];
          txn = dict_index (snd rxn) tx_ctor [];
          m1 = fst (make_rx_subdevs rx_ctor (fst rxn)
                 \<lparr>rx_dboards = [], tx_dboards = []\<rparr> (instances w));
          h1 = instances w @ map (new_driver rx_ctor) (fst rxn)
      in (Inr (fst (make_tx_subdevs tx_ctor (fst txn) m1 h1)),
          \<lparr>statics = r\<lparr>ctor_to_names_map := snd txn\<rparr>,
           instances = h1 @ map (new_driver tx_ctor) (fst txn),
           iface_calls = iface_calls w @ gpio_init\<rparr>))"
  using assms
  by (simp add: manager_make_def Let_def split_beta make_rx_subdevs_heap make_tx_subdevs_heap)

lemma count_in_distinct:
  "distinct xs \<Longrightarrow> x \<in> set xs \<Longrightarrow> length (filter (\<lambda>y. y = x) xs) = 1"
  by (induction xs) (auto simp: filter_empty_conv)

text \<open>
  Claim C3. When the RX and the TX identity code resolve to the same constructor
  \<open>ctor\<close>, whose registered subdevice names are \<open>names\<close>, the constructor of the manager
  succeeds; it constructs one driver instance for each entry of \<open>names\<close>, in order (so
  exactly one for a name when the names are distinct); and under every \<open>name\<close> of the
  list the RX map holds an RX-tagged proxy and the TX map a TX-tagged proxy of the same
  address \<open>a\<close>, the address of an instance this constructor made for \<open>name\<close>. A set
  through either proxy is returned by a get of that key through the other.
\<close>

theorem transceiver_shares_instance:
  assumes rx: "get_dboard_ctor (register_internal_dboards (statics w)) rx_id ''rx'' = Inr ctor"
      and tx: "get_dboard_ctor (register_internal_dboards (statics w)) tx_id ''tx'' = Inr ctor"
      and names: "map_of (ctor_to_names_map (register_internal_dboards (statics w))) ctor
                    = Some names"
      and name: "name \<in> set names"
  shows "\<exists>m w' a.
       manager_make rx_id tx_id w = (Inr m, w')
     \<and> get_rx_subdev m name = Inr \<lparr>proxy_subdev = a, proxy_type = RX_TYPE\<rparr>
     \<and> get_tx_subdev m name = Inr \<lparr>proxy_subdev = a, proxy_type = TX_TYPE\<rparr>
     \<and> instances w' = instances w @ map (new_driver ctor) names
     \<and> length (instances w) \<le> a \<and> a < length (instances w')
     \<and> instances w' ! a = new_driver ctor name
     \<and> (distinct names \<longrightarrow>
          length (filter (\<lambda>d. made_for d = name)
                    (drop (length (instances w)) (instances w'))) = 1)
     \<and> (\<forall>key val.
          proxy_get (proxy_set (instances w') \<lparr>proxy_subdev = a, proxy_type = RX_TYPE\<rparr> key val)
            \<lparr>proxy_subdev = a, proxy_type = TX_TYPE\<rparr> key = Some val
        \<and> proxy_get (proxy_set (instances w') \<lparr>proxy_subdev = a, proxy_type = TX_TYPE\<rparr> key val)
            \<lparr>proxy_subdev = a, proxy_type = RX_TYPE\<rparr> key = Some val)"
proof -
  let ?none = "\<lparr>rx_dboards = [], tx_dboards = []\<rparr>"
  let ?m = "fst (make_xcvr_subdevs ctor names ?none (instances w))"
  let ?h = "snd (make_xcvr_subdevs ctor names ?none (instances w)) :: ('a, 'b) heap"
  let ?w' = "\<lparr>statics = register_internal_dboards (statics w), instances = ?h,
              iface_calls = iface_calls w @ gpio_init\<rparr>"
  have made: "manager_make rx_id tx_id w = (Inr ?m, ?w')"
    by (rule manager_make_xcvr [OF rx tx names])
  have heap: "?h = instances w @ map (new_driver ctor) names"
    by (rule make_xcvr_subdevs_heap)
  have "paired ctor (length (instances w)) ?m ?h name"
    by (rule make_xcvr_subdevs_paired) (use name in simp_all)
  then obtain a where a:
    "map_of (rx_dboards ?m) name = Some \<lparr>proxy_subdev = a, proxy_type = RX_TYPE\<rparr>"
    "map_of (tx_dboards ?m) name = Some \<lparr>proxy_subdev = a, proxy_type = TX_TYPE\<rparr>"
    "length (instances w) \<le> a" "a < length ?h" "?h ! a = new_driver ctor name"
    unfolding paired_def by blast
  have once: "distinct names \<longrightarrow>
      length (filter (\<lambda>d. made_for d = name) (drop (length (instances w)) ?h)) = 1"
    using name by (simp add: heap filter_map comp_def new_driver_def count_in_distinct)
  have seen: "\<forall>key val.
          proxy_get (proxy_set ?h \<lparr>proxy_subdev = a, proxy_type = RX_TYPE\<rparr> key val)
            \<lparr>proxy_subdev = a, proxy_type = TX_TYPE\<rparr> key = Some val
        \<and> proxy_get (proxy_set ?h \<lparr>proxy_subdev = a, proxy_type = TX_TYPE\<rparr> key val)
            \<lparr>proxy_subdev = a, proxy_type = RX_TYPE\<rparr> key = Some val"
    using a(4) by (simp add: proxy_set_get_same_address)
  show ?thesis
    apply (rule exI [of _ ?m], rule exI [of _ ?w'], rule exI [of _ a])
    using made a once seen heap
    apply (simp add: get_rx_subdev_def get_tx_subdev_def)
    done
qed

theorem transceiver_shares_instance_witness:
  "get_dboard_ctor (register_internal_dboards (statics (fresh_world :: (nat, nat) world)))
      ID_NONE ''rx'' = Inr basic_rx_make
   \<and> get_dboard_ctor (register_internal_dboards (statics (fresh_world :: (nat, nat) world)))
      ID_BASIC_RX ''tx'' = Inr basic_rx_make
   \<and> map_of (ctor_to_names_map
        (register_internal_dboards (statics (fresh_world :: (nat, nat) world))))
      basic_rx_make = Some [''a'', ''b'', ''ab'']
   \<and> ''ab'' \<in> set [''a'', ''b'', ''ab'']
   \<and> distinct [''a'', ''b'', ''ab'']
   \<and> (\<exists>m w' a.
       manager_make ID_NONE ID_BASIC_RX (fresh_world :: (nat, nat) world) = (Inr m, w')
     \<and> get_rx_subdev m ''ab'' = Inr \<lparr>proxy_subdev = a, proxy_type = RX_TYPE\<rparr>
     \<and> get_tx_subdev m ''ab'' = Inr \<lparr>proxy_subdev = a, proxy_type = TX_TYPE\<rparr>
     \<and> length (instances w') = 3
     \<and> length (filter (\<lambda>d. made_for d = ''ab'') (instances w')) = 1
     \<and> proxy_get (proxy_set (instances w') \<lparr>proxy_subdev = a, proxy_type = RX_TYPE\<rparr> 5 6)
            \<lparr>proxy_subdev = a, proxy_type = TX_TYPE\<rparr> 5 = Some 6)"
proof -
  let ?w = "fresh_world :: (nat, nat) world"
  have h1: "get_dboard_ctor (register_internal_dboards (statics ?w)) ID_NONE ''rx''
              = Inr basic_rx_make"
    by (simp add: seeded_fresh_world get_dboard_ctor_def)
  have h2: "get_dboard_ctor (register_internal_dboards (statics ?w)) ID_BASIC_RX ''tx''
              = Inr basic_rx_make"
    by (simp add: seeded_fresh_world get_dboard_ctor_def
        ID_NONE_def ID_BASIC_TX_def ID_BASIC_RX_def)
  have h3: "map_of (ctor_to_names_map (register_internal_dboards (statics ?w))) basic_rx_make
              = Some [''a'', ''b'', ''ab'']"
    by (simp add: seeded_fresh_world)
  have h4: "''ab'' \<in> set [''a'', ''b'', ''ab'']" by simp
  have h5: "distinct [''a'', ''b'', ''ab'']" by simp
  from transceiver_shares_instance [OF h1 h2 h3 h4]
  obtain m w' a where r:
    "manager_make ID_NONE ID_BASIC_RX ?w = (Inr m, w')"
    "get_rx_subdev m ''ab'' = Inr \<lparr>proxy_subdev = a, proxy_type = RX_TYPE\<rparr>"
    "get_tx_subdev m ''ab'' = Inr \<lparr>proxy_subdev = a, proxy_type = TX_TYPE\<rparr>"
    "instances w' = instances ?w @ map (new_driver basic_rx_make) [''a'', ''b'', ''ab'']"
    "distinct [''a'', ''b'', ''ab''] \<longrightarrow>
       length (filter (\<lambda>d. made_for d = ''ab'')
                 (drop (length (instances ?w)) (instances w'))) = 1"
    "\<forall>key val.
          proxy_get (proxy_set (instances w') \<lparr>proxy_subdev = a, proxy_type = RX_TYPE\<rparr> key val)
            \<lparr>proxy_subdev = a, proxy_type = TX_TYPE\<rparr> key = Some val
        \<and> proxy_get (proxy_set (instances w') \<lparr>proxy_subdev = a, proxy_type = TX_TYPE\<rparr> key val)
            \<lparr>proxy_subdev = a, proxy_type = RX_TYPE\<rparr> key = Some val"
    by blast
  have len: "length (instances w') = 3"
    by (simp add: r(4) fresh_world_def)
  have one: "length (filter (\<lambda>d. made_for d = ''ab'') (instances w')) = 1"
    using r(5) h5 by (simp add: fresh_world_def)
  have seen: "proxy_get (proxy_set (instances w') \<lparr>proxy_subdev = a, proxy_type = RX_TYPE\<rparr> 5 6)
            \<lparr>proxy_subdev = a, proxy_type = TX_TYPE\<rparr> 5 = Some 6"
    using r(6) by blast
  show ?thesis
    using h1 h2 h3 h4 h5 r(1,2,3) len one seen by blast
qed

text \<open>
  Claim C4, as stated, fails: the constructor branches on the equality of the two
  constructors, not of the two identity codes. After seeding, the different codes
  \<open>ID_NONE\<close> and \<open>ID_BASIC_RX\<close> both resolve to \<open>basic_rx_make\<close>; the manager built from
  them files, under the name \<open>ab\<close>, an RX proxy and a TX proxy of the same instance
  (address 2), and a value written through the RX proxy is read through the TX proxy.
\<close>

theorem different_ids_share_instance:
  "ID_NONE \<noteq> ID_BASIC_RX
   \<and> fst (manager_make ID_NONE ID_BASIC_RX (fresh_world :: (nat, nat) world)) =
       Inr \<lparr>rx_dboards = [(''a'', \<lparr>proxy_subdev = 0, proxy_type = RX_TYPE\<rparr>),
                           (''b'', \<lparr>proxy_subdev = 1, proxy_type = RX_TYPE\<rparr>),
                           (''ab'', \<lparr>proxy_subdev = 2, proxy_type = RX_TYPE\<rparr>)],
            tx_dboards = [(''a'', \<lparr>proxy_subdev = 0, proxy_type = TX_TYPE\<rparr>),
                           (''b'', \<lparr>proxy_subdev = 1, proxy_type = TX_TYPE\<rparr>),
                           (''ab'', \<lparr>proxy_subdev = 2, proxy_type = TX_TYPE\<rparr>)]\<rparr>
   \<and> proxy_get
        (instances (snd (manager_make ID_NONE ID_BASIC_RX (fresh_world :: (nat, nat) world))))
        \<lparr>proxy_subdev = 2, proxy_type = TX_TYPE\<rparr> 5 = None
   \<and> proxy_get
        (proxy_set
           (instances (snd (manager_make ID_NONE ID_BASIC_RX (fresh_world :: (nat, nat) world))))
           \<lparr>proxy_subdev = 2, proxy_type = RX_TYPE\<rparr> 5 6)
        \<lparr>proxy_subdev = 2, proxy_type = TX_TYPE\<rparr> 5 = Some 6"
proof -
  let ?w = "fresh_world :: (nat, nat) world"
  have h1: "get_dboard_ctor (register_internal_dboards (statics ?w)) ID_NONE ''rx''
              = Inr basic_rx_make"
    by (simp add: seeded_fresh_world get_dboard_ctor_def)
  have h2: "get_dboard_ctor (register_internal_dboards (statics ?w)) ID_BASIC_RX ''tx''
              = Inr basic_rx_make"
    by (simp add: seeded_fresh_world get_dboard_ctor_def
        ID_NONE_def ID_BASIC_TX_def ID_BASIC_RX_def)
  have h3: "map_of (ctor_to_names_map (register_internal_dboards (statics ?w))) basic_rx_make
              = Some [''a'', ''b'', ''ab'']"
    by (simp add: seeded_fresh_world)
  have ids: "ID_NONE \<noteq> ID_BASIC_RX"
    by (simp add: ID_NONE_def ID_BASIC_RX_def)
  have iw: "instances ?w = []"
    by (simp add: fresh_world_def)
  show ?thesis
    using ids
    by (simp add: manager_make_xcvr [OF h1 h2 h3] iw call_ctor_def new_driver_def
        proxy_get_def proxy_set_def rx_get_def tx_get_def rx_set_def tx_set_def)
qed

text \<open>
  Claim C4, amended. When the RX and the TX identity code resolve to different
  constructors, the constructor of the manager succeeds, and whenever a name is filed
  in both maps its RX proxy and its TX proxy hold different addresses: a set through the
  RX proxy changes nothing that a get through the TX proxy returns.
\<close>

theorem separate_dboards_independent:
  assumes rx: "get_dboard_ctor (register_internal_dboards (statics w)) rx_id ''rx''
                 = Inr rx_ctor"
      and tx: "get_dboard_ctor (register_internal_dboards (statics w)) tx_id ''tx''
                 = Inr tx_ctor"
      and diff: "rx_ctor \<noteq> tx_ctor"
  shows "\<exists>m w'.
       manager_make rx_id tx_id w = (Inr m, w')
     \<and> (\<forall>name prx ptx key val key'.
           get_rx_subdev m name = Inr prx \<longrightarrow> get_tx_subdev m name = Inr ptx \<longrightarrow>
             proxy_subdev prx \<noteq> proxy_subdev ptx
           \<and> proxy_get (proxy_set (instances w') prx key val) ptx key'
               = proxy_get (instances w') ptx key')"
proof -
  let ?none = "\<lparr>rx_dboards = [], tx_dboards = []\<rparr>"
  define r where "r = register_internal_dboards (statics w)"
  define rx_names where "rx_names = fst (dict_index (ctor_to_names_map r) rx_ctor [])"
  define tx_names where
    "tx_names = fst (dict_index (snd (dict_index (ctor_to_names_map r) rx_ctor [])) tx_ctor [])"
  define m1 where "m1 = fst (make_rx_subdevs rx_ctor rx_names ?none (instances w))"
  have m: "fst (manager_make rx_id tx_id w) =
      Inr (fst (make_tx_subdevs tx_ctor tx_names m1
                  (instances w @ map (new_driver rx_ctor) rx_names)))"
    by (simp add: manager_make_separate [OF rx tx diff] Let_def r_def rx_names_def
        tx_names_def m1_def)
  let ?h1 = "instances w @ map (new_driver rx_ctor) rx_names"
  let ?m2 = "fst (make_tx_subdevs tx_ctor tx_names m1 ?h1)"
  let ?lo = "length (instances w)"
  let ?mid = "length (instances w) + length rx_names"
  have "rx_within ?lo ?lo ?none" by (simp add: rx_within_def)
  then have rx1: "rx_within ?lo ?mid m1" and tx1: "tx_dboards m1 = []"
    using make_rx_subdevs_within [of ?lo "instances w" ?none rx_names rx_ctor]
    by (simp_all add: m1_def)
  have "tx_within ?mid (length ?h1) m1" by (simp add: tx_within_def tx1)
  then have tx2: "tx_within ?mid (length ?h1 + length tx_names) ?m2"
    and rx2: "rx_dboards ?m2 = rx_dboards m1"
    using make_tx_subdevs_within [of ?mid ?h1 m1 tx_names tx_ctor] by simp_all
  have apart: "proxy_subdev prx \<noteq> proxy_subdev ptx"
    if "get_rx_subdev ?m2 name = Inr prx" "get_tx_subdev ?m2 name = Inr ptx" for name prx ptx
  proof -
    from that(1) have "map_of (rx_dboards m1) name = Some prx"
      by (simp add: get_rx_subdev_def rx2 split: option.splits)
    with rx1 have "proxy_subdev prx < ?mid" by (simp add: rx_within_def)
    moreover from that(2) have "map_of (tx_dboards ?m2) name = Some ptx"
      by (simp add: get_tx_subdev_def split: option.splits)
    with tx2 have "?mid \<le> proxy_subdev ptx" by (simp add: tx_within_def)
    ultimately show ?thesis by simp
  qed
  show ?thesis
    apply (rule exI [of _ ?m2], rule exI [of _ "snd (manager_make rx_id tx_id w)"])
    using m apart
    apply (auto simp: prod_eq_iff proxy_set_get_other_address)
    done
qed

text \<open>
  A world in which two external drivers are registered, both with the subdevice name
  \<open>x\<close>: the manager built from their codes files \<open>x\<close> in both maps, over two instances.
\<close>

definition two_drivers_world :: "(nat, nat) world" where
  "two_drivers_world =
     \<lparr>statics = register_subdevs 8 (extern_make 2) [''x'']
                 (register_subdevs 7 (extern_make 1) [''x''] fresh_registry),
      instances = [], iface_calls = []\<rparr>"

lemma statics_two_drivers_world:
  "register_internal_dboards (statics two_drivers_world) =
     \<lparr>called = True,
      id_to_ctor_map =
        [(ID_NONE, basic_rx_make), (ID_BASIC_TX, basic_tx_make), (ID_BASIC_RX, basic_rx_make),
         (7, extern_make 1), (8, extern_make 2)],
      ctor_to_names_map =
        [(basic_tx_make, ['''']), (basic_rx_make, [''a'', ''b'', ''ab'']),
         (extern_make 1, [''x'']), (extern_make 2, [''x''])]\<rparr>"
  by (simp add: two_drivers_world_def fresh_registry_def register_subdevs_unfold
      register_internal_dboards_unlatched register_internal_dboards_latched
      ID_NONE_def ID_BASIC_TX_def ID_BASIC_RX_def)

theorem separate_dboards_independent_witness:
  "get_dboard_ctor (register_internal_dboards (statics two_drivers_world)) 7 ''rx''
      = Inr (extern_make 1)
   \<and> get_dboard_ctor (register_internal_dboards (statics two_drivers_world)) 8 ''tx''
      = Inr (extern_make 2)
   \<and> extern_make 1 \<noteq> extern_make 2
   \<and> (\<exists>m w'.
       manager_make 7 8 two_drivers_world = (Inr m, w')
     \<and> get_rx_subdev m ''x'' = Inr \<lparr>proxy_subdev = 0, proxy_type = RX_TYPE\<rparr>
     \<and> get_tx_subdev m ''x'' = Inr \<lparr>proxy_subdev = 1, proxy_type = TX_TYPE\<rparr>
     \<and> proxy_get (proxy_set (instances w') \<lparr>proxy_subdev = 0, proxy_type = RX_TYPE\<rparr> 5 6)
          \<lparr>proxy_subdev = 1, proxy_type = TX_TYPE\<rparr> 5
        = proxy_get (instances w') \<lparr>proxy_subdev = 1, proxy_type = TX_TYPE\<rparr> 5)"
proof -
  let ?w = "two_drivers_world"
  have h1: "get_dboard_ctor (register_internal_dboards (statics ?w)) 7 ''rx''
              = Inr (extern_make 1)"
    by (simp add: statics_two_drivers_world get_dboard_ctor_def
        ID_NONE_def ID_BASIC_TX_def ID_BASIC_RX_def)
  have h2: "get_dboard_ctor (register_internal_dboards (statics ?w)) 8 ''tx''
              = Inr (extern_make 2)"
    by (simp add: statics_two_drivers_world get_dboard_ctor_def
        ID_NONE_def ID_BASIC_TX_def ID_BASIC_RX_def)
  have h3: "extern_make 1 \<noteq> extern_make 2" by simp
  have iw: "instances ?w = []"
    by (simp add: two_drivers_world_def)
  from separate_dboards_independent [OF h1 h2 h3]
  obtain m w' where r: "manager_make 7 8 ?w = (Inr m, w')"
    and ind: "\<And>name prx ptx key val key'.
           get_rx_subdev m name = Inr prx \<Longrightarrow> get_tx_subdev m name = Inr ptx \<Longrightarrow>
           proxy_get (proxy_set (instances w') prx key val) ptx key'
               = proxy_get (instances w') ptx key'"
    by blast
  have ev: "fst (manager_make 7 8 ?w) =
      Inr \<lparr>rx_dboards = [(''x'', \<lparr>proxy_subdev = 0, proxy_type = RX_TYPE\<rparr>)],
           tx_dboards = [(''x'', \<lparr>proxy_subdev = 1, proxy_type = TX_TYPE\<rparr>)]\<rparr>"
    by (simp add: manager_make_separate [OF h1 h2 h3] Let_def statics_two_drivers_world
        dict_index_def call_ctor_def iw)
  have rxp: "get_rx_subdev m ''x'' = Inr \<lparr>proxy_subdev = 0, proxy_type = RX_TYPE\<rparr>"
    and txp: "get_tx_subdev m ''x'' = Inr \<lparr>proxy_subdev = 1, proxy_type = TX_TYPE\<rparr>"
    using ev r by (simp_all add: get_rx_subdev_def get_tx_subdev_def)
  show ?thesis
    using h1 h2 h3 r rxp txp ind [OF rxp txp] by blast
qed

text \<open>
  Claim C9, evaluated on the code. Seeding a fresh registry leaves \<open>ID_NONE\<close> resolving
  to \<open>basic_rx_make\<close>, and the names filed for \<open>basic_rx_make\<close> are \<open>a\<close>, \<open>b\<close>, \<open>ab\<close>,
  not the single name \<open>ab\<close>: the names are keyed by constructor, and the registration of
  \<open>ID_BASIC_RX\<close> overwrites the list that the registration of \<open>ID_NONE\<close> stored. A manager
  built with both codes \<open>ID_NONE\<close> takes the transceiver branch and files three RX and
  three TX proxies over three instances made by \<open>basic_rx_make\<close>.
\<close>

theorem seeded_ID_NONE_entry:
  "get_dboard_ctor (register_internal_dboards fresh_registry) ID_NONE xx = Inr basic_rx_make
   \<and> dict_index (ctor_to_names_map (register_internal_dboards fresh_registry)) basic_rx_make []
       = ([''a'', ''b'', ''ab''], ctor_to_names_map (register_internal_dboards fresh_registry))
   \<and> id_to_ctor_map (register_internal_dboards fresh_registry)
       = [(ID_NONE, basic_rx_make), (ID_BASIC_TX, basic_tx_make), (ID_BASIC_RX, basic_rx_make)]
   \<and> ctor_to_names_map (register_internal_dboards fresh_registry)
       = [(basic_tx_make, ['''']), (basic_rx_make, [''a'', ''b'', ''ab''])]
   \<and> fst (manager_make ID_NONE ID_NONE (fresh_world :: (nat, nat) world)) =
       Inr \<lparr>rx_dboards = [(''a'', \<lparr>proxy_subdev = 0, proxy_type = RX_TYPE\<rparr>),
                           (''b'', \<lparr>proxy_subdev = 1, proxy_type = RX_TYPE\<rparr>),
                           (''ab'', \<lparr>proxy_subdev = 2, proxy_type = RX_TYPE\<rparr>)],
            tx_dboards = [(''a'', \<lparr>proxy_subdev = 0, proxy_type = TX_TYPE\<rparr>),
                           (''b'', \<lparr>proxy_subdev = 1, proxy_type = TX_TYPE\<rparr>),
                           (''ab'', \<lparr>proxy_subdev = 2, proxy_type = TX_TYPE\<rparr>)]\<rparr>
   \<and> map made_by (instances (snd (manager_make ID_NONE ID_NONE (fresh_world :: (nat, nat) world))))
       = [basic_rx_make, basic_rx_make, basic_rx_make]"
proof -
  let ?w = "fresh_world :: (nat, nat) world"
  have h1: "get_dboard_ctor (register_internal_dboards (statics ?w)) ID_NONE ''rx''
              = Inr basic_rx_make"
    and h2: "get_dboard_ctor (register_internal_dboards (statics ?w)) ID_NONE ''tx''
              = Inr basic_rx_make"
    by (simp_all add: seeded_fresh_world get_dboard_ctor_def)
  have h3: "map_of (ctor_to_names_map (register_internal_dboards (statics ?w))) basic_rx_make
              = Some [''a'', ''b'', ''ab'']"
    by (simp add: seeded_fresh_world)
  have iw: "instances ?w = []"
    by (simp add: fresh_world_def)
  have reg: "get_dboard_ctor (register_internal_dboards fresh_registry) ID_NONE xx
               = Inr basic_rx_make
   \<and> dict_index (ctor_to_names_map (register_internal_dboards fresh_registry)) basic_rx_make []
       = ([''a'', ''b'', ''ab''], ctor_to_names_map (register_internal_dboards fresh_registry))
   \<and> id_to_ctor_map (register_internal_dboards fresh_registry)
       = [(ID_NONE, basic_rx_make), (ID_BASIC_TX, basic_tx_make), (ID_BASIC_RX, basic_rx_make)]
   \<and> ctor_to_names_map (register_internal_dboards fresh_registry)
       = [(basic_tx_make, ['''']), (basic_rx_make, [''a'', ''b'', ''ab''])]"
    by (simp add: fresh_registry_def register_internal_dboards_unlatched get_dboard_ctor_def
        dict_index_def ID_NONE_def ID_BASIC_TX_def ID_BASIC_RX_def)
  have mgr: "fst (manager_make ID_NONE ID_NONE ?w) =
       Inr \<lparr>rx_dboards = [(''a'', \<lparr>proxy_subdev = 0, proxy_type = RX_TYPE\<rparr>),
                           (''b'', \<lparr>proxy_subdev = 1, proxy_type = RX_TYPE\<rparr>),
                           (''ab'', \<lparr>proxy_subdev = 2, proxy_type = RX_TYPE\<rparr>)],
            tx_dboards = [(''a'', \<lparr>proxy_subdev = 0, proxy_type = TX_TYPE\<rparr>),
                           (''b'', \<lparr>proxy_subdev = 1, proxy_type = TX_TYPE\<rparr>),
                           (''ab'', \<lparr>proxy_subdev = 2, proxy_type = TX_TYPE\<rparr>)]\<rparr>"
    by (simp add: manager_make_xcvr [OF h1 h2 h3] iw call_ctor_def)
  have made: "map made_by (instances (snd (manager_make ID_NONE ID_NONE ?w)))
       = [basic_rx_make, basic_rx_make, basic_rx_make]"
    by (simp add: manager_make_xcvr [OF h1 h2 h3] iw call_ctor_def new_driver_def)
  show ?thesis
    using reg mgr made by blast
qed

section \<open>Properties of the channel resolver\<close>

lemma mboard_props_at_index:
  "m < get_num_mboards u \<Longrightarrow>
     \<exists>b. mboard_props u (map fst (DEVICE_PROP_MBOARD u) ! m) = Inr b"
proof -
  assume "m < get_num_mboards u"
  then have "map fst (DEVICE_PROP_MBOARD u) ! m \<in> fst ` set (DEVICE_PROP_MBOARD u)"
    by (metis get_num_mboards_def nth_mem set_map)
  then obtain b where "map_of (DEVICE_PROP_MBOARD u) (map fst (DEVICE_PROP_MBOARD u) ! m) = Some b"
    by (metis map_of_eq_None_iff not_Some_eq)
  then show ?thesis by (simp add: mboard_props_def)
qed

lemma mboard_get_in_range:
  "m < get_num_mboards u \<Longrightarrow> \<exists>b. mboard_get u m prop = Inr (prop b)
      \<and> mboard_props u (map fst (DEVICE_PROP_MBOARD u) ! m) = Inr b"
  using mboard_props_at_index [of m u]
  by (auto simp: mboard_get_def mboard_obj_def get_num_mboards_def)

lemma mboard_obj_out_of_range:
  "get_num_mboards u \<le> m \<Longrightarrow> mboard_obj u m = Inl out_of_range"
  by (simp add: mboard_obj_def get_num_mboards_def)

lemma get_rx_subdev_spec_size:
  "m < get_num_mboards u \<Longrightarrow>
     \<exists>spec. get_rx_subdev_spec u m = Inr spec \<and> length spec = rx_spec_sizes u ! m"
  using mboard_get_in_range [of m u MBOARD_PROP_RX_SUBDEV_SPEC]
  by (auto simp: get_rx_subdev_spec_def rx_spec_sizes_def)

lemma get_tx_subdev_spec_size:
  "m < get_num_mboards u \<Longrightarrow>
     \<exists>spec. get_tx_subdev_spec u m = Inr spec \<and> length spec = tx_spec_sizes u ! m"
  using mboard_get_in_range [of m u MBOARD_PROP_TX_SUBDEV_SPEC]
  by (auto simp: get_tx_subdev_spec_def tx_spec_sizes_def)

lemma length_rx_spec_sizes [simp]: "length (rx_spec_sizes u) = get_num_mboards u"
  by (simp add: rx_spec_sizes_def)

lemma length_tx_spec_sizes [simp]: "length (tx_spec_sizes u) = get_num_mboards u"
  by (simp add: tx_spec_sizes_def)

lemma rx_chan_to_mcp_loop_resolve:
  "rx_chan_to_mcp_loop u mb ch = Inr (resolve (drop mb (rx_spec_sizes u)) mb ch)"
proof (induction u mb ch rule: rx_chan_to_mcp_loop.induct)
  case (1 u mb ch)
  show ?case
  proof (cases "mb < get_num_mboards u")
    case False
    then show ?thesis
      by (subst rx_chan_to_mcp_loop.simps) simp
  next
    case True
    then obtain spec where spec: "get_rx_subdev_spec u mb = Inr spec"
      "length spec = rx_spec_sizes u ! mb"
      using get_rx_subdev_spec_size by blast
    from True have drop: "drop mb (rx_spec_sizes u) = length spec # drop (Suc mb) (rx_spec_sizes u)"
      by (simp add: Cons_nth_drop_Suc spec(2))
    show ?thesis
    proof (cases "ch < length spec")
      case True
      then show ?thesis
        using \<open>mb < get_num_mboards u\<close> spec(1)
        by (subst rx_chan_to_mcp_loop.simps) (simp add: drop)
    next
      case False
      then have "rx_chan_to_mcp_loop u (mb + 1) (ch - length spec)
          = Inr (resolve (drop (mb + 1) (rx_spec_sizes u)) (mb + 1) (ch - length spec))"
        using "1.IH" [OF True spec(1) refl] by simp
      then show ?thesis
        using \<open>mb < get_num_mboards u\<close> spec(1) False
        by (subst rx_chan_to_mcp_loop.simps) (simp add: drop)
    qed
  qed
qed

lemma tx_chan_to_mcp_loop_resolve:
  "tx_chan_to_mcp_loop u mb ch = Inr (resolve (drop mb (tx_spec_sizes u)) mb ch)"
proof (induction u mb ch rule: tx_chan_to_mcp_loop.induct)
  case (1 u mb ch)
  show ?case
  proof (cases "mb < get_num_mboards u")
    case False
    then show ?thesis
      by (subst tx_chan_to_mcp_loop.simps) simp
  next
    case True
    then obtain spec where spec: "get_tx_subdev_spec u mb = Inr spec"
      "length spec = tx_spec_sizes u ! mb"
      using get_tx_subdev_spec_size by blast
    from True have drop: "drop mb (tx_spec_sizes u) = length spec # drop (Suc mb) (tx_spec_sizes u)"
      by (simp add: Cons_nth_drop_Suc spec(2))
    show ?thesis
    proof (cases "ch < length spec")
      case True
      then show ?thesis
        using \<open>mb < get_num_mboards u\<close> spec(1)
        by (subst tx_chan_to_mcp_loop.simps) (simp add: drop)
    next
      case False
      then have "tx_chan_to_mcp_loop u (mb + 1) (ch - length spec)
          = Inr (resolve (drop (mb + 1) (tx_spec_sizes u)) (mb + 1) (ch - length spec))"
        using "1.IH" [OF True spec(1) refl] by simp
      then show ?thesis
        using \<open>mb < get_num_mboards u\<close> spec(1) False
        by (subst tx_chan_to_mcp_loop.simps) (simp add: drop)
    qed
  qed
qed

lemma resolve_in_range:
  "c < sum_list ss \<Longrightarrow>
     \<exists>m. resolve ss k c = \<lparr>mboard = k + m, chan = c - sum_list (take m ss)\<rparr>
        \<and> m < length ss \<and> sum_list (take m ss) \<le> c \<and> c < sum_list (take (Suc m) ss)"
proof (induction ss arbitrary: k c)
  case Nil
  then show ?case by simp
next
  case (Cons s ss)
  show ?case
  proof (cases "c < s")
    case True
    then show ?thesis by (intro exI [of _ 0]) simp
  next
    case False
    with Cons.prems have "c - s < sum_list ss" by simp
    from Cons.IH [OF this, of "k + 1"] obtain m where
      m: "resolve ss (k + 1) (c - s) = \<lparr>mboard = k + 1 + m, chan = c - s - sum_list (take m ss)\<rparr>"
         "m < length ss" "sum_list (take m ss) \<le> c - s" "c - s < sum_list (take (Suc m) ss)"
      by blast
    show ?thesis
      using False m by (intro exI [of _ "Suc m"]) (simp, linarith)
  qed
qed

lemma resolve_out_of_range:
  "sum_list ss \<le> c \<Longrightarrow> resolve ss k c = \<lparr>mboard = k + length ss, chan = c - sum_list ss\<rparr>"
  by (induction ss arbitrary: k c) auto

lemma sum_list_take_mono: "i \<le> j \<Longrightarrow> sum_list (take i (ss :: nat list)) \<le> sum_list (take j ss)"
proof (induction ss arbitrary: i j)
  case Nil
  then show ?case by simp
next
  case (Cons s ss)
  then show ?case
    by (cases i; cases j) auto
qed

subsection \<open>A device with RX and TX sizes 2, 3 and 1\<close>

definition example_dsp :: "string \<Rightarrow> nat dsp_t" where
  "example_dsp name =
     \<lparr>DSP_PROP_NAME = name, DSP_PROP_HOST_RATE = 0, host_rate_achieved = (\<lambda>rate. rate),
      DSP_PROP_STREAM_CMD = []\<rparr>"

definition example_dboard :: "string \<Rightarrow> dboard_t" where
  "example_dboard name =
     \<lparr>DBOARD_PROP_NAME = name,
      DBOARD_PROP_SUBDEV = [(''a'', \<lparr>SUBDEV_PROP_NAME = ''Subdev a''\<rparr>),
                            (''b'', \<lparr>SUBDEV_PROP_NAME = ''Subdev b''\<rparr>)]\<rparr>"

definition example_board ::
  "string \<Rightarrow> subdev_spec_t \<Rightarrow> subdev_spec_t \<Rightarrow> string list \<Rightarrow> (nat \<Rightarrow> time_spec_t)
     \<Rightarrow> (nat \<Rightarrow> time_spec_t) \<Rightarrow> (nat, nat) mboard_t" where
  "example_board name rx_spec tx_spec dsp_names now_at pps_at =
     \<lparr>MBOARD_PROP_NAME = name, MBOARD_PROP_CLOCK_RATE = 0, MBOARD_PROP_CLOCK_CONFIG = 0,
      MBOARD_PROP_RX_SUBDEV_SPEC = rx_spec, MBOARD_PROP_TX_SUBDEV_SPEC = tx_spec,
      MBOARD_PROP_RX_DSP = map (\<lambda>n. (n, example_dsp n)) dsp_names,
      MBOARD_PROP_TX_DSP = map (\<lambda>n. (n, example_dsp n)) dsp_names,
      MBOARD_PROP_RX_DBOARD = [(''A'', example_dboard ''Basic RX'')],
      MBOARD_PROP_TX_DBOARD = [(''A'', example_dboard ''Basic TX'')],
      time_now_at = now_at, time_pps_at = pps_at,
      time_now_writes = [], time_next_pps_writes = []\<rparr>"

definition example_device :: "(string \<times> (nat, nat) mboard_t) list \<Rightarrow> (nat, nat) usrp" where
  "example_device boards =
     \<lparr>DEVICE_PROP_NAME = ''Example'', DEVICE_PROP_MBOARD = boards, reads = 0, msgs = []\<rparr>"

definition Aa :: subdev_spec_pair_t where "Aa = \<lparr>db_name = ''A'', sd_name = ''a''\<rparr>"
definition Ab :: subdev_spec_pair_t where "Ab = \<lparr>db_name = ''A'', sd_name = ''b''\<rparr>"

definition device_231 :: "(nat, nat) usrp" where
  "device_231 = example_device
     [(''X'', example_board ''X'' [Aa, Ab] [Aa, Ab] [''0'', ''1'', ''2''] (\<lambda>k. 0) (\<lambda>k. 0)),
      (''Y'', example_board ''Y'' [Aa, Ab, Aa] [Aa, Ab, Aa] [''0'', ''1'', ''2''] (\<lambda>k. 0) (\<lambda>k. 0)),
      (''Z'', example_board ''Z'' [Aa] [Aa] [''0'', ''1'', ''2''] (\<lambda>k. 0) (\<lambda>k. 0))]"

lemma device_231_boards: "get_num_mboards device_231 = 3"
  by (simp add: device_231_def example_device_def get_num_mboards_def)

lemma upt3: "[0..<3] = [0, 1, 2]"
  by (simp add: upt_rec)

lemma device_231_specs:
  "get_rx_subdev_spec device_231 0 = Inr [Aa, Ab]"
  "get_rx_subdev_spec device_231 1 = Inr [Aa, Ab, Aa]"
  "get_rx_subdev_spec device_231 2 = Inr [Aa]"
  "get_tx_subdev_spec device_231 0 = Inr [Aa, Ab]"
  "get_tx_subdev_spec device_231 1 = Inr [Aa, Ab, Aa]"
  "get_tx_subdev_spec device_231 2 = Inr [Aa]"
  by (simp_all add: get_rx_subdev_spec_def get_tx_subdev_spec_def mboard_get_def mboard_obj_def
      mboard_props_def device_231_def example_device_def example_board_def)

lemma device_231_sizes:
  "rx_spec_sizes device_231 = [2, 3, 1]" "tx_spec_sizes device_231 = [2, 3, 1]"
  by (simp_all only: rx_spec_sizes_def tx_spec_sizes_def device_231_boards upt3 list.map
      device_231_specs sum.case list.size)
     simp_all

lemma rx_chan_to_mcp_by_resolve:
  "rx_chan_to_mcp u c = Inr (resolve (rx_spec_sizes u) 0 c)"
  by (simp add: rx_chan_to_mcp_def rx_chan_to_mcp_loop_resolve)

lemma tx_chan_to_mcp_by_resolve:
  "tx_chan_to_mcp u c = Inr (resolve (tx_spec_sizes u) 0 c)"
  by (simp add: tx_chan_to_mcp_def tx_chan_to_mcp_loop_resolve)


subsection \<open>The resolver\<close>

text \<open>
  Claim C1. For every device and every flat channel index \<open>c\<close> below the sum of the RX
  subdev-spec sizes of its boards, \<open>rx_chan_to_mcp\<close> returns the board index \<open>m\<close> and
  the index \<open>c\<close> minus the sizes of the boards before \<open>m\<close>, where \<open>m\<close> is the smallest
  board index whose cumulative size, up to and including \<open>m\<close>, exceeds \<open>c\<close>: the
  cumulative size of every smaller index is at most \<open>c\<close>. The same holds for
  \<open>tx_chan_to_mcp\<close> and the TX sizes. For an index that is not below the sum, the
  resolver returns the number of boards as the board index, and the access to that board
  (\<open>mboard_obj\<close>) throws \<open>out_of_range\<close>.
\<close>

theorem chan_to_mcp_resolves:
  "(c < sum_list (rx_spec_sizes u) \<longrightarrow>
      (\<exists>m. rx_chan_to_mcp u c = Inr \<lparr>mboard = m, chan = c - sum_list (take m (rx_spec_sizes u))\<rparr>
          \<and> m < get_num_mboards u
          \<and> c < sum_list (take (Suc m) (rx_spec_sizes u))
          \<and> (\<forall>m'<m. sum_list (take (Suc m') (rx_spec_sizes u)) \<le> c)))
   \<and> (c < sum_list (tx_spec_sizes u) \<longrightarrow>
      (\<exists>m. tx_chan_to_mcp u c = Inr \<lparr>mboard = m, chan = c - sum_list (take m (tx_spec_sizes u))\<rparr>
          \<and> m < get_num_mboards u
          \<and> c < sum_list (take (Suc m) (tx_spec_sizes u))
          \<and> (\<forall>m'<m. sum_list (take (Suc m') (tx_spec_sizes u)) \<le> c)))
   \<and> (sum_list (rx_spec_sizes u) \<le> c \<longrightarrow>
      (\<exists>ch. rx_chan_to_mcp u c = Inr \<lparr>mboard = get_num_mboards u, chan = ch\<rparr>)
       \<and> mboard_obj u (get_num_mboards u) = Inl out_of_range)
   \<and> (sum_list (tx_spec_sizes u) \<le> c \<longrightarrow>
      (\<exists>ch. tx_chan_to_mcp u c = Inr \<lparr>mboard = get_num_mboards u, chan = ch\<rparr>)
       \<and> mboard_obj u (get_num_mboards u) = Inl out_of_range)"
proof -
  have least: "\<forall>m'<m. sum_list (take (Suc m') ss) \<le> c"
    if "sum_list (take m ss) \<le> c" for m c and ss :: "nat list"
  proof (intro allI impI)
    fix m' assume "m' < m"
    then have "sum_list (take (Suc m') ss) \<le> sum_list (take m ss)"
      by (intro sum_list_take_mono) simp
    with that show "sum_list (take (Suc m') ss) \<le> c" by simp
  qed
  have rx: "\<exists>m. rx_chan_to_mcp u c = Inr \<lparr>mboard = m, chan = c - sum_list (take m (rx_spec_sizes u))\<rparr>
          \<and> m < get_num_mboards u
          \<and> c < sum_list (take (Suc m) (rx_spec_sizes u))
          \<and> (\<forall>m'<m. sum_list (take (Suc m') (rx_spec_sizes u)) \<le> c)"
    if "c < sum_list (rx_spec_sizes u)"
    using resolve_in_range [OF that, of 0] least [of _ "rx_spec_sizes u" c]
    by (auto simp: rx_chan_to_mcp_def rx_chan_to_mcp_loop_resolve)
  have tx: "\<exists>m. tx_chan_to_mcp u c = Inr \<lparr>mboard = m, chan = c - sum_list (take m (tx_spec_sizes u))\<rparr>
          \<and> m < get_num_mboards u
          \<and> c < sum_list (take (Suc m) (tx_spec_sizes u))
          \<and> (\<forall>m'<m. sum_list (take (Suc m') (tx_spec_sizes u)) \<le> c)"
    if "c < sum_list (tx_spec_sizes u)"
    using resolve_in_range [OF that, of 0] least [of _ "tx_spec_sizes u" c]
    by (auto simp: tx_chan_to_mcp_def tx_chan_to_mcp_loop_resolve)
  have rxo: "(\<exists>ch. rx_chan_to_mcp u c = Inr \<lparr>mboard = get_num_mboards u, chan = ch\<rparr>)"
    if "sum_list (rx_spec_sizes u) \<le> c"
    using resolve_out_of_range [OF that, of 0]
    by (simp add: rx_chan_to_mcp_def rx_chan_to_mcp_loop_resolve)
  have txo: "(\<exists>ch. tx_chan_to_mcp u c = Inr \<lparr>mboard = get_num_mboards u, chan = ch\<rparr>)"
    if "sum_list (tx_spec_sizes u) \<le> c"
    using resolve_out_of_range [OF that, of 0]
    by (simp add: tx_chan_to_mcp_def tx_chan_to_mcp_loop_resolve)
  show ?thesis
    using rx tx rxo txo mboard_obj_out_of_range [of u "get_num_mboards u"] by blast
qed

theorem chan_to_mcp_resolves_witness:
  "rx_spec_sizes device_231 = [2, 3, 1]
   \<and> (4::nat) < sum_list (rx_spec_sizes device_231)
   \<and> rx_chan_to_mcp device_231 4 = Inr \<lparr>mboard = 1, chan = 2\<rparr>
   \<and> rx_chan_to_mcp device_231 0 = Inr \<lparr>mboard = 0, chan = 0\<rparr>
   \<and> rx_chan_to_mcp device_231 1 = Inr \<lparr>mboard = 0, chan = 1\<rparr>
   \<and> rx_chan_to_mcp device_231 2 = Inr \<lparr>mboard = 1, chan = 0\<rparr>
   \<and> rx_chan_to_mcp device_231 3 = Inr \<lparr>mboard = 1, chan = 1\<rparr>
   \<and> rx_chan_to_mcp device_231 5 = Inr \<lparr>mboard = 2, chan = 0\<rparr>
   \<and> tx_chan_to_mcp device_231 5 = Inr \<lparr>mboard = 2, chan = 0\<rparr>
   \<and> sum_list (rx_spec_sizes device_231) \<le> 6
   \<and> rx_chan_to_mcp device_231 6 = Inr \<lparr>mboard = 3, chan = 0\<rparr>
   \<and> mboard_obj device_231 3 = Inl out_of_range
   \<and> rx_dsp_obj device_231 6 = Inl out_of_range"
proof -
  have lt: "(4::nat) < sum_list (rx_spec_sizes device_231)"
    by (simp add: device_231_sizes)
  from chan_to_mcp_resolves [of 4 device_231] lt
  obtain m where m:
    "rx_chan_to_mcp device_231 4
       = Inr \<lparr>mboard = m, chan = 4 - sum_list (take m (rx_spec_sizes device_231))\<rparr>"
    "m < get_num_mboards device_231"
    "4 < sum_list (take (Suc m) (rx_spec_sizes device_231))"
    "\<forall>m'<m. sum_list (take (Suc m') (rx_spec_sizes device_231)) \<le> 4"
    by blast
  from m(2) have "m = 0 \<or> m = 1 \<or> m = 2"
    by (auto simp: device_231_boards)
  then have "m = 1"
  proof (elim disjE)
    assume "m = 0"
    with m(3) show ?thesis by (simp add: device_231_sizes)
  next
    assume "m = 1"
    then show ?thesis .
  next
    assume "m = 2"
    with m(4) have "sum_list (take (Suc 1) (rx_spec_sizes device_231)) \<le> 4" by simp
    then show ?thesis by (simp add: device_231_sizes)
  qed
  with m(1) have four: "rx_chan_to_mcp device_231 4 = Inr \<lparr>mboard = 1, chan = 2\<rparr>"
    by (simp add: device_231_sizes)
  have le: "sum_list (rx_spec_sizes device_231) \<le> 6"
    by (simp add: device_231_sizes)
  from chan_to_mcp_resolves [of 6 device_231] le
  have oor: "mboard_obj device_231 3 = Inl out_of_range"
    by (simp add: device_231_boards)
  have others:
    "rx_chan_to_mcp device_231 0 = Inr \<lparr>mboard = 0, chan = 0\<rparr>"
    "rx_chan_to_mcp device_231 1 = Inr \<lparr>mboard = 0, chan = 1\<rparr>"
    "rx_chan_to_mcp device_231 2 = Inr \<lparr>mboard = 1, chan = 0\<rparr>"
    "rx_chan_to_mcp device_231 3 = Inr \<lparr>mboard = 1, chan = 1\<rparr>"
    "rx_chan_to_mcp device_231 5 = Inr \<lparr>mboard = 2, chan = 0\<rparr>"
    "tx_chan_to_mcp device_231 5 = Inr \<lparr>mboard = 2, chan = 0\<rparr>"
    "rx_chan_to_mcp device_231 6 = Inr \<lparr>mboard = 3, chan = 0\<rparr>"
    by (simp_all add: rx_chan_to_mcp_by_resolve tx_chan_to_mcp_by_resolve device_231_sizes)
  have dsp: "rx_dsp_obj device_231 6 = Inl out_of_range"
    by (simp add: rx_dsp_obj_def others mboard_get_def oor)
  show ?thesis
    using lt four others le oor dsp by (simp add: device_231_sizes)
qed

section \<open>Properties of the time functions\<close>

text \<open>
  What a read of the \<open>now\<close> register, or of the \<open>last PPS\<close> register, of the board at
  index \<open>m\<close> returns when it is the read number \<open>k\<close> of the device.
\<close>

definition time_now_of :: "('cmd, 'clk) usrp \<Rightarrow> nat \<Rightarrow> nat \<Rightarrow> time_spec_t" where
  "time_now_of u m k = (case mboard_get u m time_now_at of Inl e \<Rightarrow> 0 | Inr register \<Rightarrow> register k)"

definition time_pps_of :: "('cmd, 'clk) usrp \<Rightarrow> nat \<Rightarrow> nat \<Rightarrow> time_spec_t" where
  "time_pps_of u m k = (case mboard_get u m time_pps_at of Inl e \<Rightarrow> 0 | Inr register \<Rightarrow> register k)"

lemma get_time_now_in_range:
  "m < get_num_mboards u \<Longrightarrow>
     get_time_now m u = (Inr (time_now_of u m (reads u)), u\<lparr>reads := Suc (reads u)\<rparr>)"
  using mboard_get_in_range [of m u time_now_at]
  by (auto simp: get_time_now_def time_now_of_def)

lemma get_time_last_pps_in_range:
  "m < get_num_mboards u \<Longrightarrow>
     get_time_last_pps m u = (Inr (time_pps_of u m (reads u)), u\<lparr>reads := Suc (reads u)\<rparr>)"
  using mboard_get_in_range [of m u time_pps_at]
  by (auto simp: get_time_last_pps_def time_pps_of_def)

lemma same_boards_same_reading:
  "DEVICE_PROP_MBOARD v = DEVICE_PROP_MBOARD u \<Longrightarrow>
     time_now_of v = time_now_of u \<and> time_pps_of v = time_pps_of u
     \<and> get_num_mboards v = get_num_mboards u"
  by (auto simp: fun_eq_iff time_now_of_def time_pps_of_def mboard_get_def mboard_obj_def
      mboard_props_def get_num_mboards_def)

lemma reads_update_reading [simp]:
  "time_now_of (u\<lparr>reads := r\<rparr>) = time_now_of u"
  "time_pps_of (u\<lparr>reads := r\<rparr>) = time_pps_of u"
  "get_num_mboards (u\<lparr>reads := r\<rparr>) = get_num_mboards u"
  using same_boards_same_reading [of "u\<lparr>reads := r\<rparr>" u] by simp_all

lemma get_time_synchronized_loop_result:
  "\<exists>r. get_time_synchronized_loop m u =
     (Inr (\<forall>i\<in>{m..<get_num_mboards u}.
             \<not> time_deviates (time_now_of u 0 (reads u + 2 * (i - m)))
                              (time_now_of u i (reads u + 2 * (i - m) + 1))),
      u\<lparr>reads := r\<rparr>)"
proof (induction m u rule: get_time_synchronized_loop.induct)
  case (1 m u)
  let ?n = "get_num_mboards u"
  show ?case
  proof (cases "m < ?n")
    case False
    then have "get_time_synchronized_loop m u = (Inr True, u\<lparr>reads := reads u\<rparr>)"
      by (subst get_time_synchronized_loop.simps) simp
    with False show ?thesis
      by (intro exI [of _ "reads u"]) simp
  next
    case True
    let ?t0 = "time_now_of u 0 (reads u)"
    let ?ti = "time_now_of u m (Suc (reads u))"
    let ?u1 = "u\<lparr>reads := Suc (reads u)\<rparr>"
    let ?u2 = "u\<lparr>reads := Suc (Suc (reads u))\<rparr>"
    have r0: "get_time_now 0 u = (Inr ?t0, ?u1)"
      using True by (intro get_time_now_in_range) simp
    have ri: "get_time_now m ?u1 = (Inr ?ti, ?u2)"
      using True by (simp add: get_time_now_in_range)
    show ?thesis
    proof (cases "time_deviates ?t0 ?ti")
      case dev: True
      have "get_time_synchronized_loop m u = (Inr False, ?u2)"
        using True dev by (subst get_time_synchronized_loop.simps) (simp add: r0 ri)
      moreover have "\<not> (\<forall>i\<in>{m..<?n}.
             \<not> time_deviates (time_now_of u 0 (reads u + 2 * (i - m)))
                              (time_now_of u i (reads u + 2 * (i - m) + 1)))"
        using True dev by (auto intro!: bexI [of _ m])
      ultimately show ?thesis by auto
    next
      case ok: False
      from "1.IH" [OF True r0 [symmetric] refl ri [symmetric] refl ok]
      obtain r where r: "get_time_synchronized_loop (Suc m) ?u2 =
          (Inr (\<forall>i\<in>{Suc m..<?n}.
             \<not> time_deviates (time_now_of u 0 (Suc (Suc (reads u)) + 2 * (i - Suc m)))
                              (time_now_of u i (Suc (Suc (reads u)) + 2 * (i - Suc m) + 1))),
           u\<lparr>reads := r\<rparr>)"
        by auto
      have step: "get_time_synchronized_loop m u = get_time_synchronized_loop (Suc m) ?u2"
        using True ok by (subst get_time_synchronized_loop.simps) (simp add: r0 ri)
      have shift: "Suc (Suc (reads u)) + 2 * (i - Suc m) = reads u + 2 * (i - m)"
        if "Suc m \<le> i" for i
        using that by simp
      have tail: "(\<forall>i\<in>{Suc m..<?n}.
             \<not> time_deviates (time_now_of u 0 (Suc (Suc (reads u)) + 2 * (i - Suc m)))
                              (time_now_of u i (Suc (Suc (reads u)) + 2 * (i - Suc m) + 1)))
          = (\<forall>i\<in>{Suc m..<?n}.
             \<not> time_deviates (time_now_of u 0 (reads u + 2 * (i - m)))
                              (time_now_of u i (reads u + 2 * (i - m) + 1)))"
      proof (rule ball_cong [OF refl])
        fix i assume "i \<in> {Suc m..<?n}"
        then have "Suc m \<le> i" by simp
        show "(\<not> time_deviates (time_now_of u 0 (Suc (Suc (reads u)) + 2 * (i - Suc m)))
                              (time_now_of u i (Suc (Suc (reads u)) + 2 * (i - Suc m) + 1)))
          = (\<not> time_deviates (time_now_of u 0 (reads u + 2 * (i - m)))
                              (time_now_of u i (reads u + 2 * (i - m) + 1)))"
          unfolding shift [OF \<open>Suc m \<le> i\<close>] ..
      qed
      have set: "{m..<?n} = insert m {Suc m..<?n}"
        using True by auto
      have head: "(\<forall>i\<in>{m..<?n}.
             \<not> time_deviates (time_now_of u 0 (reads u + 2 * (i - m)))
                              (time_now_of u i (reads u + 2 * (i - m) + 1)))
          = (\<forall>i\<in>{Suc m..<?n}.
             \<not> time_deviates (time_now_of u 0 (reads u + 2 * (i - m)))
                              (time_now_of u i (reads u + 2 * (i - m) + 1)))"
        unfolding set using ok by simp
      show ?thesis
        by (rule exI [of _ r]) (simp only: step r head tail)
    qed
  qed
qed

text \<open>
  Claim C7. \<open>get_time_synchronized\<close> returns a boolean and writes nothing: the boards
  of the device, with every property and every record of writes, and the messages are
  as before, and only the count of time-register reads has advanced. The boolean is true
  if and only if, for every board \<open>m\<close> from 1 up, the time read from board \<open>m\<close> does not
  deviate from the time read from board 0 just before it, that is, it is not behind it
  and not more than 10 milliseconds ahead of it.
\<close>

theorem get_time_synchronized_iff:
  "\<exists>r. get_time_synchronized u =
     (Inr (\<forall>m\<in>{1..<get_num_mboards u}.
             \<not> (time_now_of u m (reads u + 2 * (m - 1) + 1)
                   < time_now_of u 0 (reads u + 2 * (m - 1)))
           \<and> \<not> (time_now_of u m (reads u + 2 * (m - 1) + 1)
                   - time_now_of u 0 (reads u + 2 * (m - 1)) > 1 / 100)),
      u\<lparr>reads := r\<rparr>)"
  using get_time_synchronized_loop_result [of 1 u]
  by (simp add: get_time_synchronized_def time_deviates_def)


subsection \<open>Examples: three boards with constant clocks\<close>

definition clock_device :: "rat \<Rightarrow> rat \<Rightarrow> (nat, nat) usrp" where
  "clock_device d1 d2 = example_device
     [(''X'', example_board ''X'' [Aa] [Aa] [''0''] (\<lambda>k. 5) (\<lambda>k. 0)),
      (''Y'', example_board ''Y'' [Aa] [Aa] [''0''] (\<lambda>k. 5 + d1) (\<lambda>k. 0)),
      (''Z'', example_board ''Z'' [Aa] [Aa] [''0''] (\<lambda>k. 5 + d2) (\<lambda>k. 0))]"

lemma clock_device_boards: "get_num_mboards (clock_device d1 d2) = 3"
  by (simp add: clock_device_def example_device_def get_num_mboards_def)

lemma clock_device_now:
  "time_now_of (clock_device d1 d2) 0 k = 5"
  "time_now_of (clock_device d1 d2) 1 k = 5 + d1"
  "time_now_of (clock_device d1 d2) 2 k = 5 + d2"
  by (simp_all add: time_now_of_def mboard_get_def mboard_obj_def mboard_props_def
      clock_device_def example_device_def example_board_def)

lemma ball_1_3: "(\<forall>m\<in>{1..<3::nat}. P m) = (P 1 \<and> P 2)"
proof -
  have "{1..<3::nat} = {1, 2}" by auto
  then show ?thesis by simp
qed

theorem get_time_synchronized_iff_witness:
  "fst (get_time_synchronized (clock_device 0 0)) = Inr True
   \<and> fst (get_time_synchronized (clock_device 0 (- 1 / 1000))) = Inr False
   \<and> fst (get_time_synchronized (clock_device (2 / 100) 0)) = Inr False
   \<and> fst (get_time_synchronized (clock_device (1 / 100) 0)) = Inr True
   \<and> DEVICE_PROP_MBOARD (snd (get_time_synchronized (clock_device 0 0)))
       = DEVICE_PROP_MBOARD (clock_device 0 0)
   \<and> msgs (snd (get_time_synchronized (clock_device 0 0))) = msgs (clock_device 0 0)"
proof -
  have sync: "\<exists>r. get_time_synchronized (clock_device d1 d2) =
      (Inr (\<not> 5 + d1 < 5 \<and> \<not> 5 + d1 - 5 > 1 / 100 \<and> \<not> 5 + d2 < 5 \<and> \<not> 5 + d2 - 5 > 1 / 100),
       (clock_device d1 d2)\<lparr>reads := r\<rparr>)" for d1 d2
    using get_time_synchronized_iff [of "clock_device d1 d2"]
    by (simp only: clock_device_boards ball_1_3 clock_device_now conj_assoc)
  from sync [of 0 0] have a: "fst (get_time_synchronized (clock_device 0 0)) = Inr True"
    and e: "DEVICE_PROP_MBOARD (snd (get_time_synchronized (clock_device 0 0)))
              = DEVICE_PROP_MBOARD (clock_device 0 0)"
    and f: "msgs (snd (get_time_synchronized (clock_device 0 0))) = msgs (clock_device 0 0)"
    by auto
  from sync [of 0 "- 1 / 1000"]
  have b: "fst (get_time_synchronized (clock_device 0 (- 1 / 1000))) = Inr False"
    by auto
  from sync [of "2 / 100" 0]
  have c: "fst (get_time_synchronized (clock_device (2 / 100) 0)) = Inr False"
    by auto
  from sync [of "1 / 100" 0]
  have d: "fst (get_time_synchronized (clock_device (1 / 100) 0)) = Inr True"
    by auto
  show ?thesis
    using a b c d e f by blast
qed

subsection \<open>Waiting for a PPS edge\<close>

lemma wait_for_pps_times_out:
  assumes "0 < get_num_mboards v"
      and "\<forall>j\<le>k. time_pps_of v 0 (reads v + 2 * j) = tp"
      and "time_now_of v 0 (reads v + 2 * k + 1) - ts > 11 / 10"
  shows "\<exists>r. wait_for_pps ts tp v = Some (Inl (runtime_error no_pps_message), v\<lparr>reads := r\<rparr>)"
  using assms
proof (induction k arbitrary: v)
  case 0
  let ?v1 = "v\<lparr>reads := Suc (reads v)\<rparr>"
  let ?v2 = "v\<lparr>reads := Suc (Suc (reads v))\<rparr>"
  have p: "get_time_last_pps 0 v = (Inr tp, ?v1)"
    using "0.prems"(1,2) by (simp add: get_time_last_pps_in_range)
  have n: "get_time_now 0 ?v1 = (Inr (time_now_of v 0 (Suc (reads v))), ?v2)"
    using "0.prems"(1) by (simp add: get_time_now_in_range)
  have "wait_for_pps ts tp v = Some (Inl (runtime_error no_pps_message), ?v2)"
    using "0.prems"(3) by (subst wait_for_pps.simps) (simp add: p n)
  then show ?case by blast
next
  case (Suc k)
  let ?v1 = "v\<lparr>reads := Suc (reads v)\<rparr>"
  let ?v2 = "v\<lparr>reads := Suc (Suc (reads v))\<rparr>"
  have "time_pps_of v 0 (reads v + 2 * 0) = tp"
    using Suc.prems(2) by blast
  then have p: "get_time_last_pps 0 v = (Inr tp, ?v1)"
    using Suc.prems(1) by (simp add: get_time_last_pps_in_range)
  have n: "get_time_now 0 ?v1 = (Inr (time_now_of v 0 (Suc (reads v))), ?v2)"
    using Suc.prems(1) by (simp add: get_time_now_in_range)
  show ?case
  proof (cases "time_now_of v 0 (Suc (reads v)) - ts > 11 / 10")
    case True
    then have "wait_for_pps ts tp v = Some (Inl (runtime_error no_pps_message), ?v2)"
      by (subst wait_for_pps.simps) (simp add: p n)
    then show ?thesis by blast
  next
    case False
    then have step: "wait_for_pps ts tp v = wait_for_pps ts tp ?v2"
      by (subst wait_for_pps.simps) (simp add: p n)
    have a: "0 < get_num_mboards ?v2"
      using Suc.prems(1) by simp
    have b: "\<forall>j\<le>k. time_pps_of ?v2 0 (reads ?v2 + 2 * j) = tp"
    proof (intro allI impI)
      fix j assume "j \<le> k"
      then have "Suc j \<le> Suc k" by simp
      with Suc.prems(2) have "time_pps_of v 0 (reads v + 2 * Suc j) = tp"
        by blast
      then show "time_pps_of ?v2 0 (reads ?v2 + 2 * j) = tp" by simp
    qed
    have c: "time_now_of ?v2 0 (reads ?v2 + 2 * k + 1) - ts > 11 / 10"
      using Suc.prems(3) by simp
    from Suc.IH [OF a b c] obtain r where
      "wait_for_pps ts tp ?v2 = Some (Inl (runtime_error no_pps_message), ?v2\<lparr>reads := r\<rparr>)"
      by blast
    then have "wait_for_pps ts tp v = Some (Inl (runtime_error no_pps_message), v\<lparr>reads := r\<rparr>)"
      by (simp add: step)
    then show ?thesis by blast
  qed
qed

text \<open>
  Claim C6. Let board 0 exist. If every read of its \<open>last PPS\<close> register that the
  polling loop makes, up to some iteration \<open>k\<close>, returns the value read as the baseline,
  and the \<open>now\<close> read of iteration \<open>k\<close> is more than 1.1 seconds after the \<open>now\<close> read at
  the start, then \<open>set_time_unknown_pps\<close> returns, by throwing the runtime error whose
  message says that board 0 may not be getting a PPS signal. The state it leaves is the
  state it started in but for the count of time-register reads and the first status
  message: no property of any board has been written, and in particular the record of
  writes to the \<open>time at next PPS\<close> register of every board is as before.
\<close>

theorem set_time_unknown_pps_times_out:
  assumes "0 < get_num_mboards u"
      and "\<forall>j\<le>k. time_pps_of u 0 (reads u + 2 + 2 * j) = time_pps_of u 0 (reads u + 1)"
      and "time_now_of u 0 (reads u + 3 + 2 * k) - time_now_of u 0 (reads u) > 11 / 10"
  shows "\<exists>u'. set_time_unknown_pps time_spec u = Some (Inl (runtime_error no_pps_message), u')
           \<and> DEVICE_PROP_MBOARD u' = DEVICE_PROP_MBOARD u
           \<and> map (\<lambda>(n, b). time_next_pps_writes b) (DEVICE_PROP_MBOARD u')
               = map (\<lambda>(n, b). time_next_pps_writes b) (DEVICE_PROP_MBOARD u)
           \<and> msgs u' = msgs u @ [status ''    1) catch time transition at pps edge\<newline>'']
           \<and> DEVICE_PROP_NAME u' = DEVICE_PROP_NAME u"
proof -
  let ?u0 = "u\<lparr>msgs := msgs u @ [status ''    1) catch time transition at pps edge\<newline>'']\<rparr>"
  let ?u1 = "?u0\<lparr>reads := Suc (reads u)\<rparr>"
  let ?u2 = "?u0\<lparr>reads := Suc (Suc (reads u))\<rparr>"
  let ?ts = "time_now_of u 0 (reads u)"
  let ?tp = "time_pps_of u 0 (Suc (reads u))"
  have same: "time_now_of ?u0 = time_now_of u" "time_pps_of ?u0 = time_pps_of u"
    "get_num_mboards ?u0 = get_num_mboards u"
    using same_boards_same_reading [of ?u0 u] by simp_all
  have n: "get_time_now 0 ?u0 = (Inr ?ts, ?u1)"
    using assms(1) by (simp add: get_time_now_in_range same)
  have p: "get_time_last_pps 0 ?u1 = (Inr ?tp, ?u2)"
    using assms(1) by (simp add: get_time_last_pps_in_range same)
  have a: "0 < get_num_mboards ?u2"
    using assms(1) by (simp add: same)
  have "reads ?u2 + 2 * j = reads u + 2 + 2 * j" for j
    by simp
  moreover have "Suc (reads u) = reads u + 1"
    by simp
  ultimately have b: "\<forall>j\<le>k. time_pps_of ?u2 0 (reads ?u2 + 2 * j) = ?tp"
    using assms(2) by (simp only: reads_update_reading same)
  have "reads ?u2 + 2 * k + 1 = reads u + 3 + 2 * k"
    by simp
  then have c: "time_now_of ?u2 0 (reads ?u2 + 2 * k + 1) - ?ts > 11 / 10"
    using assms(3) by (simp only: reads_update_reading same)
  from wait_for_pps_times_out [OF a b c] obtain r where
    w: "wait_for_pps ?ts ?tp ?u2 = Some (Inl (runtime_error no_pps_message), ?u2\<lparr>reads := r\<rparr>)"
    by blast
  have "set_time_unknown_pps time_spec u
          = Some (Inl (runtime_error no_pps_message), ?u2\<lparr>reads := r\<rparr>)"
    by (simp add: set_time_unknown_pps_def Let_def n p w)
  then show ?thesis by simp
qed

definition slow_clock_device :: "(nat, nat) usrp" where
  "slow_clock_device = example_device
     [(''X'', example_board ''X'' [Aa] [Aa] [''0''] (\<lambda>k. of_nat k / 4) (\<lambda>k. 0)),
      (''Y'', example_board ''Y'' [Aa] [Aa] [''0''] (\<lambda>k. of_nat k / 4) (\<lambda>k. 0))]"

theorem set_time_unknown_pps_times_out_witness:
  "0 < get_num_mboards slow_clock_device
   \<and> time_pps_of slow_clock_device 0 (reads slow_clock_device + 2 + 2 * 0)
       = time_pps_of slow_clock_device 0 (reads slow_clock_device + 1)
   \<and> time_pps_of slow_clock_device 0 (reads slow_clock_device + 2 + 2 * 1)
       = time_pps_of slow_clock_device 0 (reads slow_clock_device + 1)
   \<and> \<not> time_now_of slow_clock_device 0 (reads slow_clock_device + 3 + 2 * 0)
         - time_now_of slow_clock_device 0 (reads slow_clock_device) > 11 / 10
   \<and> time_now_of slow_clock_device 0 (reads slow_clock_device + 3 + 2 * 1)
       - time_now_of slow_clock_device 0 (reads slow_clock_device) > 11 / 10
   \<and> (\<exists>u'. set_time_unknown_pps 100 slow_clock_device
              = Some (Inl (runtime_error no_pps_message), u')
           \<and> DEVICE_PROP_MBOARD u' = DEVICE_PROP_MBOARD slow_clock_device
           \<and> map (\<lambda>(n, b). time_next_pps_writes b) (DEVICE_PROP_MBOARD u') = [[], []])"
proof -
  let ?d = slow_clock_device
  have pps: "time_pps_of ?d 0 k = 0" for k
    by (simp add: time_pps_of_def mboard_get_def mboard_obj_def mboard_props_def
        slow_clock_device_def example_device_def example_board_def)
  have now: "time_now_of ?d 0 k = of_nat k / 4" for k
    by (simp add: time_now_of_def mboard_get_def mboard_obj_def mboard_props_def
        slow_clock_device_def example_device_def example_board_def)
  have rd: "reads ?d = 0"
    by (simp add: slow_clock_device_def example_device_def)
  have h1: "0 < get_num_mboards ?d"
    by (simp add: slow_clock_device_def example_device_def get_num_mboards_def)
  have h2: "\<forall>j\<le>1. time_pps_of ?d 0 (reads ?d + 2 + 2 * j) = time_pps_of ?d 0 (reads ?d + 1)"
    by (simp add: pps)
  have h3: "time_now_of ?d 0 (reads ?d + 3 + 2 * 1) - time_now_of ?d 0 (reads ?d) > 11 / 10"
    by (simp add: now rd)
  have early: "\<not> time_now_of ?d 0 (reads ?d + 3 + 2 * 0) - time_now_of ?d 0 (reads ?d) > 11 / 10"
    by (simp add: now rd)
  have boards: "map (\<lambda>(n, b). time_next_pps_writes b) (DEVICE_PROP_MBOARD ?d) = [[], []]"
    by (simp add: slow_clock_device_def example_device_def example_board_def)
  from set_time_unknown_pps_times_out [OF h1 h2 h3, of 100]
  obtain u' where u':
    "set_time_unknown_pps 100 ?d = Some (Inl (runtime_error no_pps_message), u')"
    "DEVICE_PROP_MBOARD u' = DEVICE_PROP_MBOARD ?d"
    by blast
  show ?thesis
    using h1 h3 early u' boards by (auto simp: pps)
qed

section \<open>Properties of the setters with a sentinel\<close>

text \<open>
  What the spec says of a setter called with the sentinel: its call is the sequence of
  its calls for the indices from 0 up to the count, in order, from the same state; and
  when the calls before an index \<open>k\<close> return and the call for \<open>k\<close> throws, the call with
  the sentinel throws that exception and leaves the state of that throw, so that no
  index after \<open>k\<close> has been applied.
\<close>

definition fans_out ::
  "(nat \<Rightarrow> 's \<Rightarrow> (unit, 's) result) \<Rightarrow> nat \<Rightarrow> nat \<Rightarrow> 's \<Rightarrow> bool" where
  "fans_out setter sentinel count s =
     (setter sentinel s = each_index setter [0..<count] s
      \<and> (\<forall>k e s1 s2. k < count \<longrightarrow> each_index setter [0..<k] s = (Inr (), s1) \<longrightarrow>
            setter k s1 = (Inl e, s2) \<longrightarrow> setter sentinel s = (Inl e, s2)))"

lemma each_index_append:
  "each_index f (xs @ ys) s =
     (case each_index f xs s of (Inl e, s') \<Rightarrow> (Inl e, s') | (Inr _, s') \<Rightarrow> each_index f ys s')"
  by (induction xs arbitrary: s) (auto split: prod.splits sum.splits)

lemma each_index_cong:
  "(\<And>i. i \<in> set xs \<Longrightarrow> f i = g i) \<Longrightarrow> each_index f xs s = each_index g xs s"
  by (induction xs arbitrary: s) (auto split: prod.splits sum.splits)

lemma fans_outI:
  assumes "setter sentinel s = each_index setter [0..<count] s"
  shows "fans_out setter sentinel count s"
  unfolding fans_out_def
proof (intro conjI allI impI)
  show "setter sentinel s = each_index setter [0..<count] s" by fact
next
  fix k e s1 s2
  assume k: "k < count" and before: "each_index setter [0..<k] s = (Inr (), s1)"
    and throws: "setter k s1 = (Inl e, s2)"
  from k have "[0..<count] = [0..<k] @ [k..<count]"
    by (metis le_add_diff_inverse less_imp_le_nat upt_add_eq_append zero_le)
  also from k have "[k..<count] = k # [Suc k..<count]"
    by (simp add: upt_conv_Cons)
  finally have "[0..<count] = [0..<k] @ k # [Suc k..<count]" .
  then have "each_index setter [0..<count] s = (Inl e, s2)"
    by (simp add: each_index_append before throws)
  with assms show "setter sentinel s = (Inl e, s2)" by simp
qed

lemma mboards_loop_each_index:
  "mboards_loop upd m u = each_index (\<lambda>i. mboard_set i upd) [m..<get_num_mboards u] u"
proof (induction upd m u rule: mboards_loop.induct)
  case (1 upd m u)
  show ?case
  proof (cases "m < get_num_mboards u")
    case False
    then show ?thesis
      by (subst mboards_loop.simps) simp
  next
    case True
    then have list: "[m..<get_num_mboards u] = m # [Suc m..<get_num_mboards u]"
      by (simp add: upt_conv_Cons)
    obtain r u' where r: "mboard_set m upd u = (r, u')"
      by (cases "mboard_set m upd u")
    then have n: "get_num_mboards u' = get_num_mboards u"
      by (rule mboard_set_num_mboards)
    show ?thesis
    proof (cases r)
      case (Inl e)
      then show ?thesis
        using True r by (subst mboards_loop.simps) (simp add: list)
    next
      case (Inr x)
      from "1.IH" [OF True r [symmetric] Inr]
      have "mboards_loop upd (Suc m) u'
              = each_index (\<lambda>i. mboard_set i upd) [Suc m..<get_num_mboards u] u'"
        by (simp add: n)
      then show ?thesis
        using True r Inr by (subst mboards_loop.simps) (simp add: list)
    qed
  qed
qed

lemma rx_num_channels_loop_sum:
  "rx_num_channels_loop u m acc = Inr (acc + sum_list (drop m (rx_spec_sizes u)))"
proof (induction u m acc rule: rx_num_channels_loop.induct)
  case (1 u m acc)
  show ?case
  proof (cases "m < get_num_mboards u")
    case False
    then show ?thesis
      by (subst rx_num_channels_loop.simps) simp
  next
    case True
    then obtain spec where spec: "get_rx_subdev_spec u m = Inr spec"
      "length spec = rx_spec_sizes u ! m"
      using get_rx_subdev_spec_size by blast
    from True have drop: "drop m (rx_spec_sizes u) = length spec # drop (Suc m) (rx_spec_sizes u)"
      by (simp add: Cons_nth_drop_Suc spec(2))
    from "1.IH" [OF True spec(1)] show ?thesis
      using True spec(1) by (subst rx_num_channels_loop.simps) (simp add: drop)
  qed
qed

lemma tx_num_channels_loop_sum:
  "tx_num_channels_loop u m acc = Inr (acc + sum_list (drop m (tx_spec_sizes u)))"
proof (induction u m acc rule: tx_num_channels_loop.induct)
  case (1 u m acc)
  show ?case
  proof (cases "m < get_num_mboards u")
    case False
    then show ?thesis
      by (subst tx_num_channels_loop.simps) simp
  next
    case True
    then obtain spec where spec: "get_tx_subdev_spec u m = Inr spec"
      "length spec = tx_spec_sizes u ! m"
      using get_tx_subdev_spec_size by blast
    from True have drop: "drop m (tx_spec_sizes u) = length spec # drop (Suc m) (tx_spec_sizes u)"
      by (simp add: Cons_nth_drop_Suc spec(2))
    from "1.IH" [OF True spec(1)] show ?thesis
      using True spec(1) by (subst tx_num_channels_loop.simps) (simp add: drop)
  qed
qed

lemma get_rx_num_channels_sum: "get_rx_num_channels u = Inr (sum_list (rx_spec_sizes u))"
  by (simp add: get_rx_num_channels_def rx_num_channels_loop_sum)

lemma get_tx_num_channels_sum: "get_tx_num_channels u = Inr (sum_list (tx_spec_sizes u))"
  by (simp add: get_tx_num_channels_def tx_num_channels_loop_sum)

lemma set_rx_rate_loop_each_index:
  "get_rx_num_channels u = Inr n \<Longrightarrow>
     set_rx_rate_loop exceeds rate c u = each_index (set_rx_rate_chan exceeds rate) [c..<n] u"
proof (induction exceeds rate c u rule: set_rx_rate_loop.induct)
  case (1 exceeds rate c u)
  show ?case
  proof (cases "c < n")
    case False
    then show ?thesis
      using "1.prems" by (subst set_rx_rate_loop.simps) simp
  next
    case True
    then have list: "[c..<n] = c # [Suc c..<n]"
      by (simp add: upt_conv_Cons)
    obtain r u' where r: "set_rx_rate_chan exceeds rate c u = (r, u')"
      by (cases "set_rx_rate_chan exceeds rate c u")
    then have "shape u' = shape u"
      by (rule set_rx_rate_chan_shape)
    then have "get_rx_num_channels u' = get_rx_num_channels u"
      by (rule get_rx_num_channels_shape)
    with "1.prems" have n: "get_rx_num_channels u' = Inr n"
      by simp
    show ?thesis
    proof (cases r)
      case (Inl e)
      then show ?thesis
        using True r "1.prems" by (subst set_rx_rate_loop.simps) (simp add: list)
    next
      case (Inr x)
      from "1.IH" [OF "1.prems" True r [symmetric] Inr n]
      have "set_rx_rate_loop exceeds rate (Suc c) u'
              = each_index (set_rx_rate_chan exceeds rate) [Suc c..<n] u'"
        by simp
      then show ?thesis
        using True r Inr "1.prems" by (subst set_rx_rate_loop.simps) (simp add: list)
    qed
  qed
qed

lemma set_tx_rate_loop_each_index:
  "get_tx_num_channels u = Inr n \<Longrightarrow>
     set_tx_rate_loop exceeds rate c u = each_index (set_tx_rate_chan exceeds rate) [c..<n] u"
proof (induction exceeds rate c u rule: set_tx_rate_loop.induct)
  case (1 exceeds rate c u)
  show ?case
  proof (cases "c < n")
    case False
    then show ?thesis
      using "1.prems" by (subst set_tx_rate_loop.simps) simp
  next
    case True
    then have list: "[c..<n] = c # [Suc c..<n]"
      by (simp add: upt_conv_Cons)
    obtain r u' where r: "set_tx_rate_chan exceeds rate c u = (r, u')"
      by (cases "set_tx_rate_chan exceeds rate c u")
    then have "shape u' = shape u"
      by (rule set_tx_rate_chan_shape)
    then have "get_tx_num_channels u' = get_tx_num_channels u"
      by (rule get_tx_num_channels_shape)
    with "1.prems" have n: "get_tx_num_channels u' = Inr n"
      by simp
    show ?thesis
    proof (cases r)
      case (Inl e)
      then show ?thesis
        using True r "1.prems" by (subst set_tx_rate_loop.simps) (simp add: list)
    next
      case (Inr x)
      from "1.IH" [OF "1.prems" True r [symmetric] Inr n]
      have "set_tx_rate_loop exceeds rate (Suc c) u'
              = each_index (set_tx_rate_chan exceeds rate) [Suc c..<n] u'"
        by simp
      then show ?thesis
        using True r Inr "1.prems" by (subst set_tx_rate_loop.simps) (simp add: list)
    qed
  qed
qed

lemma issue_stream_cmd_loop_each_index:
  "get_rx_num_channels u = Inr n \<Longrightarrow>
     issue_stream_cmd_loop stream_cmd c u = each_index (issue_stream_cmd_chan stream_cmd) [c..<n] u"
proof (induction stream_cmd c u rule: issue_stream_cmd_loop.induct)
  case (1 stream_cmd c u)
  show ?case
  proof (cases "c < n")
    case False
    then show ?thesis
      using "1.prems" by (subst issue_stream_cmd_loop.simps) simp
  next
    case True
    then have list: "[c..<n] = c # [Suc c..<n]"
      by (simp add: upt_conv_Cons)
    obtain r u' where r: "issue_stream_cmd_chan stream_cmd c u = (r, u')"
      by (cases "issue_stream_cmd_chan stream_cmd c u")
    then have "shape u' = shape u"
      unfolding issue_stream_cmd_chan_def by (rule rx_dsp_set_shape)
    then have "get_rx_num_channels u' = get_rx_num_channels u"
      by (rule get_rx_num_channels_shape)
    with "1.prems" have n: "get_rx_num_channels u' = Inr n"
      by simp
    show ?thesis
    proof (cases r)
      case (Inl e)
      then show ?thesis
        using True r "1.prems" by (subst issue_stream_cmd_loop.simps) (simp add: list)
    next
      case (Inr x)
      from "1.IH" [OF "1.prems" True r [symmetric] Inr n]
      have "issue_stream_cmd_loop stream_cmd (Suc c) u'
              = each_index (issue_stream_cmd_chan stream_cmd) [Suc c..<n] u'"
        by simp
      then show ?thesis
        using True r Inr "1.prems" by (subst issue_stream_cmd_loop.simps) (simp add: list)
    qed
  qed
qed


lemma fans_out_loop:
  assumes setter: "\<And>i v. setter i v = (if i \<noteq> sentinel then body i v else loop v)"
    and loop: "loop u = each_index body [0..<n] u"
    and n: "n \<le> sentinel"
  shows "fans_out setter sentinel n u"
proof (rule fans_outI)
  have "setter sentinel u = each_index body [0..<n] u"
    by (simp add: setter loop)
  also have "\<dots> = each_index setter [0..<n] u"
  proof (rule each_index_cong)
    fix i assume "i \<in> set [0..<n]"
    with n have "i \<noteq> sentinel" by auto
    then show "body i = setter i"
      by (intro ext) (simp add: setter)
  qed
  finally show "setter sentinel u = each_index setter [0..<n] u" .
qed

text \<open>
  Claim C5. For a device whose number of boards and whose RX and TX channel counts are
  values of \<open>size_t\<close> (at most the sentinel), each of \<open>set_master_clock_rate\<close>,
  \<open>set_time_now\<close>, \<open>set_clock_config\<close>, \<open>set_rx_subdev_spec\<close>, \<open>set_tx_subdev_spec\<close>
  called with \<open>ALL_MBOARDS\<close>, and each of \<open>set_rx_rate\<close>, \<open>set_tx_rate\<close>,
  \<open>issue_stream_cmd\<close> called with \<open>ALL_CHANS\<close>, is that setter called for each index from
  0 to the count minus one, in order (the count is the number of boards, the number of RX
  channels for \<open>set_rx_rate\<close> and \<open>issue_stream_cmd\<close>, the number of TX channels for
  \<open>set_tx_rate\<close>); and when the call for an index throws, the call with the sentinel
  throws the same exception in the state of that throw: the setter is applied to no
  later index.
\<close>

theorem sentinel_fans_out:
  assumes "get_num_mboards u \<le> ALL_MBOARDS"
    and "sum_list (rx_spec_sizes u) \<le> ALL_CHANS"
    and "sum_list (tx_spec_sizes u) \<le> ALL_CHANS"
  shows "fans_out (set_master_clock_rate rate) ALL_MBOARDS (get_num_mboards u) u
       \<and> fans_out (set_time_now time_spec) ALL_MBOARDS (get_num_mboards u) u
       \<and> fans_out (set_clock_config clock_config) ALL_MBOARDS (get_num_mboards u) u
       \<and> fans_out (set_rx_subdev_spec rx_spec) ALL_MBOARDS (get_num_mboards u) u
       \<and> fans_out (set_tx_subdev_spec tx_spec) ALL_MBOARDS (get_num_mboards u) u
       \<and> get_rx_num_channels u = Inr (sum_list (rx_spec_sizes u))
       \<and> get_tx_num_channels u = Inr (sum_list (tx_spec_sizes u))
       \<and> fans_out (set_rx_rate exceeds rx_rate) ALL_CHANS (sum_list (rx_spec_sizes u)) u
       \<and> fans_out (set_tx_rate exceeds tx_rate) ALL_CHANS (sum_list (tx_spec_sizes u)) u
       \<and> fans_out (issue_stream_cmd stream_cmd) ALL_CHANS (sum_list (rx_spec_sizes u)) u"
proof -
  have a: "fans_out (set_master_clock_rate rate) ALL_MBOARDS (get_num_mboards u) u"
    by (rule fans_out_loop
          [where body = "\<lambda>i. mboard_set i (\<lambda>b. b\<lparr>MBOARD_PROP_CLOCK_RATE := rate\<rparr>)"
             and loop = "mboards_loop (\<lambda>b. b\<lparr>MBOARD_PROP_CLOCK_RATE := rate\<rparr>) 0",
           OF _ mboards_loop_each_index assms(1)])
       (simp add: set_master_clock_rate_def)
  have b: "fans_out (set_time_now time_spec) ALL_MBOARDS (get_num_mboards u) u"
    by (rule fans_out_loop
          [where body = "\<lambda>i. mboard_set i (\<lambda>b. b\<lparr>time_now_writes := time_now_writes b @ [time_spec]\<rparr>)"
             and loop = "mboards_loop (\<lambda>b. b\<lparr>time_now_writes := time_now_writes b @ [time_spec]\<rparr>) 0",
           OF _ mboards_loop_each_index assms(1)])
       (simp add: set_time_now_def)
  have c: "fans_out (set_clock_config clock_config) ALL_MBOARDS (get_num_mboards u) u"
    by (rule fans_out_loop
          [where body = "\<lambda>i. mboard_set i (\<lambda>b. b\<lparr>MBOARD_PROP_CLOCK_CONFIG := clock_config\<rparr>)"
             and loop = "mboards_loop (\<lambda>b. b\<lparr>MBOARD_PROP_CLOCK_CONFIG := clock_config\<rparr>) 0",
           OF _ mboards_loop_each_index assms(1)])
       (simp add: set_clock_config_def)
  have d: "fans_out (set_rx_subdev_spec rx_spec) ALL_MBOARDS (get_num_mboards u) u"
    by (rule fans_out_loop
          [where body = "\<lambda>i. mboard_set i (\<lambda>b. b\<lparr>MBOARD_PROP_RX_SUBDEV_SPEC := rx_spec\<rparr>)"
             and loop = "mboards_loop (\<lambda>b. b\<lparr>MBOARD_PROP_RX_SUBDEV_SPEC := rx_spec\<rparr>) 0",
           OF _ mboards_loop_each_index assms(1)])
       (simp add: set_rx_subdev_spec_def)
  have e: "fans_out (set_tx_subdev_spec tx_spec) ALL_MBOARDS (get_num_mboards u) u"
    by (rule fans_out_loop
          [where body = "\<lambda>i. mboard_set i (\<lambda>b. b\<lparr>MBOARD_PROP_TX_SUBDEV_SPEC := tx_spec\<rparr>)"
             and loop = "mboards_loop (\<lambda>b. b\<lparr>MBOARD_PROP_TX_SUBDEV_SPEC := tx_spec\<rparr>) 0",
           OF _ mboards_loop_each_index assms(1)])
       (simp add: set_tx_subdev_spec_def)
  have f: "fans_out (set_rx_rate exceeds rx_rate) ALL_CHANS (sum_list (rx_spec_sizes u)) u"
    by (rule fans_out_loop
          [where body = "set_rx_rate_chan exceeds rx_rate"
             and loop = "set_rx_rate_loop exceeds rx_rate 0",
           OF _ set_rx_rate_loop_each_index [OF get_rx_num_channels_sum] assms(2)])
       (simp add: set_rx_rate_def)
  have g: "fans_out (set_tx_rate exceeds tx_rate) ALL_CHANS (sum_list (tx_spec_sizes u)) u"
    by (rule fans_out_loop
          [where body = "set_tx_rate_chan exceeds tx_rate"
             and loop = "set_tx_rate_loop exceeds tx_rate 0",
           OF _ set_tx_rate_loop_each_index [OF get_tx_num_channels_sum] assms(3)])
       (simp add: set_tx_rate_def)
  have h: "fans_out (issue_stream_cmd stream_cmd) ALL_CHANS (sum_list (rx_spec_sizes u)) u"
    by (rule fans_out_loop
          [where body = "issue_stream_cmd_chan stream_cmd"
             and loop = "issue_stream_cmd_loop stream_cmd 0",
           OF _ issue_stream_cmd_loop_each_index [OF get_rx_num_channels_sum] assms(2)])
       (simp add: issue_stream_cmd_def)
  from a b c d e f g h get_rx_num_channels_sum [of u] get_tx_num_channels_sum [of u]
  show ?thesis by blast
qed

text \<open>
  A device of two boards: the first has two RX channels and one RX DSP, so that the
  second flat RX channel has no DSP.
\<close>

definition short_dsp_device :: "(nat, nat) usrp" where
  "short_dsp_device = example_device
     [(''X'', example_board ''X'' [Aa, Ab] [Aa] [''0''] (\<lambda>k. 0) (\<lambda>k. 0)),
      (''Y'', example_board ''Y'' [Aa] [Aa] [''0''] (\<lambda>k. 0) (\<lambda>k. 0))]"

lemma upt2: "[0..<2] = [0, 1]"
  by (simp add: upt_rec)

lemmas device_eval =
  get_num_mboards_def get_rx_subdev_spec_def get_tx_subdev_spec_def mboard_get_def
  mboard_set_def mboard_obj_def mboard_props_def example_device_def example_board_def
  example_dsp_def

lemma short_dsp_device_boards: "get_num_mboards short_dsp_device = 2"
  by (simp add: short_dsp_device_def device_eval)

lemma short_dsp_device_sizes:
  "rx_spec_sizes short_dsp_device = [2, 1]" "tx_spec_sizes short_dsp_device = [1, 1]"
  by (simp_all add: rx_spec_sizes_def tx_spec_sizes_def short_dsp_device_boards upt2)
     (simp_all add: short_dsp_device_def device_eval)

theorem sentinel_fans_out_witness:
  "get_num_mboards short_dsp_device \<le> ALL_MBOARDS
   \<and> sum_list (rx_spec_sizes short_dsp_device) \<le> ALL_CHANS
   \<and> sum_list (tx_spec_sizes short_dsp_device) \<le> ALL_CHANS
   \<and> set_master_clock_rate 9 ALL_MBOARDS short_dsp_device
       = each_index (set_master_clock_rate 9) [0, 1] short_dsp_device
   \<and> fst (set_master_clock_rate 9 ALL_MBOARDS short_dsp_device) = Inr ()
   \<and> get_master_clock_rate (snd (set_master_clock_rate 9 ALL_MBOARDS short_dsp_device)) 0 = Inr 9
   \<and> get_master_clock_rate (snd (set_master_clock_rate 9 ALL_MBOARDS short_dsp_device)) 1 = Inr 9
   \<and> set_rx_rate (\<lambda>t a. False) 7 ALL_CHANS short_dsp_device
       = each_index (set_rx_rate (\<lambda>t a. False) 7) [0, 1, 2] short_dsp_device
   \<and> fst (set_rx_rate (\<lambda>t a. False) 7 1 (snd (set_rx_rate (\<lambda>t a. False) 7 0 short_dsp_device)))
       = Inl out_of_range
   \<and> fst (set_rx_rate (\<lambda>t a. False) 7 ALL_CHANS short_dsp_device) = Inl out_of_range
   \<and> get_rx_rate (snd (set_rx_rate (\<lambda>t a. False) 7 ALL_CHANS short_dsp_device)) 0 = Inr 7
   \<and> get_rx_rate (snd (set_rx_rate (\<lambda>t a. False) 7 ALL_CHANS short_dsp_device)) 2 = Inr 0"
proof -
  let ?d = short_dsp_device
  let ?ex = "\<lambda>(t::double) (a::double). False"
  have h1: "get_num_mboards ?d \<le> ALL_MBOARDS"
    by (simp add: short_dsp_device_boards ALL_MBOARDS_def)
  have h2: "sum_list (rx_spec_sizes ?d) \<le> ALL_CHANS"
    by (simp add: short_dsp_device_sizes ALL_CHANS_def)
  have h3: "sum_list (tx_spec_sizes ?d) \<le> ALL_CHANS"
    by (simp add: short_dsp_device_sizes ALL_CHANS_def)
  note fo = sentinel_fans_out [OF h1 h2 h3, where rate = 9 and exceeds = ?ex and rx_rate = 7]
  from fo have "fans_out (set_master_clock_rate 9) ALL_MBOARDS (get_num_mboards ?d) ?d"
    by blast
  then have clk: "set_master_clock_rate 9 ALL_MBOARDS ?d
      = each_index (set_master_clock_rate 9) [0, 1] ?d"
    by (simp add: fans_out_def short_dsp_device_boards upt2)
  from fo have "fans_out (set_rx_rate ?ex 7) ALL_CHANS (sum_list (rx_spec_sizes ?d)) ?d"
    by blast
  then have rate: "set_rx_rate ?ex 7 ALL_CHANS ?d = each_index (set_rx_rate ?ex 7) [0, 1, 2] ?d"
    by (simp add: fans_out_def short_dsp_device_sizes upt3)
  have c0: "0 \<noteq> ALL_MBOARDS" "Suc 0 \<noteq> ALL_MBOARDS" "0 \<noteq> ALL_CHANS" "Suc 0 \<noteq> ALL_CHANS"
    by (simp_all add: ALL_MBOARDS_def ALL_CHANS_def)
  have clk_val: "each_index (set_master_clock_rate 9) [0, 1] ?d
      = (Inr (), example_device
     [(''X'', (example_board ''X'' [Aa, Ab] [Aa] [''0''] (\<lambda>k. 0) (\<lambda>k. 0))\<lparr>MBOARD_PROP_CLOCK_RATE := 9\<rparr>),
      (''Y'', (example_board ''Y'' [Aa] [Aa] [''0''] (\<lambda>k. 0) (\<lambda>k. 0))\<lparr>MBOARD_PROP_CLOCK_RATE := 9\<rparr>)])"
    by (simp add: set_master_clock_rate_def c0 short_dsp_device_def device_eval)
  have r0: "set_rx_rate ?ex 7 0 ?d
      = (Inr (), example_device
     [(''X'', (example_board ''X'' [Aa, Ab] [Aa] [''0''] (\<lambda>k. 0) (\<lambda>k. 0))
          \<lparr>MBOARD_PROP_RX_DSP := [(''0'', (example_dsp ''0'')\<lparr>DSP_PROP_HOST_RATE := 7\<rparr>)]\<rparr>),
      (''Y'', example_board ''Y'' [Aa] [Aa] [''0''] (\<lambda>k. 0) (\<lambda>k. 0))])"
    by (simp add: set_rx_rate_def set_rx_rate_chan_def c0 rx_dsp_set_def rx_dsp_get_def
        rx_dsp_obj_def get_rx_rate_def do_samp_rate_warning_message_def
        rx_chan_to_mcp_by_resolve rx_spec_sizes_def short_dsp_device_def device_eval)
  have r1: "set_rx_rate ?ex 7 1 (snd (set_rx_rate ?ex 7 0 ?d))
      = (Inl out_of_range, snd (set_rx_rate ?ex 7 0 ?d))"
    unfolding r0
    by (simp add: set_rx_rate_def set_rx_rate_chan_def c0 rx_dsp_set_def rx_dsp_get_def
        rx_dsp_obj_def get_rx_rate_def do_samp_rate_warning_message_def
        rx_chan_to_mcp_by_resolve rx_spec_sizes_def short_dsp_device_def device_eval)
  have rate_val: "each_index (set_rx_rate ?ex 7) [0, 1, 2] ?d
      = (Inl out_of_range, snd (set_rx_rate ?ex 7 0 ?d))"
    using r1 by (simp add: r0)
  have r1': "fst (set_rx_rate ?ex 7 1 (snd (set_rx_rate ?ex 7 0 ?d))) = Inl out_of_range"
    by (simp only: r1 fst_conv)
  have e1: "fst (set_rx_rate ?ex 7 ALL_CHANS ?d) = Inl out_of_range"
    by (simp only: rate rate_val fst_conv)
  have g0: "get_rx_rate (snd (set_rx_rate ?ex 7 ALL_CHANS ?d)) 0 = Inr 7"
    unfolding rate rate_val snd_conv r0
    by (simp add: rx_dsp_get_def rx_dsp_obj_def get_rx_rate_def
        rx_chan_to_mcp_by_resolve rx_spec_sizes_def device_eval)
  have g2: "get_rx_rate (snd (set_rx_rate ?ex 7 ALL_CHANS ?d)) 2 = Inr 0"
    unfolding rate rate_val snd_conv r0
    by (simp add: rx_dsp_get_def rx_dsp_obj_def get_rx_rate_def
        rx_chan_to_mcp_by_resolve rx_spec_sizes_def device_eval)
  have f1: "fst (set_master_clock_rate 9 ALL_MBOARDS ?d) = Inr ()"
    by (simp only: clk clk_val fst_conv)
  have m0: "get_master_clock_rate (snd (set_master_clock_rate 9 ALL_MBOARDS ?d)) 0 = Inr 9"
    unfolding clk clk_val snd_conv by (simp add: get_master_clock_rate_def device_eval)
  have m1: "get_master_clock_rate (snd (set_master_clock_rate 9 ALL_MBOARDS ?d)) 1 = Inr 9"
    unfolding clk clk_val snd_conv by (simp add: get_master_clock_rate_def device_eval)
  show ?thesis
    by (intro conjI h1 h2 h3 clk f1 m0 m1 rate r1' e1 g0 g2)
qed

section \<open>Properties of the description of the device\<close>

lemma uniform_sum_list:
  "\<forall>m<length ss. ss ! m = s \<Longrightarrow> sum_list ss = length ss * (s::nat)"
proof (induction ss)
  case Nil
  then show ?case by simp
next
  case (Cons a ss)
  from Cons.prems have "a = s" by auto
  moreover from Cons.prems have "\<forall>m<length ss. ss ! m = s" by auto
  ultimately show ?case using Cons.IH by simp
qed

lemma pp_rx_channels_uniform:
  "\<forall>m<get_num_mboards u. rx_spec_sizes u ! m = s \<Longrightarrow>
   m \<le> get_num_mboards u \<Longrightarrow>
   (m < get_num_mboards u \<longrightarrow> ch \<le> (m + 1) * s) \<Longrightarrow>
   (m = get_num_mboards u \<longrightarrow> ch = m * s) \<Longrightarrow>
   pp_rx_channels u m ch buff
     = append_texts (rx_channel_text u) [ch..<get_num_mboards u * s] buff"
proof (induction u m ch buff rule: pp_rx_channels.induct)
  case (1 u m ch buff)
  let ?n = "get_num_mboards u"
  show ?case
  proof (cases "m < ?n")
    case False
    with "1.prems" have "m = ?n" "ch = ?n * s" by simp_all
    then show ?thesis
      by (subst pp_rx_channels.simps) simp
  next
    case True
    then obtain spec where spec: "get_rx_subdev_spec u m = Inr spec"
      and "length spec = rx_spec_sizes u ! m"
      using get_rx_subdev_spec_size by blast
    with True "1.prems"(1) have len: "length spec = s" by simp
    from True "1.prems" have ch: "ch \<le> (m + 1) * s" by simp
    show ?thesis
    proof (cases "ch < (m + 1) * s")
      case inner: True
      have "(m + 1) * s \<le> ?n * s"
        using True by (intro mult_le_mono1) simp
      with inner have lt: "ch < ?n * s" by simp
      then have list: "[ch..<?n * s] = ch # [ch + 1..<?n * s]"
        by (simp add: upt_conv_Cons)
      show ?thesis
      proof (cases "rx_channel_text u ch")
        case (Inl e)
        then show ?thesis
          using True spec inner len by (subst pp_rx_channels.simps) (simp add: list)
      next
        case (Inr line)
        note step = "1.IH"(1) [OF True spec _ Inr]
        have "pp_rx_channels u m (ch + 1) (buff @ line)
                = append_texts (rx_channel_text u) [ch + 1..<?n * s] (buff @ line)"
          using True inner "1.prems" len
          by (intro step) simp_all
        then show ?thesis
          using True spec inner len Inr by (subst pp_rx_channels.simps) (simp add: list)
      qed
    next
      case outer: False
      with ch have eq: "ch = (m + 1) * s" by simp
      note next_board = "1.IH"(2) [OF True spec]
      have "pp_rx_channels u (m + 1) ch buff
              = append_texts (rx_channel_text u) [ch..<?n * s] buff"
      proof (rule next_board)
        show "\<not> ch < (m + 1) * length spec" using outer len by simp
        show "\<forall>m<?n. rx_spec_sizes u ! m = s" by (rule "1.prems"(1))
        show "m + 1 \<le> ?n" using True by simp
        show "m + 1 < ?n \<longrightarrow> ch \<le> (m + 1 + 1) * s" using eq by simp
        show "m + 1 = ?n \<longrightarrow> ch = (m + 1) * s" using eq by blast
      qed
      then show ?thesis
        using True spec outer len by (subst pp_rx_channels.simps) simp
    qed
  qed
qed

lemma pp_tx_channels_uniform:
  "\<forall>m<get_num_mboards u. tx_spec_sizes u ! m = s \<Longrightarrow>
   m \<le> get_num_mboards u \<Longrightarrow>
   (m < get_num_mboards u \<longrightarrow> ch \<le> (m + 1) * s) \<Longrightarrow>
   (m = get_num_mboards u \<longrightarrow> ch = m * s) \<Longrightarrow>
   pp_tx_channels u m ch buff
     = append_texts (tx_channel_text u) [ch..<get_num_mboards u * s] buff"
proof (induction u m ch buff rule: pp_tx_channels.induct)
  case (1 u m ch buff)
  let ?n = "get_num_mboards u"
  show ?case
  proof (cases "m < ?n")
    case False
    with "1.prems" have "m = ?n" "ch = ?n * s" by simp_all
    then show ?thesis
      by (subst pp_tx_channels.simps) simp
  next
    case True
    then obtain spec where spec: "get_tx_subdev_spec u m = Inr spec"
      and "length spec = tx_spec_sizes u ! m"
      using get_tx_subdev_spec_size by blast
    with True "1.prems"(1) have len: "length spec = s" by simp
    from True "1.prems" have ch: "ch \<le> (m + 1) * s" by simp
    show ?thesis
    proof (cases "ch < (m + 1) * s")
      case inner: True
      have "(m + 1) * s \<le> ?n * s"
        using True by (intro mult_le_mono1) simp
      with inner have lt: "ch < ?n * s" by simp
      then have list: "[ch..<?n * s] = ch # [ch + 1..<?n * s]"
        by (simp add: upt_conv_Cons)
      show ?thesis
      proof (cases "tx_channel_text u ch")
        case (Inl e)
        then show ?thesis
          using True spec inner len by (subst pp_tx_channels.simps) (simp add: list)
      next
        case (Inr line)
        note step = "1.IH"(1) [OF True spec _ Inr]
        have "pp_tx_channels u m (ch + 1) (buff @ line)
                = append_texts (tx_channel_text u) [ch + 1..<?n * s] (buff @ line)"
          using True inner "1.prems" len
          by (intro step) simp_all
        then show ?thesis
          using True spec inner len Inr by (subst pp_tx_channels.simps) (simp add: list)
      qed
    next
      case outer: False
      with ch have eq: "ch = (m + 1) * s" by simp
      note next_board = "1.IH"(2) [OF True spec]
      have "pp_tx_channels u (m + 1) ch buff
              = append_texts (tx_channel_text u) [ch..<?n * s] buff"
      proof (rule next_board)
        show "\<not> ch < (m + 1) * length spec" using outer len by simp
        show "\<forall>m<?n. tx_spec_sizes u ! m = s" by (rule "1.prems"(1))
        show "m + 1 \<le> ?n" using True by simp
        show "m + 1 < ?n \<longrightarrow> ch \<le> (m + 1 + 1) * s" using eq by simp
        show "m + 1 = ?n \<longrightarrow> ch = (m + 1) * s" using eq by blast
      qed
      then show ?thesis
        using True spec outer len by (subst pp_tx_channels.simps) simp
    qed
  qed
qed


subsection \<open>The channels of the description\<close>

text \<open>
  Claim C10. For every device whose boards all have an RX subdev spec of one size \<open>srx\<close>
  and a TX subdev spec of one size \<open>stx\<close>, the number of RX channels is the number of
  boards times \<open>srx\<close>, the number of TX channels is the number of boards times \<open>stx\<close>, and
  the RX loop of \<open>get_pp_string\<close>, whose bound for board \<open>m\<close> is \<open>(m + 1)\<close> times the size
  of the spec of board \<open>m\<close>, appends the text of each flat RX channel index from 0 to the
  number of RX channels minus one, in increasing order, each index once and none at or
  above the count (up to the first index whose text throws, if any); the TX loop does the
  same for the TX channels; and \<open>get_pp_string\<close> is the header and the board lines
  followed by these two sequences.
\<close>

theorem get_pp_string_uniform_sizes:
  assumes "\<forall>m<get_num_mboards u. rx_spec_sizes u ! m = srx"
    and "\<forall>m<get_num_mboards u. tx_spec_sizes u ! m = stx"
  shows "get_rx_num_channels u = Inr (get_num_mboards u * srx)
       \<and> get_tx_num_channels u = Inr (get_num_mboards u * stx)
       \<and> pp_rx_channels u 0 0 buff
           = append_texts (rx_channel_text u) [0..<get_num_mboards u * srx] buff
       \<and> pp_tx_channels u 0 0 buff
           = append_texts (tx_channel_text u) [0..<get_num_mboards u * stx] buff
       \<and> get_pp_string u =
           (case pp_mboards u 0
                   ((if get_num_mboards u > 1 then ''Multi'' else ''Single'') @ '' USRP:''
                     @ [CHR 0x0A] @ ''  Device: '' @ DEVICE_PROP_NAME u @ [CHR 0x0A]) of
              Inl e \<Rightarrow> Inl e
            | Inr buff1 \<Rightarrow>
                (case append_texts (rx_channel_text u) [0..<get_num_mboards u * srx] buff1 of
                   Inl e \<Rightarrow> Inl e
                 | Inr buff2 \<Rightarrow>
                     append_texts (tx_channel_text u) [0..<get_num_mboards u * stx] buff2))"
proof -
  have nrx: "get_rx_num_channels u = Inr (get_num_mboards u * srx)"
    using uniform_sum_list [of "rx_spec_sizes u" srx] assms(1)
    by (simp add: get_rx_num_channels_sum)
  have ntx: "get_tx_num_channels u = Inr (get_num_mboards u * stx)"
    using uniform_sum_list [of "tx_spec_sizes u" stx] assms(2)
    by (simp add: get_tx_num_channels_sum)
  have rx: "pp_rx_channels u 0 0 b
      = append_texts (rx_channel_text u) [0..<get_num_mboards u * srx] b" for b
    by (rule pp_rx_channels_uniform [OF assms(1)]) simp_all
  have tx: "pp_tx_channels u 0 0 b
      = append_texts (tx_channel_text u) [0..<get_num_mboards u * stx] b" for b
    by (rule pp_tx_channels_uniform [OF assms(2)]) simp_all
  have pp: "get_pp_string u =
           (case pp_mboards u 0
                   ((if get_num_mboards u > 1 then ''Multi'' else ''Single'') @ '' USRP:''
                     @ [CHR 0x0A] @ ''  Device: '' @ DEVICE_PROP_NAME u @ [CHR 0x0A]) of
              Inl e \<Rightarrow> Inl e
            | Inr buff1 \<Rightarrow>
                (case append_texts (rx_channel_text u) [0..<get_num_mboards u * srx] buff1 of
                   Inl e \<Rightarrow> Inl e
                 | Inr buff2 \<Rightarrow>
                     append_texts (tx_channel_text u) [0..<get_num_mboards u * stx] buff2))"
    unfolding get_pp_string_def Let_def rx tx ..
  from nrx ntx rx [of buff] tx [of buff] pp show ?thesis
    by (intro conjI)
qed

text \<open>A device of two boards, each with two RX channels and one TX channel.\<close>

definition uniform_device :: "(nat, nat) usrp" where
  "uniform_device = example_device
     [(''X'', example_board ''X'' [Aa, Ab] [Aa] [''0'', ''1''] (\<lambda>k. 0) (\<lambda>k. 0)),
      (''Y'', example_board ''Y'' [Ab, Aa] [Ab] [''0'', ''1''] (\<lambda>k. 0) (\<lambda>k. 0))]"

definition uniform_device_text :: string where
  "uniform_device_text =
     ''Multi USRP:'' @ [CHR 0x0A] @
     ''  Device: Example'' @ [CHR 0x0A] @
     ''  Mboard 0: X'' @ [CHR 0x0A] @
     ''  Mboard 1: Y'' @ [CHR 0x0A] @
     ''  RX Channel: 0'' @ [CHR 0x0A] @
     ''    RX DSP: 0'' @ [CHR 0x0A] @
     ''    RX Dboard: Basic RX'' @ [CHR 0x0A] @
     ''    RX Subdev: Subdev a'' @ [CHR 0x0A] @
     ''  RX Channel: 1'' @ [CHR 0x0A] @
     ''    RX DSP: 1'' @ [CHR 0x0A] @
     ''    RX Dboard: Basic RX'' @ [CHR 0x0A] @
     ''    RX Subdev: Subdev b'' @ [CHR 0x0A] @
     ''  RX Channel: 2'' @ [CHR 0x0A] @
     ''    RX DSP: 0'' @ [CHR 0x0A] @
     ''    RX Dboard: Basic RX'' @ [CHR 0x0A] @
     ''    RX Subdev: Subdev b'' @ [CHR 0x0A] @
     ''  RX Channel: 3'' @ [CHR 0x0A] @
     ''    RX DSP: 1'' @ [CHR 0x0A] @
     ''    RX Dboard: Basic RX'' @ [CHR 0x0A] @
     ''    RX Subdev: Subdev a'' @ [CHR 0x0A] @
     ''  TX Channel: 0'' @ [CHR 0x0A] @
     ''    TX DSP: 0'' @ [CHR 0x0A] @
     ''    TX Dboard: Basic TX'' @ [CHR 0x0A] @
     ''    TX Subdev: Subdev a'' @ [CHR 0x0A] @
     ''  TX Channel: 1'' @ [CHR 0x0A] @
     ''    TX DSP: 0'' @ [CHR 0x0A] @
     ''    TX Dboard: Basic TX'' @ [CHR 0x0A] @
     ''    TX Subdev: Subdev b'' @ [CHR 0x0A]"

lemma show_dec_digit: "n < 10 \<Longrightarrow> show_dec n = [digit_char n]"
  by (subst show_dec.simps) simp

lemma uniform_device_boards: "get_num_mboards uniform_device = 2"
  by (simp add: uniform_device_def device_eval)

lemma uniform_device_sizes:
  "rx_spec_sizes uniform_device = [2, 2]" "tx_spec_sizes uniform_device = [1, 1]"
  by (simp_all add: rx_spec_sizes_def tx_spec_sizes_def uniform_device_boards upt2)
     (simp_all add: uniform_device_def device_eval)

lemma upt4: "[0..<4] = [0, 1, 2, 3]"
  by (simp add: upt_rec)

lemmas channel_eval =
  rx_dsp_get_def rx_dsp_obj_def rx_dboard_get_def rx_dboard_obj_def rx_dboard_props_def
  rx_subdev_get_def tx_dsp_get_def tx_dsp_obj_def tx_dboard_get_def tx_dboard_obj_def
  tx_dboard_props_def tx_subdev_get_def rx_chan_to_mcp_by_resolve tx_chan_to_mcp_by_resolve
  example_dboard_def Aa_def Ab_def

lemma uniform_device_rx_texts:
  "rx_channel_text uniform_device 0
     = Inr (''  RX Channel: 0'' @ [CHR 0x0A] @ ''    RX DSP: 0'' @ [CHR 0x0A] @
            ''    RX Dboard: Basic RX'' @ [CHR 0x0A] @ ''    RX Subdev: Subdev a'' @ [CHR 0x0A])"
  "rx_channel_text uniform_device 1
     = Inr (''  RX Channel: 1'' @ [CHR 0x0A] @ ''    RX DSP: 1'' @ [CHR 0x0A] @
            ''    RX Dboard: Basic RX'' @ [CHR 0x0A] @ ''    RX Subdev: Subdev b'' @ [CHR 0x0A])"
  "rx_channel_text uniform_device 2
     = Inr (''  RX Channel: 2'' @ [CHR 0x0A] @ ''    RX DSP: 0'' @ [CHR 0x0A] @
            ''    RX Dboard: Basic RX'' @ [CHR 0x0A] @ ''    RX Subdev: Subdev b'' @ [CHR 0x0A])"
  "rx_channel_text uniform_device 3
     = Inr (''  RX Channel: 3'' @ [CHR 0x0A] @ ''    RX DSP: 1'' @ [CHR 0x0A] @
            ''    RX Dboard: Basic RX'' @ [CHR 0x0A] @ ''    RX Subdev: Subdev a'' @ [CHR 0x0A])"
  by (simp_all add: rx_channel_text_def channel_eval rx_spec_sizes_def tx_spec_sizes_def
        show_dec_digit digit_char_def uniform_device_def device_eval)

lemma uniform_device_tx_texts:
  "tx_channel_text uniform_device 0
     = Inr (''  TX Channel: 0'' @ [CHR 0x0A] @ ''    TX DSP: 0'' @ [CHR 0x0A] @
            ''    TX Dboard: Basic TX'' @ [CHR 0x0A] @ ''    TX Subdev: Subdev a'' @ [CHR 0x0A])"
  "tx_channel_text uniform_device 1
     = Inr (''  TX Channel: 1'' @ [CHR 0x0A] @ ''    TX DSP: 0'' @ [CHR 0x0A] @
            ''    TX Dboard: Basic TX'' @ [CHR 0x0A] @ ''    TX Subdev: Subdev b'' @ [CHR 0x0A])"
  by (simp_all add: tx_channel_text_def channel_eval rx_spec_sizes_def tx_spec_sizes_def
        show_dec_digit digit_char_def uniform_device_def device_eval)

lemma uniform_device_name: "DEVICE_PROP_NAME uniform_device = ''Example''"
  by (simp add: uniform_device_def example_device_def)

lemma uniform_device_names:
  "get_mboard_name uniform_device 0 = Inr ''X''"
  "get_mboard_name uniform_device (Suc 0) = Inr ''Y''"
  by (simp_all add: get_mboard_name_def uniform_device_def device_eval)

lemma uniform_device_mboards:
  "pp_mboards uniform_device 0 buff
     = Inr (buff @ ''  Mboard 0: X'' @ [CHR 0x0A] @ ''  Mboard 1: Y'' @ [CHR 0x0A])"
  by (simp add: pp_mboards.simps uniform_device_boards uniform_device_names show_dec_digit
        digit_char_def)

theorem get_pp_string_uniform_sizes_witness:
  "rx_spec_sizes uniform_device = [2, 2]
   \<and> tx_spec_sizes uniform_device = [1, 1]
   \<and> get_rx_num_channels uniform_device = Inr 4
   \<and> get_tx_num_channels uniform_device = Inr 2
   \<and> pp_rx_channels uniform_device 0 0 []
       = append_texts (rx_channel_text uniform_device) [0, 1, 2, 3] []
   \<and> pp_tx_channels uniform_device 0 0 []
       = append_texts (tx_channel_text uniform_device) [0, 1] []
   \<and> get_pp_string uniform_device = Inr uniform_device_text"
proof -
  let ?d = uniform_device
  have rxu: "\<forall>m<get_num_mboards ?d. rx_spec_sizes ?d ! m = 2"
    by (simp add: uniform_device_boards uniform_device_sizes less_Suc_eq numeral_2_eq_2)
  have txu: "\<forall>m<get_num_mboards ?d. tx_spec_sizes ?d ! m = 1"
    by (simp add: uniform_device_boards uniform_device_sizes less_Suc_eq numeral_2_eq_2)
  note all = get_pp_string_uniform_sizes [OF rxu txu, of "[]"]
  have four: "get_num_mboards ?d * 2 = 4" and two: "get_num_mboards ?d * 1 = 2"
    by (simp_all add: uniform_device_boards)
  from all have a: "get_rx_num_channels ?d = Inr 4"
    unfolding four by (rule conjunct1)
  from all have b: "get_tx_num_channels ?d = Inr 2"
    unfolding two by blast
  from all have c: "pp_rx_channels ?d 0 0 [] = append_texts (rx_channel_text ?d) [0, 1, 2, 3] []"
    unfolding four two upt4 upt2 by blast
  from all have d: "pp_tx_channels ?d 0 0 [] = append_texts (tx_channel_text ?d) [0, 1] []"
    unfolding four two upt4 upt2 by blast
  from all have "get_pp_string ?d =
           (case pp_mboards ?d 0
                   ((if get_num_mboards ?d > 1 then ''Multi'' else ''Single'') @ '' USRP:''
                     @ [CHR 0x0A] @ ''  Device: '' @ DEVICE_PROP_NAME ?d @ [CHR 0x0A]) of
              Inl e \<Rightarrow> Inl e
            | Inr buff1 \<Rightarrow>
                (case append_texts (rx_channel_text ?d) [0, 1, 2, 3] buff1 of
                   Inl e \<Rightarrow> Inl e
                 | Inr buff2 \<Rightarrow> append_texts (tx_channel_text ?d) [0, 1] buff2))"
    unfolding four two upt4 upt2 by blast
  also have "\<dots> = Inr uniform_device_text"
    by (simp add: uniform_device_mboards uniform_device_rx_texts [unfolded One_nat_def]
          uniform_device_tx_texts [unfolded One_nat_def] uniform_device_boards
          uniform_device_text_def uniform_device_name)
  finally have e: "get_pp_string ?d = Inr uniform_device_text" .
  show ?thesis
    by (intro conjI uniform_device_sizes a b c d e)
qed


text \<open>
  Without the hypothesis the loop can miss a channel: for two boards with two and one RX
  channels the bound of the second board is \<open>2 * 1\<close>, which the counter has reached
  already, so the third of the three RX channels is not described.
\<close>

definition uneven_device :: "(nat, nat) usrp" where
  "uneven_device = example_device
     [(''X'', example_board ''X'' [Aa, Ab] [Aa] [''0'', ''1''] (\<lambda>k. 0) (\<lambda>k. 0)),
      (''Y'', example_board ''Y'' [Aa] [Aa] [''0'', ''1''] (\<lambda>k. 0) (\<lambda>k. 0))]"

lemma uneven_device_boards: "get_num_mboards uneven_device = 2"
  by (simp add: uneven_device_def device_eval)

lemma uneven_device_specs:
  "get_rx_subdev_spec uneven_device 0 = Inr [Aa, Ab]"
  "get_rx_subdev_spec uneven_device (Suc 0) = Inr [Aa]"
  by (simp_all add: uneven_device_def device_eval)

lemma uneven_device_sizes: "rx_spec_sizes uneven_device = [2, 1]"
  by (simp add: rx_spec_sizes_def uneven_device_boards upt2 uneven_device_specs)

lemma pp_rx_channels_uneven_sizes:
  "get_rx_num_channels uneven_device = Inr 3
   \<and> pp_rx_channels uneven_device 0 0 buff
       = append_texts (rx_channel_text uneven_device) [0, 1] buff"
  by (auto simp: get_rx_num_channels_sum uneven_device_sizes pp_rx_channels.simps
        uneven_device_boards uneven_device_specs split: sum.splits)

section \<open>Properties of the sample rate setters\<close>

lemma bit_length_numeral [simp]:
  "bit_length 0 = 0"
  "bit_length (Suc 0) = 1"
  "bit_length (numeral (Num.Bit0 k)) = Suc (bit_length (numeral k))"
  "bit_length (numeral (Num.Bit1 k)) = Suc (bit_length (numeral k))"
  by (subst bit_length.simps, simp add: numeral_Bit0_div_2 numeral_Bit1_div_2)+

subsection \<open>The value of a binary64 number\<close>

lemma finite_value_power_int: "finite_value m e = of_int m * power_int 2 e"
proof (cases "0 \<le> e")
  case True
  then show ?thesis
    by (simp add: finite_value_def power_int_def)
next
  case False
  then show ?thesis
    by (simp add: finite_value_def power_int_def power_divide)
qed

lemma finite_value_scale:
  assumes "e' \<le> e"
  shows "finite_value (m * 2 ^ nat (e - e')) e' = finite_value m e"
proof -
  have "power_int (2::rat) e = power_int 2 ((e - e') + e')"
    by simp
  also have "\<dots> = power_int 2 (e - e') * power_int 2 e'"
    by (rule power_int_add) simp
  also have "power_int (2::rat) (e - e') = 2 ^ nat (e - e')"
    using assms by (simp add: power_int_def)
  finally show ?thesis
    by (simp add: finite_value_power_int)
qed

lemma finite_value_less:
  "finite_value b e < finite_value a e \<longleftrightarrow> b < a"
proof -
  have "0 < power_int (2::rat) e"
    by (simp add: zero_less_power_int)
  then have "\<not> power_int (2::rat) e \<le> 0"
    by (simp only: not_le)
  then show ?thesis
    unfolding finite_value_power_int by (simp add: mult_less_cancel_right)
qed

lemma finite_value_minus:
  "finite_value a e - finite_value b e = finite_value (a - b) e"
  by (simp add: finite_value_power_int left_diff_distrib)

lemma fp_gt_finite:
  "fp_gt (Finite a e) (Finite b f) \<longleftrightarrow> finite_value b f < finite_value a e"
proof -
  let ?e = "min e f"
  have a: "finite_value a e = finite_value (a * 2 ^ nat (e - ?e)) ?e"
    by (rule finite_value_scale [symmetric]) simp
  have b: "finite_value b f = finite_value (b * 2 ^ nat (f - ?e)) ?e"
    by (rule finite_value_scale [symmetric]) simp
  show ?thesis
    unfolding a b finite_value_less by (simp add: Let_def)
qed

lemma finite_value_diff:
  "finite_value m1 e1 - finite_value m2 e2
     = finite_value (m1 * 2 ^ nat (e1 - min e1 e2) - m2 * 2 ^ nat (e2 - min e1 e2)) (min e1 e2)"
proof -
  let ?e = "min e1 e2"
  have a: "finite_value m1 e1 = finite_value (m1 * 2 ^ nat (e1 - ?e)) ?e"
    by (rule finite_value_scale [symmetric]) simp
  have b: "finite_value m2 e2 = finite_value (m2 * 2 ^ nat (e2 - ?e)) ?e"
    by (rule finite_value_scale [symmetric]) simp
  show ?thesis
    unfolding a b finite_value_minus ..
qed

lemma finite_value_abs: "finite_value \<bar>m\<bar> e = \<bar>finite_value m e\<bar>"
  by (simp add: finite_value_power_int abs_mult)

lemma decode_exponent:
  assumes "decode w = Finite m e"
  shows "- 1074 \<le> e \<and> e \<le> 971"
proof -
  define b where "b = (unat w div 2 ^ 52) mod 2 ^ 11"
  have "b < 2048"
    by (simp add: b_def)
  moreover from assms have "b = 0 \<and> e = - 1074 \<or> b \<noteq> 0 \<and> b \<noteq> 2047 \<and> e = int b - 1075"
    by (auto simp: decode_def Let_def b_def split: if_splits)
  ultimately show ?thesis
    by auto
qed

lemma fp_round_exact:
  assumes "bit_length (nat \<bar>m\<bar>) \<le> 53" and "- 1074 \<le> e" and "e \<le> 971"
  shows "fp_round m e = Finite m e"
  using assms by (auto simp: fp_round_def Let_def)

text \<open>
  When the difference of two finite numbers needs no rounding, the test compares the
  exact difference with 1; otherwise it compares the rounded difference.
\<close>

lemma samp_rate_deviates_exact:
  assumes "decode target_rate = Finite m1 e1" and "decode actual_rate = Finite m2 e2"
    and "bit_length (nat \<bar>m1 * 2 ^ nat (e1 - min e1 e2) - m2 * 2 ^ nat (e2 - min e1 e2)\<bar>) \<le> 53"
  shows "samp_rate_deviates target_rate actual_rate
           \<longleftrightarrow> 1 < \<bar>finite_value m1 e1 - finite_value m2 e2\<bar>"
proof -
  let ?e = "min e1 e2"
  let ?m = "m1 * 2 ^ nat (e1 - ?e) - m2 * 2 ^ nat (e2 - ?e)"
  from decode_exponent [OF assms(1)] decode_exponent [OF assms(2)]
  have e: "- 1074 \<le> ?e" "?e \<le> 971"
    by (auto simp: min_def)
  have sub: "fp_sub (decode target_rate) (decode actual_rate) = Finite ?m ?e"
    using fp_round_exact [OF assms(3) e] by (simp add: assms(1,2) Let_def)
  have one: "decode max_allowed_error = Finite 4503599627370496 (- 52)"
    by (simp add: decode_def max_allowed_error_def Let_def)
  have v: "finite_value 4503599627370496 (- 52) = 1"
    by (simp add: finite_value_def)
  show ?thesis
    unfolding samp_rate_deviates_def sub one fp_abs.simps fp_gt_finite finite_value_abs
      finite_value_diff v ..
qed

subsection \<open>A rate that is set is the rate that is read\<close>











subsection \<open>The diagnostic of a rate that was not achieved\<close>








section \<open>Resolutions after later calls\<close>

text \<open>
  What a client of the file can do to the registry after two registrations: register
  again, and construct managers, in any order. \<open>Register\<close> is a call of
  \<^verbatim>\<open>manager::register_subdevs\<close> and \<open>Construct\<close> a call of the constructor
  \<^verbatim>\<open>manager::manager\<close>, whose outcome is dropped here and whose effect on the static
  storage is kept. There is no other function in the file that writes the two maps.
\<close>

datatype client_call =
    Register dboard_id_t dboard_ctor_t prop_names_t
  | Construct dboard_id_t dboard_id_t

fun run_call :: "client_call \<Rightarrow> ('k, 'v) world \<Rightarrow> ('k, 'v) world" where
  "run_call (Register i c n) w = w\<lparr>statics := register_subdevs i c n (statics w)\<rparr>"
| "run_call (Construct rx_id tx_id) w = snd (manager_make rx_id tx_id w)"

definition run_calls :: "client_call list \<Rightarrow> ('k, 'v) world \<Rightarrow> ('k, 'v) world" where
  "run_calls calls w = fold run_call calls w"

text \<open>A call that registers neither the code \<open>i\<close> nor the constructor \<open>c\<close>.\<close>

fun leaves_alone :: "dboard_id_t \<Rightarrow> dboard_ctor_t \<Rightarrow> client_call \<Rightarrow> bool" where
  "leaves_alone i c (Register i' c' n') = (i' \<noteq> i \<and> c' \<noteq> c)"
| "leaves_alone i c (Construct rx_id tx_id) = True"

text \<open>What makes the code \<open>i\<close> resolve to \<open>c\<close> and \<open>n\<close> in a registry.\<close>

definition resolves_to :: "registry \<Rightarrow> dboard_id_t \<Rightarrow> dboard_ctor_t \<Rightarrow> prop_names_t \<Rightarrow> bool" where
  "resolves_to r i c n =
     (called r \<and> map_of (id_to_ctor_map r) i = Some c \<and> map_of (ctor_to_names_map r) c = Some n)"

lemma map_of_dict_index:
  "map_of d k' = Some v \<Longrightarrow> map_of (snd (dict_index d k dflt)) k' = Some v"
  by (auto simp: dict_index_def split: option.splits)

lemma manager_make_statics:
  assumes "called (statics w)"
  shows "\<exists>cn. statics (snd (manager_make rx_id tx_id w)) = (statics w)\<lparr>ctor_to_names_map := cn\<rparr>
            \<and> (\<forall>c n. map_of (ctor_to_names_map (statics w)) c = Some n \<longrightarrow> map_of cn c = Some n)"
proof -
  have r: "register_internal_dboards (statics w) = statics w"
    using assms by (rule register_internal_dboards_latched)
  show ?thesis
  proof (cases "get_dboard_ctor (statics w) rx_id ''rx''")
    case (Inl e)
    then show ?thesis
      by (intro exI [of _ "ctor_to_names_map (statics w)"])
         (simp add: manager_make_def Let_def r)
  next
    case rx: (Inr rx_ctor)
    show ?thesis
    proof (cases "get_dboard_ctor (statics w) tx_id ''tx''")
      case (Inl e)
      then show ?thesis
        using rx
        by (intro exI [of _ "ctor_to_names_map (statics w)"])
           (simp add: manager_make_def Let_def r)
    next
      case tx: (Inr tx_ctor)
      show ?thesis
      proof (cases "rx_ctor = tx_ctor")
        case True
        then show ?thesis
          using rx tx
          by (intro exI [of _ "snd (dict_index (ctor_to_names_map (statics w)) rx_ctor [])"])
             (simp add: manager_make_def Let_def r split_beta map_of_dict_index)
      next
        case False
        then show ?thesis
          using rx tx
          by (intro exI [of _ "snd (dict_index
                  (snd (dict_index (ctor_to_names_map (statics w)) rx_ctor [])) tx_ctor [])"])
             (simp add: manager_make_def Let_def r split_beta map_of_dict_index)
      qed
    qed
  qed
qed

lemma run_call_resolves_to:
  assumes "resolves_to (statics w) i c n" and "leaves_alone i c call"
  shows "resolves_to (statics (run_call call w)) i c n"
proof (cases call)
  case (Register i' c' n')
  then show ?thesis
    using assms
    by (auto simp: resolves_to_def register_subdevs_latched map_of_dict_assign_other)
next
  case (Construct rx_id tx_id)
  from assms(1) have "called (statics w)"
    by (simp add: resolves_to_def)
  from manager_make_statics [OF this, of rx_id tx_id] show ?thesis
    using assms(1) Construct by (auto simp: resolves_to_def)
qed

lemma run_calls_resolves_to:
  "resolves_to (statics w) i c n \<Longrightarrow> list_all (leaves_alone i c) calls \<Longrightarrow>
     resolves_to (statics (run_calls calls w)) i c n"
  unfolding run_calls_def
  by (induction calls arbitrary: w) (simp_all add: run_call_resolves_to)

lemma run_call_keys:
  assumes "called (statics w)"
  shows "called (statics (run_call call w))
       \<and> set (map fst (id_to_ctor_map (statics w)))
           \<subseteq> set (map fst (id_to_ctor_map (statics (run_call call w))))
       \<and> (distinct (map fst (id_to_ctor_map (statics w)))
            \<longrightarrow> distinct (map fst (id_to_ctor_map (statics (run_call call w)))))"
proof (cases call)
  case (Register i' c' n')
  then show ?thesis
    using assms by (auto simp: register_subdevs_latched keys_dict_assign)
next
  case (Construct rx_id tx_id)
  from manager_make_statics [OF assms, of rx_id tx_id] show ?thesis
    using assms Construct by auto
qed

lemma run_calls_keys:
  "called (statics w) \<Longrightarrow>
     called (statics (run_calls calls w))
   \<and> set (map fst (id_to_ctor_map (statics w)))
       \<subseteq> set (map fst (id_to_ctor_map (statics (run_calls calls w))))
   \<and> (distinct (map fst (id_to_ctor_map (statics w)))
        \<longrightarrow> distinct (map fst (id_to_ctor_map (statics (run_calls calls w)))))"
  unfolding run_calls_def
proof (induction calls arbitrary: w)
  case Nil
  then show ?case by simp
next
  case (Cons call calls)
  from run_call_keys [OF Cons.prems, of call] Cons.IH [of "run_call call w"]
  show ?case by auto
qed


subsection \<open>Two registrations of one code\<close>

text \<open>The code 7 registered twice, and then the code 8 with the constructor of the second registration.\<close>

definition twice_registered :: registry where
  "twice_registered =
     register_subdevs 7 (extern_make 2) [''y'', ''z'']
       (register_subdevs 7 (extern_make 1) [''x''] fresh_registry)"

definition then_other_code :: registry where
  "then_other_code = register_subdevs 8 (extern_make 2) [''w''] twice_registered"

lemma twice_registered_value:
  "twice_registered =
     \<lparr>called = True,
      id_to_ctor_map =
        [(ID_NONE, basic_rx_make), (ID_BASIC_TX, basic_tx_make), (ID_BASIC_RX, basic_rx_make),
         (7, extern_make 2)],
      ctor_to_names_map =
        [(basic_tx_make, ['''']), (basic_rx_make, [''a'', ''b'', ''ab'']),
         (extern_make 1, [''x'']), (extern_make 2, [''y'', ''z''])]\<rparr>"
  by (simp add: twice_registered_def fresh_registry_def register_subdevs_unfold
      register_internal_dboards_unlatched register_internal_dboards_latched
      ID_NONE_def ID_BASIC_TX_def ID_BASIC_RX_def)

lemma then_other_code_value:
  "then_other_code =
     \<lparr>called = True,
      id_to_ctor_map =
        [(ID_NONE, basic_rx_make), (ID_BASIC_TX, basic_tx_make), (ID_BASIC_RX, basic_rx_make),
         (7, extern_make 2), (8, extern_make 2)],
      ctor_to_names_map =
        [(basic_tx_make, ['''']), (basic_rx_make, [''a'', ''b'', ''ab'']),
         (extern_make 1, [''x'']), (extern_make 2, [''w''])]\<rparr>"
  by (simp add: then_other_code_def twice_registered_value register_subdevs_latched
      ID_NONE_def ID_BASIC_TX_def ID_BASIC_RX_def)

text \<open>
  Claim C2, as stated, fails: the names are filed under the constructor, not under the
  code. After two registrations of the code 7, the second with the constructor
  \<open>extern_make 2\<close> and the names \<open>y\<close> and \<open>z\<close>, the code resolves to these; once the
  code 8 has been registered with the same constructor and the name \<open>w\<close>, the code 7
  resolves to that constructor and the name \<open>w\<close>, and a manager built for the code 7
  makes one instance, for \<open>w\<close>.
\<close>

theorem later_registration_replaces_names:
  "get_dboard_ctor twice_registered 7 ''rx'' = Inr (extern_make 2)
   \<and> fst (dict_index (ctor_to_names_map twice_registered) (extern_make 2) []) = [''y'', ''z'']
   \<and> get_dboard_ctor then_other_code 7 ''rx'' = Inr (extern_make 2)
   \<and> fst (dict_index (ctor_to_names_map then_other_code) (extern_make 2) []) = [''w'']
   \<and> fst (dict_index (ctor_to_names_map then_other_code) (extern_make 2) []) \<noteq> [''y'', ''z'']
   \<and> map made_for (instances (snd (manager_make 7 7
         (\<lparr>statics = then_other_code, instances = [], iface_calls = []\<rparr> :: (nat, nat) world))))
       = [''w'']"
  by (simp add: twice_registered_value then_other_code_value get_dboard_ctor_def dict_index_def
      manager_make_def register_internal_dboards_latched Let_def call_ctor_def new_driver_def
      ID_NONE_def ID_BASIC_TX_def ID_BASIC_RX_def)

text \<open>
  Claim C2, amended. For every identity code \<open>i\<close> and every state of the static storage,
  after \<open>register_subdevs i c1 n1\<close> followed by \<open>register_subdevs i c2 n2\<close>, and then any
  sequence of further registrations and manager constructions in which neither the code
  \<open>i\<close> nor the constructor \<open>c2\<close> is registered again, the code \<open>i\<close> resolves to the second
  registration: the seeding that a resolution starts with changes nothing,
  \<open>get_dboard_ctor\<close> returns \<open>c2\<close>, the names read for \<open>c2\<close> are \<open>n2\<close>, and a manager
  constructed for \<open>i\<close> makes its instances with \<open>c2\<close>, one for each entry of \<open>n2\<close>, and
  leaves the storage as it is. The second registration adds no entry for \<open>i\<close>; a table
  of codes without duplicate keys stays without; and every code registered at the start
  is still registered at the end: no call removes an entry.
\<close>

theorem later_resolutions_yield_second_registration:
  assumes "list_all (leaves_alone i c2) later"
  shows "(let w1 = w\<lparr>statics := register_subdevs i c1 n1 (statics w)\<rparr>;
              w2 = w1\<lparr>statics := register_subdevs i c2 n2 (statics w1)\<rparr>;
              w3 = run_calls later w2;
              r3 = statics w3
          in register_internal_dboards r3 = r3
           \<and> get_dboard_ctor r3 i xx = Inr c2
           \<and> dict_index (ctor_to_names_map r3) c2 [] = (n2, ctor_to_names_map r3)
           \<and> fst (manager_make i i w3)
               = Inr (fst (make_xcvr_subdevs c2 n2 \<lparr>rx_dboards = [], tx_dboards = []\<rparr>
                        (instances w3)))
           \<and> instances (snd (manager_make i i w3)) = instances w3 @ map (new_driver c2) n2
           \<and> statics (snd (manager_make i i w3)) = r3
           \<and> get_keys (id_to_ctor_map (statics w2)) = get_keys (id_to_ctor_map (statics w1))
           \<and> (distinct (get_keys (id_to_ctor_map (statics w)))
                \<longrightarrow> distinct (get_keys (id_to_ctor_map r3)))
           \<and> set (get_keys (id_to_ctor_map (statics w))) \<subseteq> set (get_keys (id_to_ctor_map r3)))"
proof -
  define r0 where "r0 = register_internal_dboards (statics w)"
  define w1 where "w1 = w\<lparr>statics := register_subdevs i c1 n1 (statics w)\<rparr>"
  define w2 where "w2 = w1\<lparr>statics := register_subdevs i c2 n2 (statics w1)\<rparr>"
  define w3 where "w3 = run_calls later w2"
  define r3 where "r3 = statics w3"
  have r1: "statics w1 = r0\<lparr>id_to_ctor_map := dict_assign (id_to_ctor_map r0) i c1,
                             ctor_to_names_map := dict_assign (ctor_to_names_map r0) c1 n1\<rparr>"
    by (simp add: w1_def r0_def register_subdevs_unfold)
  have c1: "called (statics w1)"
    by (simp add: w1_def called_register_subdevs)
  then have r2: "statics w2 =
      (statics w1)\<lparr>id_to_ctor_map := dict_assign (id_to_ctor_map (statics w1)) i c2,
                    ctor_to_names_map := dict_assign (ctor_to_names_map (statics w1)) c2 n2\<rparr>"
    by (simp add: w2_def register_subdevs_latched)
  have c2: "called (statics w2)"
    by (simp add: w2_def called_register_subdevs)
  have "resolves_to (statics w2) i c2 n2"
    using c2 by (simp add: resolves_to_def r2 map_of_dict_assign_same)
  from run_calls_resolves_to [OF this assms]
  have res: "called r3" "map_of (id_to_ctor_map r3) i = Some c2"
    "map_of (ctor_to_names_map r3) c2 = Some n2"
    by (simp_all add: resolves_to_def r3_def w3_def)
  have a: "register_internal_dboards r3 = r3"
    using res(1) by (rule register_internal_dboards_latched)
  have b: "get_dboard_ctor r3 i xx = Inr c2" for xx
    by (simp add: get_dboard_ctor_def res(2))
  have c: "dict_index (ctor_to_names_map r3) c2 [] = (n2, ctor_to_names_map r3)"
    by (simp add: dict_index_def res(3))
  have mk: "manager_make i i w3 =
     (Inr (fst (make_xcvr_subdevs c2 n2 \<lparr>rx_dboards = [], tx_dboards = []\<rparr> (instances w3))),
      \<lparr>statics = r3,
       instances =
         snd (make_xcvr_subdevs c2 n2 \<lparr>rx_dboards = [], tx_dboards = []\<rparr> (instances w3)),
       iface_calls = iface_calls w3 @ gpio_init\<rparr>)"
    using manager_make_xcvr [of w3 i c2 i n2] a b res(3) by (simp add: r3_def)
  have d: "fst (manager_make i i w3)
      = Inr (fst (make_xcvr_subdevs c2 n2 \<lparr>rx_dboards = [], tx_dboards = []\<rparr> (instances w3)))"
    by (simp add: mk)
  have e: "instances (snd (manager_make i i w3)) = instances w3 @ map (new_driver c2) n2"
    by (simp add: mk make_xcvr_subdevs_heap)
  have f: "statics (snd (manager_make i i w3)) = r3"
    by (simp add: mk)
  have "i \<in> set (map fst (id_to_ctor_map (statics w1)))"
    by (simp add: r1 keys_dict_assign)
  then have g: "get_keys (id_to_ctor_map (statics w2)) = get_keys (id_to_ctor_map (statics w1))"
    by (simp add: get_keys_def r2 keys_dict_assign)
  note later_keys = run_calls_keys [OF c2, of later, folded w3_def r3_def]
  have "distinct (map fst (id_to_ctor_map (statics w2)))"
    if "distinct (map fst (id_to_ctor_map (statics w)))"
    using that g by (simp add: get_keys_def r1 r0_def distinct_keys_dict_assign
        distinct_register_internal_dboards)
  with later_keys
  have h: "distinct (get_keys (id_to_ctor_map (statics w)))
      \<longrightarrow> distinct (get_keys (id_to_ctor_map r3))"
    by (simp add: get_keys_def)
  have "set (map fst (id_to_ctor_map (statics w))) \<subseteq> set (map fst (id_to_ctor_map (statics w2)))"
    using keys_register_internal_dboards [of "statics w"] g
    by (auto simp: get_keys_def r1 r0_def keys_dict_assign)
  with later_keys
  have k: "set (get_keys (id_to_ctor_map (statics w))) \<subseteq> set (get_keys (id_to_ctor_map r3))"
    by (auto simp: get_keys_def)
  show ?thesis
    using a b c d e f g h k
    unfolding Let_def w1_def [symmetric] w2_def [symmetric] w3_def [symmetric] r3_def [symmetric]
    by blast
qed

text \<open>
  A run: after the two registrations of the code 7, another code is registered with a
  third constructor, two managers are constructed, and the first constructor of the code
  7 is registered for a further code.
\<close>

definition example_calls :: "client_call list" where
  "example_calls =
     [Register 8 (extern_make 3) [''w''], Construct 7 7, Construct ID_NONE ID_BASIC_TX,
      Register 9 (extern_make 1) [''v'']]"

theorem later_resolutions_yield_second_registration_witness:
  "list_all (leaves_alone 7 (extern_make 2)) example_calls
   \<and> (let w2 = (fresh_world :: (nat, nat) world)\<lparr>statics := twice_registered\<rparr>;
           w3 = run_calls example_calls w2
       in get_dboard_ctor (statics w3) 7 ''rx'' = Inr (extern_make 2)
        \<and> fst (dict_index (ctor_to_names_map (statics w3)) (extern_make 2) []) = [''y'', ''z'']
        \<and> map made_for (drop (length (instances w3)) (instances (snd (manager_make 7 7 w3))))
            = [''y'', ''z'']
        \<and> map made_by (drop (length (instances w3)) (instances (snd (manager_make 7 7 w3))))
            = [extern_make 2, extern_make 2]
        \<and> distinct (get_keys (id_to_ctor_map (statics w3)))
        \<and> set (get_keys (id_to_ctor_map fresh_registry))
            \<subseteq> set (get_keys (id_to_ctor_map (statics w3))))"
proof -
  let ?W1 = "(fresh_world :: (nat, nat) world)\<lparr>statics :=
      register_subdevs 7 (extern_make 1) [''x''] (statics (fresh_world :: (nat, nat) world))\<rparr>"
  let ?W2 = "?W1\<lparr>statics := register_subdevs 7 (extern_make 2) [''y'', ''z''] (statics ?W1)\<rparr>"
  let ?w3 = "run_calls example_calls ?W2"
  have h: "list_all (leaves_alone 7 (extern_make 2)) example_calls"
    by (simp add: example_calls_def)
  have eq: "(fresh_world :: (nat, nat) world)\<lparr>statics := twice_registered\<rparr> = ?W2"
    by (simp add: twice_registered_def fresh_world_def)
  have d0: "distinct (get_keys (id_to_ctor_map (statics (fresh_world :: (nat, nat) world))))"
    by (simp add: fresh_world_def fresh_registry_def get_keys_def)
  have s0: "fresh_registry = statics (fresh_world :: (nat, nat) world)"
    by (simp add: fresh_world_def)
  note all = later_resolutions_yield_second_registration [OF h,
      where w = "fresh_world :: (nat, nat) world" and ?c1.0 = "extern_make 1"
        and ?n1.0 = "[''x'']" and ?n2.0 = "[''y'', ''z'']" and xx = "''rx''", unfolded Let_def]
  from all have a: "get_dboard_ctor (statics ?w3) 7 ''rx'' = Inr (extern_make 2)"
    by blast
  from all have "dict_index (ctor_to_names_map (statics ?w3)) (extern_make 2) []
      = ([''y'', ''z''], ctor_to_names_map (statics ?w3))"
    by blast
  then have b: "fst (dict_index (ctor_to_names_map (statics ?w3)) (extern_make 2) [])
      = [''y'', ''z'']"
    by simp
  from all have made: "instances (snd (manager_make 7 7 ?w3))
      = instances ?w3 @ map (new_driver (extern_make 2)) [''y'', ''z'']"
    by blast
  have c: "map made_for (drop (length (instances ?w3)) (instances (snd (manager_make 7 7 ?w3))))
      = [''y'', ''z'']"
    unfolding made by (simp add: new_driver_def)
  have d: "map made_by (drop (length (instances ?w3)) (instances (snd (manager_make 7 7 ?w3))))
      = [extern_make 2, extern_make 2]"
    unfolding made by (simp add: new_driver_def)
  from all d0 have e: "distinct (get_keys (id_to_ctor_map (statics ?w3)))"
    by blast
  from all have f: "set (get_keys (id_to_ctor_map (statics (fresh_world :: (nat, nat) world))))
      \<subseteq> set (get_keys (id_to_ctor_map (statics ?w3)))"
    by blast
  show ?thesis
    unfolding Let_def eq s0 by (intro conjI h a b c d e f)
qed

end
